(* ===== verification/Py_Float.thy ===== *)
theory Py_Float
  imports Complex_Main "HOL-Library.Log_Nat"
begin

text \<open>
  Python's \<^verbatim>\<open>float\<close>: IEEE 754 binary64 as CPython computes with it.

  A finite double is kept as the rational number it stands for.
  The arithmetic operators of the interpreter return the double nearest to the exact
  result, ties to the even significand; \<open>fl\<close> is that rounding, with 53 significant bits
  and the subnormal range of binary64, so that every float expression \<^verbatim>\<open>a - b\<close> of the
  source is \<open>fl (a - b)\<close> in the model. Both zeros are the rational 0: the source never
  tells them apart. Values beyond \<open>2 ^ 1024\<close> are infinities and belong to \<open>pyfloat\<close>
  (theory Prelude); \<open>float_big\<close> is the threshold.

  The lemmas: \<open>fl\<close> is monotone, odd, the identity on doubles (\<open>is_double\<close>) and on the
  integers of at most 53 bits.
\<close>

subsection \<open>Rounding to an integer, half to even\<close>

definition round_half_even :: "rat \<Rightarrow> int" where
  "round_half_even x =
     (let n = \<lfloor>x\<rfloor>; r = x - of_int n
      in if r < 1/2 then n else if 1/2 < r then n + 1 else if even n then n else n + 1)"

lemma round_half_even_of_int [simp]: "round_half_even (of_int n) = n"
  by (simp add: round_half_even_def)

lemma round_half_even_bounds:
  "\<lfloor>x\<rfloor> \<le> round_half_even x \<and> round_half_even x \<le> \<lfloor>x\<rfloor> + 1"
  by (simp add: round_half_even_def Let_def)

lemma round_half_even_mono:
  assumes "x \<le> y" shows "round_half_even x \<le> round_half_even y"
proof (cases "\<lfloor>x\<rfloor> = \<lfloor>y\<rfloor>")
  case True
  with assms show ?thesis by (auto simp: round_half_even_def Let_def)
next
  case False
  moreover have "\<lfloor>x\<rfloor> \<le> \<lfloor>y\<rfloor>" using assms by (rule floor_mono)
  ultimately have "\<lfloor>x\<rfloor> + 1 \<le> \<lfloor>y\<rfloor>" by simp
  then show ?thesis using round_half_even_bounds [of x] round_half_even_bounds [of y] by linarith
qed

lemma round_half_even_minus: "round_half_even (- x) = - round_half_even x"
proof (cases "x = of_int \<lfloor>x\<rfloor>")
  case True
  then obtain n where "x = of_int n" ..
  then show ?thesis
    using round_half_even_of_int [of "- n"] by simp
next
  case False
  then have "of_int \<lfloor>x\<rfloor> < x" using of_int_floor_le [of x] by linarith
  then have *: "\<lfloor>- x\<rfloor> = - \<lfloor>x\<rfloor> - 1"
    by (intro floor_unique) (use floor_correct [of x] in \<open>auto simp: algebra_simps\<close>)
  show ?thesis by (auto simp: round_half_even_def Let_def * field_simps)
qed

subsection \<open>The binade of a positive rational\<close>

definition pow2 :: "int \<Rightarrow> rat" where
  "pow2 e = (if 0 \<le> e then 2 ^ nat e else 1 / 2 ^ nat (- e))"

definition ilog2 :: "rat \<Rightarrow> int" where
  "ilog2 x = (if 1 \<le> x then bitlen \<lfloor>x\<rfloor> - 1 else - bitlen (\<lceil>1 / x\<rceil> - 1))"

lemma pow2_pos [simp]: "0 < pow2 e"
  by (simp add: pow2_def)

lemma pow2_nonneg [simp]: "0 \<le> pow2 e"
  by (simp add: less_imp_le)

lemma pow2_nonzero [simp]: "pow2 e \<noteq> 0"
  by (simp add: pow2_def)

lemma pow2_powi: "pow2 e = 2 powi e"
  by (cases "0 \<le> e") (simp_all add: pow2_def power_int_def inverse_eq_divide power_one_over)

lemma pow2_add: "pow2 (a + b) = pow2 a * pow2 b"
  by (simp add: pow2_powi power_int_add)

lemma pow2_mono: "a \<le> b \<Longrightarrow> pow2 a \<le> pow2 b"
  by (simp add: pow2_powi power_int_increasing)

lemma pow2_strict_mono: "a < b \<Longrightarrow> pow2 a < pow2 b"
  by (simp add: pow2_powi power_int_strict_increasing)

lemma pow2_of_nat: "pow2 (int n) = 2 ^ n"
  by (simp add: pow2_def)

lemma floorlog2_spec:
  assumes "0 < n" shows "2 ^ (floorlog 2 n - 1) \<le> n \<and> n < 2 ^ floorlog 2 n \<and> 0 < floorlog 2 n"
proof -
  have "0 < floorlog 2 n" using assms floorlog_eq_zero_iff [of 2 n] by linarith
  then show ?thesis using floorlog_bounds [of n 2] assms by simp
qed

lemma ilog2_spec:
  assumes "0 < x" shows "pow2 (ilog2 x) \<le> x \<and> x < pow2 (ilog2 x + 1)"
proof (cases "1 \<le> x")
  case True
  define n where "n = nat \<lfloor>x\<rfloor>"
  from True have fl1: "1 \<le> \<lfloor>x\<rfloor>" by simp
  then have n: "0 < n" "of_nat n = (of_int \<lfloor>x\<rfloor> :: rat)" by (simp_all add: n_def)
  define k where "k = floorlog 2 n"
  from floorlog2_spec [OF n(1)] have k: "2 ^ (k - 1) \<le> n" "n + 1 \<le> 2 ^ k" "0 < k"
    by (auto simp: k_def)
  have "ilog2 x = int (k - 1)" using True k(3) by (simp add: ilog2_def bitlen_def n_def k_def)
  then have e: "pow2 (ilog2 x) = 2 ^ (k - 1)" "pow2 (ilog2 x + 1) = 2 ^ k"
    using k(3) pow2_of_nat [of "k - 1"] pow2_of_nat [of k] by auto
  have lo: "(2 ^ (k - 1) :: rat) \<le> of_nat n"
    using k(1) of_nat_le_iff [of "2 ^ (k - 1)" n, where ?'a = rat] by simp
  have hi: "of_nat n + 1 \<le> (2 ^ k :: rat)"
    using k(2) of_nat_le_iff [of "n + 1" "2 ^ k", where ?'a = rat] by simp
  have "(of_nat n :: rat) \<le> x" "x < of_nat n + 1"
    unfolding n(2) using floor_correct [of x] by simp_all
  with lo hi show ?thesis unfolding e by linarith
next
  case False
  define y where "y = 1 / x"
  from False assms have y: "1 < y" by (simp add: y_def field_simps)
  define n where "n = nat (\<lceil>y\<rceil> - 1)"
  have c: "2 \<le> \<lceil>y\<rceil>" using y by (simp add: le_ceiling_iff)
  then have n: "0 < n" "of_nat n = (of_int \<lceil>y\<rceil> - 1 :: rat)" by (simp_all add: n_def)
  define k where "k = floorlog 2 n"
  from floorlog2_spec [OF n(1)] have k: "2 ^ (k - 1) \<le> n" "n + 1 \<le> 2 ^ k" "0 < k"
    by (auto simp: k_def)
  have e0: "ilog2 x = - int k" using False by (simp add: ilog2_def bitlen_def n_def k_def y_def)
  have p0: "pow2 a * pow2 b = 1" if "a + b = 0" for a b
    using that by (simp add: pow2_add [symmetric]) (simp add: pow2_def)
  have "1 - int k + int (k - 1) = 0" using k(3) by simp
  then have e: "pow2 (ilog2 x) * 2 ^ k = 1" "pow2 (ilog2 x + 1) * 2 ^ (k - 1) = 1"
    using p0 [of "- int k" "int k"] p0 [of "1 - int k" "int (k - 1)"]
    by (simp_all only: e0 pow2_of_nat add.commute [of "- int k" 1] diff_conv_add_uminus [symmetric])
  have lo: "(2 ^ (k - 1) :: rat) \<le> of_nat n"
    using k(1) of_nat_le_iff [of "2 ^ (k - 1)" n, where ?'a = rat] by simp
  have hi: "of_nat n + 1 \<le> (2 ^ k :: rat)"
    using k(2) of_nat_le_iff [of "n + 1" "2 ^ k", where ?'a = rat] by simp
  have b: "2 ^ (k - 1) < y \<and> y \<le> 2 ^ k"
    using lo hi ceiling_correct [of y] unfolding n(2) by linarith
  have xy: "x * y = 1" using assms by (simp add: y_def)
  have "pow2 (ilog2 x) * 2 ^ k = x * y" "pow2 (ilog2 x + 1) * 2 ^ (k - 1) = x * y"
    by (simp_all only: e xy)
  moreover have "x * y \<le> x * 2 ^ k" "x * 2 ^ (k - 1) < x * y"
    using b assms by simp_all
  ultimately have A: "pow2 (ilog2 x) * 2 ^ k \<le> x * 2 ^ k"
    and B: "x * 2 ^ (k - 1) < pow2 (ilog2 x + 1) * 2 ^ (k - 1)"
    by (simp_all only:)
  show ?thesis using mult_right_le_imp_le [OF A] mult_right_less_imp_less [OF B] by simp
qed

lemma ilog2_mono:
  assumes "0 < x" "x \<le> y" shows "ilog2 x \<le> ilog2 y"
proof (rule ccontr)
  assume "\<not> ilog2 x \<le> ilog2 y"
  then have "pow2 (ilog2 y + 1) \<le> pow2 (ilog2 x)" by (intro pow2_mono) simp
  then show False using ilog2_spec [of x] ilog2_spec [of y] assms by auto
qed

lemma ilog2_unique:
  assumes "pow2 e \<le> x" "x < pow2 (e + 1)" shows "ilog2 x = e"
proof -
  have "0 < x" using assms(1) pow2_pos [of e] by linarith
  from ilog2_spec [OF this] have "pow2 (ilog2 x) < pow2 (e + 1)" "pow2 e < pow2 (ilog2 x + 1)"
    using assms by auto
  then have "ilog2 x < e + 1" "e < ilog2 x + 1"
    using pow2_mono linorder_not_less by (meson not_le)+
  then show ?thesis by simp
qed

subsection \<open>Rounding to binary64\<close>

definition ulp_exp :: "rat \<Rightarrow> int" where
  "ulp_exp x = max (- 1074) (ilog2 \<bar>x\<bar> - 52)"

definition fl :: "rat \<Rightarrow> rat" where
  "fl x = (if x = 0 then 0
           else let u = pow2 (ulp_exp x) in of_int (round_half_even (x / u)) * u)"

definition is_double :: "rat \<Rightarrow> bool" where
  "is_double x \<longleftrightarrow> fl x = x"

lemma fl_0 [simp]: "fl 0 = 0"
  by (simp add: fl_def)

lemma fl_minus [simp]: "fl (- x) = - fl x"
  by (simp add: fl_def Let_def ulp_exp_def round_half_even_minus)

lemma fl_pos_cases:
  assumes "0 < x"
  defines "e \<equiv> ulp_exp x"
  shows "0 \<le> fl x \<and> fl x \<le> pow2 (max (ilog2 x) (- 1022) + 1)
         \<and> (ilog2 x \<ge> - 1022 \<longrightarrow> pow2 (ilog2 x) \<le> fl x)"
proof -
  define u where "u = pow2 e"
  have u: "0 < u" by (simp add: u_def)
  have f: "fl x = of_int (round_half_even (x / u)) * u"
    using assms by (simp add: fl_def Let_def u_def)
  let ?r = "round_half_even (x / u)"
  have sp: "pow2 (ilog2 x) \<le> x" "x < pow2 (ilog2 x + 1)" using ilog2_spec [OF assms(1)] by auto
  have nonneg: "0 \<le> ?r"
    using round_half_even_mono [of 0 "x / u"] round_half_even_of_int [of 0] assms(1) u by simp
  define m where "m = max (ilog2 x) (- 1022) + 1"
  have em: "e = m - 53" using assms(1) by (simp add: e_def m_def ulp_exp_def)
  have pm: "pow2 m = of_int (2 ^ 53) * u"
    using pow2_add [of e 53] by (simp add: em u_def pow2_def)
  have "x \<le> pow2 m" using sp(2) pow2_mono [of "ilog2 x + 1" m] by (simp add: m_def)
  then have "x / u \<le> of_int (2 ^ 53)" using u by (simp add: pm pos_divide_le_eq)
  then have "?r \<le> 2 ^ 53" by (metis round_half_even_mono round_half_even_of_int)
  then have "of_int ?r * u \<le> of_int (2 ^ 53) * u"
    using u by (intro mult_right_mono) (simp_all only: of_int_le_iff less_imp_le)
  then have up: "fl x \<le> pow2 m" by (simp only: f pm)
  have lo: "pow2 (ilog2 x) \<le> fl x" if "ilog2 x \<ge> - 1022"
  proof -
    have e: "e = ilog2 x - 52" using assms(1) that by (simp add: e_def ulp_exp_def)
    have p: "pow2 (ilog2 x) = of_int (2 ^ 52) * u"
      using pow2_add [of e 52] by (simp add: e u_def pow2_def)
    have "of_int (2 ^ 52) \<le> x / u" using sp(1) u by (simp add: p pos_le_divide_eq)
    then have "2 ^ 52 \<le> ?r" by (metis round_half_even_mono round_half_even_of_int)
    then have "of_int (2 ^ 52) * u \<le> of_int ?r * u"
      using u by (intro mult_right_mono) (simp_all only: of_int_le_iff less_imp_le)
    then show ?thesis by (simp only: f p)
  qed
  from nonneg u have "0 \<le> fl x" by (simp add: f)
  with up lo show ?thesis by (simp add: m_def)
qed

lemma fl_mono_pos:
  assumes "0 < x" "x \<le> y" shows "fl x \<le> fl y"
proof (cases "ulp_exp x = ulp_exp y")
  case True
  define u where "u = pow2 (ulp_exp x)"
  have u: "0 < u" by (simp add: u_def)
  have "x / u \<le> y / u" using assms u by (simp add: divide_right_mono)
  then have "round_half_even (x / u) \<le> round_half_even (y / u)" by (rule round_half_even_mono)
  then have "of_int (round_half_even (x / u)) * u \<le> of_int (round_half_even (y / u)) * u"
    using u by (intro mult_right_mono) simp_all
  then show ?thesis using assms True by (simp add: fl_def Let_def u_def)
next
  case False
  have le: "ilog2 x \<le> ilog2 y" using ilog2_mono assms by blast
  with False assms have "max (ilog2 x) (- 1022) + 1 \<le> ilog2 y \<and> ilog2 y \<ge> - 1022"
    by (auto simp: ulp_exp_def)
  then have "pow2 (max (ilog2 x) (- 1022) + 1) \<le> pow2 (ilog2 y)" "- 1022 \<le> ilog2 y"
    using pow2_mono by blast+
  then show ?thesis using fl_pos_cases [of x] fl_pos_cases [of y] assms by force
qed

lemma fl_nonneg: "0 \<le> x \<Longrightarrow> 0 \<le> fl x"
  using fl_pos_cases [of x] by (cases "x = 0") auto

lemma fl_mono: assumes "x \<le> y" shows "fl x \<le> fl y"
proof -
  consider "0 < x" | "x \<le> 0" "0 \<le> y" | "y < 0" by linarith
  then show ?thesis
  proof cases
    case 1 then show ?thesis using assms by (rule fl_mono_pos)
  next
    case 2 then show ?thesis using fl_nonneg [of y] fl_nonneg [of "- x"] by simp
  next
    case 3
    then have "fl (- y) \<le> fl (- x)" using assms by (intro fl_mono_pos) auto
    then show ?thesis by simp
  qed
qed


lemma fl_double:
  assumes "x = of_int n * pow2 e" "\<bar>n\<bar> \<le> 2 ^ 53" "- 1074 \<le> e"
  shows "fl x = x"
proof -
  have pos: "fl z = z" if z: "z = of_int m * pow2 e" and m: "0 < m" "m \<le> 2 ^ 53" for z m
  proof -
    have z0: "0 < z" using z m(1) by simp
    have p53: "pow2 (e + 53) = of_int (2 ^ 53) * pow2 e" by (simp add: pow2_add) (simp add: pow2_def)
    have "z \<le> pow2 (e + 53)" unfolding p53 z using m by (intro mult_right_mono) (simp_all only: of_int_le_iff pow2_nonneg)
    then consider "z = pow2 (e + 53)" | "z < pow2 (e + 53)" by linarith
    then show ?thesis
    proof cases
      case 1
      then have "ilog2 z = e + 53"
        by (intro ilog2_unique) (simp_all add: pow2_strict_mono)
      then have u: "ulp_exp z = e + 1" using z0 assms(3) by (simp add: ulp_exp_def)
      have z52: "z = of_int (2 ^ 52) * pow2 (e + 1)"
        using 1 pow2_add [of "e + 1" 52] pow2_of_nat [of 52] by (simp add: add.commute)
      then have "z / pow2 (e + 1) = of_int (2 ^ 52)" by simp
      then have "fl z = of_int (2 ^ 52) * pow2 (e + 1)"
        using z0 by (simp only: fl_def Let_def u round_half_even_of_int) simp
      also have "\<dots> = z" using z52 by simp
      finally show ?thesis .
    next
      case 2
      have "pow2 (ilog2 z) < pow2 (e + 53)" using ilog2_spec [OF z0] 2 by linarith
      then have "ilog2 z < e + 53" using pow2_mono linorder_not_less by (meson not_le)
      then have le: "ulp_exp z \<le> e" using z0 assms(3) by (simp add: ulp_exp_def)
      define d where "d = nat (e - ulp_exp z)"
      define u where "u = pow2 (ulp_exp z)"
      have "pow2 e = u * of_int (2 ^ d)"
        using pow2_add [of "ulp_exp z" "int d"] pow2_of_nat [of d] le by (simp add: d_def u_def)
      then have "z = of_int (m * 2 ^ d) * u" using z by simp
      then have zz: "z / pow2 (ulp_exp z) = of_int (m * 2 ^ d)" 
        unfolding u_def by (simp only: nonzero_divide_eq_eq [OF pow2_nonzero])
      have "fl z = of_int (m * 2 ^ d) * pow2 (ulp_exp z)"
        using z0 by (simp only: fl_def Let_def zz round_half_even_of_int) simp
      also have "\<dots> = z" using zz by (simp add: field_simps)
      finally show ?thesis .
    qed
  qed
  consider "n = 0" | "0 < n" | "0 < - n" by linarith
  then show ?thesis
  proof cases
    case 1 then show ?thesis using assms(1) by simp
  next
    case 2 then show ?thesis using pos [of x n] assms by simp
  next
    case 3 then have "fl (- x) = - x" using pos [of "- x" "- n"] assms by simp
    then show ?thesis by simp
  qed
qed

lemma fl_of_int: "\<bar>n\<bar> \<le> 2 ^ 53 \<Longrightarrow> fl (of_int n) = of_int n"
  by (rule fl_double [where n = n and e = 0]) (simp_all add: pow2_def)

lemma fl_numeral: "(numeral k :: int) \<le> 2 ^ 53 \<Longrightarrow> fl (numeral k) = numeral k"
  using fl_of_int [of "numeral k"] by simp

lemma fl_1 [simp]: "fl 1 = 1"
  using fl_of_int [of 1] by simp

lemma fl_fl: "fl (fl x) = fl x"
proof -
  have pos: "fl (fl z) = fl z" if z: "0 < z" for z
  proof -
    define r where "r = round_half_even (z / pow2 (ulp_exp z))"
    have f: "fl z = of_int r * pow2 (ulp_exp z)" using z by (simp add: fl_def Let_def r_def)
    have r0: "0 \<le> r" using fl_nonneg [of z] z pow2_pos [of "ulp_exp z"] unfolding f by (auto simp: zero_le_mult_iff)
    have "z < pow2 (ilog2 z + 1)" using ilog2_spec [OF z] by simp
    also have "\<dots> \<le> pow2 (ulp_exp z + 53)" using z by (intro pow2_mono) (simp add: ulp_exp_def)
    also have "\<dots> = of_int (2 ^ 53) * pow2 (ulp_exp z)" by (simp add: pow2_add) (simp add: pow2_def)
    finally have "z / pow2 (ulp_exp z) \<le> of_int (2 ^ 53)" by (simp add: pos_divide_le_eq)
    then have "r \<le> 2 ^ 53" unfolding r_def by (metis round_half_even_mono round_half_even_of_int)
    with r0 have "\<bar>r\<bar> \<le> 2 ^ 53" by simp
    moreover have "- 1074 \<le> ulp_exp z" by (simp add: ulp_exp_def)
    ultimately show ?thesis using f by (intro fl_double [where n = r]) simp_all
  qed
  consider "x = 0" | "0 < x" | "0 < - x" by linarith
  then show ?thesis
  proof cases
    case 3 then show ?thesis using pos [of "- x"] by simp
  qed (simp_all add: pos)
qed

lemma is_double_fl [simp]: "is_double (fl x)"
  by (simp add: is_double_def fl_fl)

lemma is_double_0 [simp]: "is_double 0"
  by (simp add: is_double_def)

lemma is_double_minus [simp]: "is_double (- x) \<longleftrightarrow> is_double x"
  by (simp add: is_double_def)

lemma fl_le_double: "is_double b \<Longrightarrow> x \<le> b \<Longrightarrow> fl x \<le> b"
  using fl_mono [of x b] by (simp add: is_double_def)

lemma fl_ge_double: "is_double a \<Longrightarrow> a \<le> x \<Longrightarrow> a \<le> fl x"
  using fl_mono [of a x] by (simp add: is_double_def)

lemma pow2_double: "- 1074 \<le> e \<Longrightarrow> is_double (pow2 e)"
  unfolding is_double_def by (rule fl_double [where n = 1]) simp_all

lemma fl_ge_eighth: "1 / 8 \<le> x \<Longrightarrow> 1 / 8 \<le> fl x"
  using fl_ge_double [of "pow2 (- 3)" x] pow2_double [of "- 3"] by (simp add: pow2_def)

lemma fl_pos: assumes "1 / 2 ^ 1000 \<le> x" shows "0 < fl x"
proof -
  have p: "pow2 (- 1000) = 1 / 2 ^ 1000" by (simp only: pow2_def) simp
  have "pow2 (- 1000) \<le> fl x" using assms unfolding p [symmetric]
    by (intro fl_ge_double pow2_double) simp_all
  then show ?thesis using pow2_pos [of "- 1000"] by linarith
qed


text \<open>Evaluation: the exponent and the significand are named, the rest computes.\<close>

lemma round_half_even_near:
  assumes "\<bar>x - of_int n\<bar> < 1 / 2" shows "round_half_even x = n"
proof -
  have "\<lfloor>x\<rfloor> = n \<or> \<lfloor>x\<rfloor> = n - 1"
    using assms by (cases "of_int n \<le> x") (auto simp: floor_eq_iff abs_if split: if_splits)
  then show ?thesis using assms by (auto simp: round_half_even_def Let_def abs_if split: if_splits)
qed

lemma round_half_even_error: "\<bar>of_int (round_half_even x) - x\<bar> \<le> 1 / 2"
  using floor_correct [of x] by (auto simp: round_half_even_def Let_def abs_le_iff)

text \<open>A value of at most \<open>2 ^ k\<close> is rounded by at most \<open>2 ^ (k - 53)\<close>.\<close>

lemma fl_near:
  assumes "\<bar>x\<bar> < pow2 k" "- 1000 \<le> k"
  shows "\<bar>fl x - x\<bar> \<le> pow2 (k - 53)"
proof (cases "x = 0")
  case False
  let ?u = "pow2 (ulp_exp x)"
  have "pow2 (ilog2 \<bar>x\<bar>) < pow2 k" using ilog2_spec [of "\<bar>x\<bar>"] False assms(1) by simp
  then have "ilog2 \<bar>x\<bar> < k" using pow2_mono [of k "ilog2 \<bar>x\<bar>"] by (meson not_le)
  then have "ulp_exp x - 1 \<le> k - 53" using assms(2) by (simp add: ulp_exp_def)
  then have "pow2 (ulp_exp x - 1) \<le> pow2 (k - 53)" by (intro pow2_mono) auto
  moreover have "pow2 (ulp_exp x - 1) = ?u / 2" using pow2_add [of "ulp_exp x - 1" 1] by (simp add: pow2_def)
  moreover have "\<bar>fl x - x\<bar> = \<bar>of_int (round_half_even (x / ?u)) - x / ?u\<bar> * ?u"
  proof -
    have "fl x - x = (of_int (round_half_even (x / ?u)) - x / ?u) * ?u"
      using False pow2_nonzero [of "ulp_exp x"] by (simp add: fl_def Let_def left_diff_distrib)
    then show ?thesis by (simp add: abs_mult)
  qed
  moreover have "\<dots> \<le> 1 / 2 * ?u" by (intro mult_right_mono round_half_even_error) simp
  ultimately show ?thesis by linarith
qed simp

lemma fl_eval:
  assumes "pow2 e \<le> x" "x < pow2 (e + 1)" "- 1022 \<le> e" "\<bar>x / pow2 (e - 52) - of_int n\<bar> < 1 / 2"
  shows "fl x = of_int n * pow2 (e - 52)"
proof -
  have "0 < x" using assms(1) pow2_pos [of e] by linarith
  then show ?thesis using ilog2_unique [OF assms(1,2)] assms(3) round_half_even_near [OF assms(4)]
    by (simp add: fl_def ulp_exp_def Let_def)
qed

lemma fl_dyadic [simp]:
  "(numeral k :: int) \<le> 2 ^ 53 \<Longrightarrow> fl (numeral k / 2) = numeral k / 2"
  "(numeral k :: int) \<le> 2 ^ 53 \<Longrightarrow> fl (numeral k / 4) = numeral k / 4"
  "(numeral k :: int) \<le> 2 ^ 53 \<Longrightarrow> fl (numeral k / 8) = numeral k / 8"
  "fl (1 / 2) = 1 / 2" "fl (1 / 4) = 1 / 4" "fl (1 / 8) = 1 / 8"
  using fl_double [of "numeral k / 2" "numeral k" "- 1"] fl_double [of "numeral k / 4" "numeral k" "- 2"]
    fl_double [of "numeral k / 8" "numeral k" "- 3"] fl_double [of "1 / 2" 1 "- 1"]
    fl_double [of "1 / 4" 1 "- 2"] fl_double [of "1 / 8" 1 "- 3"]
  by (simp_all add: pow2_def)


lemma is_double_numerals [simp]:
  "is_double 1" "(numeral k :: int) \<le> 2 ^ 53 \<Longrightarrow> is_double (numeral k)"
  "(numeral k :: int) \<le> 2 ^ 53 \<Longrightarrow> is_double (numeral k / 2)" "is_double (1 / 2)"
  "(numeral k :: int) \<le> 2 ^ 53 \<Longrightarrow> is_double (numeral k / 4)" "is_double (1 / 4)"
  "(numeral k :: int) \<le> 2 ^ 53 \<Longrightarrow> is_double (numeral k / 8)" "is_double (1 / 8)"
  by (simp_all add: is_double_def fl_numeral)

end
