(* ===== verification/Prelude.thy ===== *)
theory Prelude
  imports Py_Float "HOL-Library.Char_ord"
begin

text \<open>
  The part of Python the components share: values, exceptions, dictionaries, and the
  combinators that thread exceptions and object state.

  \<^item> \<open>pyfloat\<close> is Python's \<^verbatim>\<open>float\<close>: a finite double (a rational, theory Py_Float), an infinity
    or NaN, with the comparisons of IEEE 754 (false on NaN).
  \<^item> \<open>pyval\<close> is a value of unknown type, as JSON bodies, profiles and untyped arguments
    bring it in. Python's \<^verbatim>\<open>bool\<close> is a subtype of \<^verbatim>\<open>int\<close>, so a test \<^verbatim>\<open>isinstance(v, int)\<close>
    of the source is \<open>is_int_like\<close> and the usual guard \<^verbatim>\<open>isinstance(v, bool) or not
    isinstance(v, int)\<close> is the negation of \<open>is_plain_int\<close>.
  \<^item> A dictionary with string keys is an association list in insertion order with
    distinct keys (\<open>pydict\<close>); \<open>dget\<close> is \<^verbatim>\<open>d.get(k)\<close>.
  \<^item> Strings are lists of characters, one per code point: the model's strings are those
    of the first 256 code points.
  \<^item> \<open>exn\<close> has one constructor per exception class the modelled code raises. A function
    that can raise returns \<open>exn + 'a\<close>; an operation on an object returns the pair of
    that result and the object's state, because Python keeps what was assigned before
    the exception.
\<close>

named_theorems py_simps \<open>unfolding rules of the Python primitives\<close>
named_theorems inv_intro \<open>preservation lemmas of the components' invariants\<close>

subsection \<open>Floats with infinities and NaN\<close>

datatype pyfloat = Fin rat | PInf | NInf | NaN

fun pf_le :: "pyfloat \<Rightarrow> pyfloat \<Rightarrow> bool" where
  "pf_le NaN _ = False"
| "pf_le _ NaN = False"
| "pf_le NInf _ = True"
| "pf_le _ PInf = True"
| "pf_le (Fin a) (Fin b) = (a \<le> b)"
| "pf_le _ _ = False"

fun is_finite :: "pyfloat \<Rightarrow> bool" where
  "is_finite (Fin _) = True"
| "is_finite _ = False"

fun fin_val :: "pyfloat \<Rightarrow> rat" where
  "fin_val (Fin q) = q"
| "fin_val _ = 0"

lemma is_finite_iff: "is_finite f \<longleftrightarrow> (\<exists>q. f = Fin q)"
  by (cases f) simp_all

text \<open>The first rational that rounds to an infinity: the double after the largest one.\<close>

definition float_big :: rat where
  "float_big = 2 ^ 1024"

lemma float_big_large [simp]: "(numeral k :: int) \<le> 2 ^ 53 \<Longrightarrow> \<not> float_big \<le> numeral k" "\<not> float_big \<le> 1" "\<not> float_big \<le> 0"
proof -
  have "(2::rat) ^ 53 < float_big" unfolding float_big_def by (intro power_strict_increasing) simp_all
  then show "\<not> float_big \<le> 1" "\<not> float_big \<le> 0" by (auto simp: not_le intro: less_trans [rotated])
  assume "(numeral k :: int) \<le> 2 ^ 53"
  then have "rat_of_int (numeral k) \<le> rat_of_int (2 ^ 53)" unfolding of_int_le_iff .
  then have "(numeral k :: rat) \<le> 2 ^ 53" by simp
  with \<open>(2::rat) ^ 53 < float_big\<close> show "\<not> float_big \<le> numeral k" by linarith
qed

definition mk_float :: "rat \<Rightarrow> pyfloat" where
  "mk_float x = (if float_big \<le> fl x then PInf else if fl x \<le> - float_big then NInf else Fin (fl x))"

subsection \<open>Values\<close>

datatype pyval =
    VNone
  | VBool bool
  | VInt int
  | VFloat pyfloat
  | VStr string
  | VList "pyval list"
  | VDict "(string \<times> pyval) list"

type_synonym pydict = "(string \<times> pyval) list"

datatype exn =
    TypeError | ValueError | AttributeError | OverflowError | KeyError | IndexError | RuntimeError string
  | BridgeCommandError string
  | ControlDisabled string | ControlNotReady string | ControlClosed string | LeaseBusy string
  | LeaseInvalid string | LeaseBindingError string | SequenceError string
  | CommandValidationError string | EmergencyStopLatched string
  | BehaviorContractError string | PerceptionContractError string | VirtualClockError string
  | OrderValidationError string | RoutePlanningError string string | ControlProtocolError string | RouteStateError string
  | RouteGraphError string | RoutePlannerConflict string | RoutePlannerNotFound string
  | RoutePlannerValidationError string | RoutePlannerUnavailable string
  | RoutePlannerStorageError string | RehearsalError string | OSError

fun is_bool :: "pyval \<Rightarrow> bool" where
  "is_bool (VBool _) = True"
| "is_bool _ = False"

fun is_plain_int :: "pyval \<Rightarrow> bool" where
  "is_plain_int (VInt _) = True"
| "is_plain_int _ = False"

fun int_val :: "pyval \<Rightarrow> int" where
  "int_val (VInt n) = n"
| "int_val _ = 0"

fun is_number :: "pyval \<Rightarrow> bool" where
  \<comment> \<open>\<^verbatim>\<open>not isinstance(v, bool) and isinstance(v, (int, float))\<close>\<close>
  "is_number (VInt _) = True"
| "is_number (VFloat _) = True"
| "is_number _ = False"

fun is_str :: "pyval \<Rightarrow> bool" where
  "is_str (VStr _) = True"
| "is_str _ = False"

fun str_val :: "pyval \<Rightarrow> string" where
  "str_val (VStr s) = s"
| "str_val _ = []"

fun is_list :: "pyval \<Rightarrow> bool" where
  "is_list (VList _) = True"
| "is_list _ = False"

fun is_dict :: "pyval \<Rightarrow> bool" where
  "is_dict (VDict _) = True"
| "is_dict _ = False"

fun hashable :: "pyval \<Rightarrow> bool" where
  "hashable (VList _) = False"
| "hashable (VDict _) = False"
| "hashable _ = True"

lemma is_plain_int_iff: "is_plain_int v \<longleftrightarrow> (\<exists>n. v = VInt n)"
  by (cases v) simp_all

lemma is_str_iff: "is_str v \<longleftrightarrow> (\<exists>s. v = VStr s)"
  by (cases v) simp_all

lemma is_bool_iff: "is_bool v \<longleftrightarrow> (\<exists>b. v = VBool b)"
  by (cases v) simp_all

lemma is_dict_iff: "is_dict v \<longleftrightarrow> (\<exists>d. v = VDict d)"
  by (cases v) simp_all

lemma is_list_iff: "is_list v \<longleftrightarrow> (\<exists>xs. v = VList xs)"
  by (cases v) simp_all

lemmas py_type_iffs = is_plain_int_iff is_str_iff is_bool_iff is_dict_iff is_list_iff

text \<open>\<^verbatim>\<open>v in {...}\<close> for a set of strings: unhashable values raise.\<close>

definition in_str_set :: "pyval \<Rightarrow> string list \<Rightarrow> exn + bool" where
  "in_str_set v names = (if \<not> hashable v then Inl TypeError else Inr (is_str v \<and> str_val v \<in> set names))"

text \<open>Truth value of an object.\<close>

fun truthy :: "pyval \<Rightarrow> bool" where
  "truthy VNone = False"
| "truthy (VBool b) = b"
| "truthy (VInt n) = (n \<noteq> 0)"
| "truthy (VFloat f) = (f \<noteq> Fin 0)"
| "truthy (VStr s) = (s \<noteq> [])"
| "truthy (VList xs) = (xs \<noteq> [])"
| "truthy (VDict d) = (d \<noteq> [])"

subsection \<open>Dictionaries\<close>

definition dget_or :: "pydict \<Rightarrow> string \<Rightarrow> pyval \<Rightarrow> pyval" where
  "dget_or d k v = (case map_of d k of Some x \<Rightarrow> x | None \<Rightarrow> v)"

definition dget :: "pydict \<Rightarrow> string \<Rightarrow> pyval" where
  "dget d k = dget_or d k VNone"

definition has_key :: "pydict \<Rightarrow> string \<Rightarrow> bool" where
  "has_key d k \<longleftrightarrow> k \<in> fst ` set d"

definition keys_are :: "pydict \<Rightarrow> string list \<Rightarrow> bool" where
  "keys_are d ks \<longleftrightarrow> set (map fst d) = set ks"

definition keys_within :: "pydict \<Rightarrow> string list \<Rightarrow> bool" where
  "keys_within d ks \<longleftrightarrow> set (map fst d) \<subseteq> set ks"

text \<open>Assignment \<^verbatim>\<open>d[k] = v\<close> keeps the position of a key that is there and appends a new one.\<close>

fun dput :: "'k \<Rightarrow> 'v \<Rightarrow> ('k \<times> 'v) list \<Rightarrow> ('k \<times> 'v) list" where
  "dput k v [] = [(k, v)]"
| "dput k v ((k', v') # d) = (if k' = k then (k, v) # d else (k', v') # dput k v d)"

lemma map_of_dput [simp]: "map_of (dput k v d) = (map_of d)(k \<mapsto> v)"
  by (induction k v d rule: dput.induct) (auto simp: fun_eq_iff)

lemma keys_dput: "fst ` set (dput k v d) = insert k (fst ` set d)"
  by (induction k v d rule: dput.induct) auto

lemma distinct_dput: "distinct (map fst d) \<Longrightarrow> distinct (map fst (dput k v d))"
proof (induction k v d rule: dput.induct)
  case (2 k v k' v' d)
  then show ?case using keys_dput [of k v d] by auto
qed simp

lemma length_dput: "length (dput k v d) = (if k \<in> fst ` set d then length d else Suc (length d))"
  by (induction k v d rule: dput.induct) auto

lemma dput_ne [simp]: "dput k v d \<noteq> []"
  by (induction k v d rule: dput.induct) auto

lemma dput_new: "k \<notin> fst ` set d \<Longrightarrow> dput k v d = d @ [(k, v)]"
  by (induction k v d rule: dput.induct) auto

subsection \<open>Equality across the numeric types\<close>

fun num_val :: "pyval \<Rightarrow> pyfloat option" where
  "num_val (VBool b) = Some (Fin (if b then 1 else 0))"
| "num_val (VInt n) = Some (Fin (of_int n))"
| "num_val (VFloat f) = Some f"
| "num_val _ = None"

definition num_eq :: "pyval \<Rightarrow> pyval \<Rightarrow> bool" where
  "num_eq v w = (case (num_val v, num_val w) of (Some a, Some b) \<Rightarrow> a = b \<and> a \<noteq> NaN | _ \<Rightarrow> False)"

fun py_eq :: "pyval \<Rightarrow> pyval \<Rightarrow> bool"
  and py_eq_list :: "pyval list \<Rightarrow> pyval list \<Rightarrow> bool"
  and py_eq_items :: "(string \<times> pyval) list \<Rightarrow> pydict \<Rightarrow> bool" where
  "py_eq VNone w = (w = VNone)"
| "py_eq (VStr s) w = (w = VStr s)"
| "py_eq (VList xs) w = (case w of VList ys \<Rightarrow> py_eq_list xs ys | _ \<Rightarrow> False)"
| "py_eq (VDict d) w = (case w of VDict e \<Rightarrow> length d = length e \<and> py_eq_items d e | _ \<Rightarrow> False)"
| "py_eq (VBool b) w = num_eq (VBool b) w"
| "py_eq (VInt n) w = num_eq (VInt n) w"
| "py_eq (VFloat f) w = num_eq (VFloat f) w"
| "py_eq_list [] ys = (ys = [])"
| "py_eq_list (x # xs) ys = (case ys of [] \<Rightarrow> False | y # ys' \<Rightarrow> py_eq x y \<and> py_eq_list xs ys')"
| "py_eq_items [] e = True"
| "py_eq_items ((k, v) # d) e = (case map_of e k of None \<Rightarrow> False | Some w \<Rightarrow> py_eq v w \<and> py_eq_items d e)"

subsection \<open>Exceptions and state\<close>

definition sbind :: "exn + 'a \<Rightarrow> ('a \<Rightarrow> exn + 'b) \<Rightarrow> exn + 'b" where
  "sbind r f = (case r of Inl e \<Rightarrow> Inl e | Inr x \<Rightarrow> f x)"

definition guard :: "bool \<Rightarrow> exn \<Rightarrow> exn + unit" where
  "guard c e = (if c then Inr () else Inl e)"

text \<open>A result together with the object's state, the state first changed by \<open>r\<close>.\<close>

type_synonym ('s, 'a) outcome = "(exn + 'a) \<times> 's"

definition obind :: "('s, 'a) outcome \<Rightarrow> ('a \<Rightarrow> 's \<Rightarrow> ('s, 'b) outcome) \<Rightarrow> ('s, 'b) outcome" where
  "obind r f = (case r of (Inl e, s) \<Rightarrow> (Inl e, s) | (Inr x, s) \<Rightarrow> f x s)"

definition lift_exn :: "exn + 'a \<Rightarrow> 's \<Rightarrow> ('s, 'a) outcome" where
  "lift_exn r s = (r, s)"

lemma sbind_simps [simp, py_simps]:
  "sbind (Inl e) f = Inl e" "sbind (Inr x) f = f x"
  by (simp_all add: sbind_def)

lemma sbind_cong [fundef_cong]:
  "r = r' \<Longrightarrow> (\<And>x. r' = Inr x \<Longrightarrow> f x = g x) \<Longrightarrow> sbind r f = sbind r' g"
  by (cases r') simp_all

lemma sbind_Inr_iff: "sbind r f = Inr y \<longleftrightarrow> (\<exists>x. r = Inr x \<and> f x = Inr y)"
  by (cases r) simp_all

lemma guard_simps [simp, py_simps]: "guard c e = Inr u \<longleftrightarrow> c" "guard True e = Inr ()" "guard False e = Inl e"
  by (auto simp: guard_def)

lemma obind_simps [simp, py_simps]:
  "obind (Inl e, s) f = (Inl e, s)" "obind (Inr x, s) f = f x s"
  by (simp_all add: obind_def)

lemma obind_split:
  "P (obind r f) \<longleftrightarrow> (\<forall>e s. r = (Inl e, s) \<longrightarrow> P (Inl e, s)) \<and> (\<forall>x s. r = (Inr x, s) \<longrightarrow> P (f x s))"
  by (auto simp: obind_def split: prod.splits sum.splits)

lemma obind_split_asm:
  "P (obind r f) \<longleftrightarrow> \<not> ((\<exists>e s. r = (Inl e, s) \<and> \<not> P (Inl e, s)) \<or> (\<exists>x s. r = (Inr x, s) \<and> \<not> P (f x s)))"
  by (auto simp: obind_def split: prod.splits sum.splits)

lemma lift_exn_simps [simp, py_simps]: "lift_exn r s = (r, s)"
  by (simp add: lift_exn_def)

text \<open>\<^verbatim>\<open>all\<close> and \<^verbatim>\<open>any\<close> over a generator that may raise: they stop at the first element that decides.\<close>

fun all_exn :: "('a \<Rightarrow> exn + bool) \<Rightarrow> 'a list \<Rightarrow> exn + bool" where
  "all_exn f [] = Inr True"
| "all_exn f (x # xs) = sbind (f x) (\<lambda>b. if b then all_exn f xs else Inr False)"

fun map_exn :: "('a \<Rightarrow> exn + 'b) \<Rightarrow> 'a list \<Rightarrow> exn + 'b list" where
  "map_exn f [] = Inr []"
| "map_exn f (x # xs) = sbind (f x) (\<lambda>y. sbind (map_exn f xs) (\<lambda>ys. Inr (y # ys)))"

lemma map_exn_all: "(\<And>x y. f x = Inr y \<Longrightarrow> P y) \<Longrightarrow> map_exn f xs = Inr ys \<Longrightarrow> list_all P ys"
  by (induction xs arbitrary: ys) (auto simp: sbind_Inr_iff)

lemma all_exn_True: "all_exn f xs = Inr True \<longleftrightarrow> list_all (\<lambda>x. f x = Inr True) xs"
  by (induction xs) (auto simp: sbind_Inr_iff)

text \<open>\<^verbatim>\<open>a and b\<close> where evaluating \<open>b\<close> may raise.\<close>

definition and_exn :: "exn + bool \<Rightarrow> exn + bool \<Rightarrow> exn + bool" where
  "and_exn a b = sbind a (\<lambda>x. if x then b else Inr False)"

lemma and_exn_True: "and_exn a b = Inr True \<longleftrightarrow> a = Inr True \<and> b = Inr True"
  by (auto simp: and_exn_def sbind_Inr_iff split: if_splits)

text \<open>A \<^verbatim>\<open>try\<close> block whose \<^verbatim>\<open>except\<close> clause takes the contract error of the behaviors: \<open>None\<close>
  when it was raised, other exceptions pass.\<close>

definition contract_checked :: "exn + 'a \<Rightarrow> exn + 'a option" where
  "contract_checked r = (case r of Inr x \<Rightarrow> Inr (Some x)
     | Inl (BehaviorContractError _) \<Rightarrow> Inr None | Inl e \<Rightarrow> Inl e)"

lemma contract_checked_Some: "contract_checked r = Inr (Some x) \<longleftrightarrow> r = Inr x"
  by (auto simp: contract_checked_def split: sum.splits exn.splits)

text \<open>An invariant of the state survives a chain of steps that each keep it.\<close>

lemma obind_keeps:
  assumes "P (snd r)" "\<And>x s. r = (Inr x, s) \<Longrightarrow> P (snd (f x s))"
  shows "P (snd (obind r f))"
  using assms by (auto simp: obind_def split: prod.splits sum.splits)

subsection \<open>Clamping\<close>

definition clamp :: "rat \<Rightarrow> rat \<Rightarrow> rat \<Rightarrow> rat" where
  \<comment> \<open>\<^verbatim>\<open>max(low, min(v, high))\<close>\<close>
  "clamp low high v = max low (min v high)"

lemma clamp_bounds: "low \<le> high \<Longrightarrow> low \<le> clamp low high v \<and> clamp low high v \<le> high"
  by (simp add: clamp_def)

lemma clamp_abs: "0 \<le> m \<Longrightarrow> \<bar>clamp (- m) m v\<bar> \<le> m"
  by (auto simp: clamp_def abs_le_iff)

lemma clamp_double:
  "is_double low \<Longrightarrow> is_double high \<Longrightarrow> is_double v \<Longrightarrow> is_double (clamp low high v)"
  by (auto simp: clamp_def min_def max_def)

end
