(* ===== verification/Py_Text.thy ===== *)
theory Py_Text
  imports Prelude
begin

text \<open>
  Python's text primitives as the source uses them: \<^verbatim>\<open>str.strip\<close>, \<^verbatim>\<open>str.lower\<close>, the
  \<^verbatim>\<open>fullmatch\<close> of the fixed token patterns, \<^verbatim>\<open>str(v)\<close>, and \<^verbatim>\<open>float(v)\<close> with its text
  grammar. Characters are the code points below 256.
\<close>

subsection \<open>Strings\<close>

definition ord :: "char \<Rightarrow> nat" where
  "ord c = of_char c"

definition is_space :: "char \<Rightarrow> bool" where
  "is_space c \<longleftrightarrow> (let n = ord c in 9 \<le> n \<and> n \<le> 13 \<or> 28 \<le> n \<and> n \<le> 32 \<or> n = 133 \<or> n = 160)"

definition strip :: "string \<Rightarrow> string" where
  "strip s = rev (dropWhile is_space (rev (dropWhile is_space s)))"

lemma strip_Nil [simp]: "strip [] = []"
  by (simp add: strip_def)

lemma strip_strip [simp]: "strip (strip s) = strip s"
proof (cases "strip s = []")
  case False
  let ?u = "dropWhile is_space s"
  have "rev (dropWhile is_space (rev ?u)) @ rev (takeWhile is_space (rev ?u)) = ?u"
    by (metis rev_append rev_rev_ident takeWhile_dropWhile_id)
  then have u: "?u = strip s @ rev (takeWhile is_space (rev ?u))" by (simp add: strip_def)
  then have "?u \<noteq> []" "hd ?u = hd (strip s)" using False by (metis append_is_Nil_conv, metis hd_append2)
  then have "\<not> is_space (hd (strip s))" using hd_dropWhile [of is_space s] by simp
  then have "dropWhile is_space (strip s) = strip s" using False by (simp add: dropWhile_eq_self_iff)
  then have "strip (strip s) = rev (dropWhile is_space (rev (strip s)))" by (simp add: strip_def)
  also have "\<dots> = strip s" by (simp add: strip_def)
  finally show ?thesis .
qed simp

definition lower_char :: "char \<Rightarrow> char" where
  "lower_char c = (let n = ord c in
     if 65 \<le> n \<and> n \<le> 90 \<or> 192 \<le> n \<and> n \<le> 222 \<and> n \<noteq> 215 then char_of (n + 32) else c)"

definition lower :: "string \<Rightarrow> string" where
  "lower s = map lower_char s"

definition is_digit :: "char \<Rightarrow> bool" where
  "is_digit c \<longleftrightarrow> 48 \<le> ord c \<and> ord c \<le> 57"

definition is_upper :: "char \<Rightarrow> bool" where
  "is_upper c \<longleftrightarrow> 65 \<le> ord c \<and> ord c \<le> 90"

definition is_lower :: "char \<Rightarrow> bool" where
  "is_lower c \<longleftrightarrow> 97 \<le> ord c \<and> ord c \<le> 122"

definition is_hex :: "char \<Rightarrow> bool" where
  "is_hex c \<longleftrightarrow> is_digit c \<or> 97 \<le> ord c \<and> ord c \<le> 102"

text \<open>\<^verbatim>\<open>^[A-Z][A-Z0-9_]{0,n}$\<close>, and \<^verbatim>\<open>[0-9a-f]{n}\<close>, under \<^verbatim>\<open>fullmatch\<close>.\<close>

definition is_token :: "nat \<Rightarrow> string \<Rightarrow> bool" where
  "is_token n s = (case s of [] \<Rightarrow> False
     | c # cs \<Rightarrow> is_upper c \<and> list_all (\<lambda>x. is_upper x \<or> is_digit x \<or> x = CHR ''_'') cs \<and> length cs \<le> n)"

definition is_hex_n :: "nat \<Rightarrow> string \<Rightarrow> bool" where
  "is_hex_n n s \<longleftrightarrow> length s = n \<and> list_all is_hex s"

definition is_lower_name :: "nat \<Rightarrow> string \<Rightarrow> bool" where
  \<comment> \<open>\<^verbatim>\<open>^[a-z][a-z0-9_]{0,n}$\<close>\<close>
  "is_lower_name n s = (case s of [] \<Rightarrow> False
     | c # cs \<Rightarrow> is_lower c \<and> list_all (\<lambda>x. is_lower x \<or> is_digit x \<or> x = CHR ''_'') cs \<and> length cs \<le> n)"

text \<open>\<^verbatim>\<open>name.startswith(prefix)\<close>.\<close>

fun starts_with :: "string \<Rightarrow> string \<Rightarrow> bool" where
  "starts_with [] _ = True"
| "starts_with (p # ps) s = (case s of [] \<Rightarrow> False | c # cs \<Rightarrow> c = p \<and> starts_with ps cs)"

subsection \<open>Decimal digits\<close>

definition digit_val :: "char \<Rightarrow> int" where
  "digit_val c = int (ord c) - 48"

definition digits_val :: "string \<Rightarrow> int" where
  "digits_val s = foldl (\<lambda>n c. 10 * n + digit_val c) 0 s"

function nat_text :: "int \<Rightarrow> string" where
  "nat_text n = (if n < 10 then [char_of (48 + nat n)]
                 else nat_text (n div 10) @ [char_of (48 + nat (n mod 10))])"
  by pat_completeness auto
termination
  by (relation "measure nat") auto

declare nat_text.simps [simp del]

definition int_text :: "int \<Rightarrow> string" where
  "int_text n = (if n < 0 then ''-'' @ nat_text (- n) else nat_text n)"

definition pow10 :: "int \<Rightarrow> rat" where
  "pow10 k = (if 0 \<le> k then 10 ^ nat k else 1 / 10 ^ nat (- k))"

subsection \<open>The text grammar of \<open>float\<close>\<close>

text \<open>An underscore counts only between two digits, and is then dropped.\<close>

fun drop_underscores :: "bool \<Rightarrow> string \<Rightarrow> string option" where
  "drop_underscores prev [] = Some []"
| "drop_underscores prev (c # cs) =
     (if c = CHR ''_''
      then (if prev \<and> cs \<noteq> [] \<and> is_digit (hd cs) then drop_underscores False cs else None)
      else map_option ((#) c) (drop_underscores (is_digit c) cs))"

definition parse_exponent :: "string \<Rightarrow> int option" where
  "parse_exponent s = (case s of
     [] \<Rightarrow> Some 0
   | c # cs \<Rightarrow>
      if c \<noteq> CHR ''e'' then None
      else let neg = (cs \<noteq> [] \<and> hd cs = CHR ''-'');
               ds = (if cs \<noteq> [] \<and> (hd cs = CHR ''-'' \<or> hd cs = CHR ''+'') then tl cs else cs)
           in if ds = [] \<or> \<not> list_all is_digit ds then None
              else Some (if neg then - digits_val ds else digits_val ds))"

definition parse_unsigned :: "string \<Rightarrow> pyfloat option" where
  "parse_unsigned s =
     (if s = ''inf'' \<or> s = ''infinity'' then Some PInf
      else if s = ''nan'' then Some NaN
      else let ip = takeWhile is_digit s; r = dropWhile is_digit s;
               dot = (r \<noteq> [] \<and> hd r = CHR ''.'');
               r' = (if dot then tl r else r);
               fp = (if dot then takeWhile is_digit r' else []);
               r'' = (if dot then dropWhile is_digit r' else r)
           in if ip = [] \<and> fp = [] then None
              else case parse_exponent r'' of
                     None \<Rightarrow> None
                   | Some k \<Rightarrow> Some (mk_float (of_int (digits_val (ip @ fp)) * pow10 (k - int (length fp)))))"

fun neg_float :: "pyfloat \<Rightarrow> pyfloat" where
  "neg_float (Fin q) = Fin (- q)"
| "neg_float PInf = NInf"
| "neg_float NInf = PInf"
| "neg_float NaN = NaN"

definition parse_float :: "string \<Rightarrow> pyfloat option" where
  "parse_float s = (case drop_underscores False (lower (strip s)) of
     None \<Rightarrow> None
   | Some [] \<Rightarrow> None
   | Some (c # cs) \<Rightarrow>
       if c = CHR ''-'' then map_option neg_float (parse_unsigned cs)
       else if c = CHR ''+'' then parse_unsigned cs
       else parse_unsigned (c # cs))"

subsection \<open>\<open>float(v)\<close>\<close>

definition float_of_int :: "int \<Rightarrow> exn + pyfloat" where
  "float_of_int n = (if float_big \<le> \<bar>fl (of_int n)\<bar> then Inl OverflowError else Inr (Fin (fl (of_int n))))"

fun py_float :: "pyval \<Rightarrow> exn + pyfloat" where
  "py_float VNone = Inl TypeError"
| "py_float (VBool b) = Inr (Fin (if b then 1 else 0))"
| "py_float (VInt n) = float_of_int n"
| "py_float (VFloat f) = Inr f"
| "py_float (VStr s) = (case parse_float s of None \<Rightarrow> Inl ValueError | Some f \<Rightarrow> Inr f)"
| "py_float (VList _) = Inl TypeError"
| "py_float (VDict _) = Inl TypeError"

lemma float_of_int_small: "\<bar>n\<bar> \<le> 2 ^ 53 \<Longrightarrow> float_of_int n = Inr (Fin (of_int n))"
proof -
  assume n: "\<bar>n\<bar> \<le> 2 ^ 53"
  then have "\<bar>of_int n :: rat\<bar> \<le> of_int (2 ^ 53)" by (simp only: of_int_abs [symmetric] of_int_le_iff)
  also have "\<dots> < float_big" by (simp add: float_big_def)
  finally show ?thesis using n by (simp add: float_of_int_def fl_of_int)
qed

text \<open>\<^verbatim>\<open>int(v)\<close>: truncation of a float, the decimal text of a string.\<close>

definition parse_int :: "string \<Rightarrow> int option" where
  "parse_int s =
     (let t = strip s;
          neg = (t \<noteq> [] \<and> hd t = CHR ''-'');
          ds = (if t \<noteq> [] \<and> (hd t = CHR ''-'' \<or> hd t = CHR ''+'') then tl t else t)
      in case drop_underscores False ds of
           None \<Rightarrow> None
         | Some ds \<Rightarrow> if ds = [] \<or> \<not> list_all is_digit ds then None
                      else Some (if neg then - digits_val ds else digits_val ds))"

fun py_int :: "pyval \<Rightarrow> exn + int" where
  "py_int VNone = Inl TypeError"
| "py_int (VBool b) = Inr (if b then 1 else 0)"
| "py_int (VInt n) = Inr n"
| "py_int (VFloat (Fin q)) = Inr (if 0 \<le> q then \<lfloor>q\<rfloor> else \<lceil>q\<rceil>)"
| "py_int (VFloat NaN) = Inl ValueError"
| "py_int (VFloat _) = Inl OverflowError"
| "py_int (VStr s) = (case parse_int s of None \<Rightarrow> Inl ValueError | Some n \<Rightarrow> Inr n)"
| "py_int (VList _) = Inl TypeError"
| "py_int (VDict _) = Inl TypeError"

text \<open>A value whose float, if it is one, is a double; then \<open>float(v)\<close> is a double too.\<close>

fun float_ok :: "pyval \<Rightarrow> bool" where
  "float_ok (VFloat (Fin q)) = is_double q"
| "float_ok _ = True"

lemma mk_float_double: "mk_float x = Fin q \<Longrightarrow> is_double q"
  by (auto simp: mk_float_def split: if_splits)

lemma parse_unsigned_double: "parse_unsigned s = Some (Fin q) \<Longrightarrow> is_double q"
  by (auto simp: parse_unsigned_def Let_def dest: mk_float_double split: if_splits option.splits)

lemma parse_float_double: "parse_float s = Some (Fin q) \<Longrightarrow> is_double q"
proof -
  assume s: "parse_float s = Some (Fin q)"
  have neg: "is_double q" if "neg_float f = Fin q" "parse_unsigned t = Some f" for f t
    using that parse_unsigned_double [of t] by (cases f) auto
  show ?thesis using s
    by (auto simp: parse_float_def dest: neg parse_unsigned_double
        split: option.splits list.splits if_splits)
qed

lemma py_float_double: "float_ok v \<Longrightarrow> py_float v = Inr (Fin q) \<Longrightarrow> is_double q"
  by (cases v rule: float_ok.cases)
     (auto simp: float_of_int_def dest: parse_float_double split: if_splits option.splits)

subsection \<open>\<open>str(v)\<close>\<close>

function digit_count :: "int \<Rightarrow> int" where
  "digit_count n = (if n \<le> 0 then 0 else 1 + digit_count (n div 10))"
  by pat_completeness auto
termination
  by (relation "measure nat") auto

declare digit_count.simps [simp del]

definition ilog10 :: "rat \<Rightarrow> int" where
  "ilog10 x = (if 1 \<le> x then digit_count \<lfloor>x\<rfloor> - 1 else - digit_count (\<lceil>1 / x\<rceil> - 1))"

text \<open>
  The shortest decimal that reads back as the double \<open>x > 0\<close>, the nearest one of that
  length: \<open>(m, k)\<close> stands for \<open>m * 10 ^ k\<close>. Seventeen digits always suffice.
\<close>

fun shortest_from :: "nat \<Rightarrow> nat \<Rightarrow> rat \<Rightarrow> int \<times> int" where
  "shortest_from 0 p x = (let k = ilog10 x - int p in (round_half_even (x / pow10 k), k))"
| "shortest_from (Suc n) p x =
     (let k = ilog10 x - int p; lo = \<lfloor>x / pow10 k\<rfloor>; hi = lo + 1;
          okl = (fl (of_int lo * pow10 k) = x); okh = (fl (of_int hi * pow10 k) = x)
      in if okl \<and> (\<not> okh \<or> x / pow10 k - of_int lo \<le> of_int hi - x / pow10 k) then (lo, k)
         else if okh then (hi, k)
         else shortest_from n (Suc p) x)"

definition rstrip_zeros :: "string \<Rightarrow> string" where
  "rstrip_zeros s = rev (dropWhile (\<lambda>c. c = CHR ''0'') (rev s))"

definition pos_float_text :: "rat \<Rightarrow> string" where
  "pos_float_text x =
     (let (m, k) = shortest_from 16 0 x; full = int_text m; ds = rstrip_zeros full;
          point = int (length full) + k; e = point - 1
      in if - 4 \<le> e \<and> e < 16
         then if point \<le> 0 then ''0.'' @ replicate (nat (- point)) CHR ''0'' @ ds
              else if int (length ds) \<le> point
                   then ds @ replicate (nat point - length ds) CHR ''0'' @ ''.0''
                   else take (nat point) ds @ ''.'' @ drop (nat point) ds
         else let et = nat_text \<bar>e\<bar>
              in (case ds of [] \<Rightarrow> [] | d # r \<Rightarrow> d # (if r = [] then [] else CHR ''.'' # r)) @ ''e''
                 @ (if e < 0 then ''-'' else ''+'') @ (if length et < 2 then CHR ''0'' # et else et))"

fun float_text :: "pyfloat \<Rightarrow> string" where
  "float_text (Fin q) = (if q = 0 then ''0.0''
     else if q < 0 then CHR ''-'' # pos_float_text (- q) else pos_float_text q)"
| "float_text PInf = ''inf''"
| "float_text NInf = ''-inf''"
| "float_text NaN = ''nan''"

definition hex_digit :: "nat \<Rightarrow> char" where
  "hex_digit n = (if n < 10 then char_of (48 + n) else char_of (87 + n))"

definition repr_char :: "char \<Rightarrow> char \<Rightarrow> string" where
  "repr_char q c = (let n = ord c; b = char_of (92::nat) in
     if c = q \<or> n = 92 then [b, c]
     else if n = 10 then [b, CHR ''n''] else if n = 13 then [b, CHR ''r''] else if n = 9 then [b, CHR ''t'']
     else if n < 32 \<or> 127 \<le> n \<and> n \<le> 160 \<or> n = 173
          then [b, CHR ''x'', hex_digit (n div 16), hex_digit (n mod 16)]
     else [c])"

definition repr_str :: "string \<Rightarrow> string" where
  "repr_str s = (let sq = char_of (39::nat); dq = char_of (34::nat);
                     q = (if sq \<in> set s \<and> dq \<notin> set s then dq else sq)
                 in [q] @ concat (map (repr_char q) s) @ [q])"

fun repr :: "pyval \<Rightarrow> string"
  and repr_items :: "pyval list \<Rightarrow> string"
  and repr_pairs :: "(string \<times> pyval) list \<Rightarrow> string" where
  "repr VNone = ''None''"
| "repr (VBool b) = (if b then ''True'' else ''False'')"
| "repr (VInt n) = int_text n"
| "repr (VFloat f) = float_text f"
| "repr (VStr s) = repr_str s"
| "repr (VList xs) = ''['' @ repr_items xs @ '']''"
| "repr (VDict d) = ''{'' @ repr_pairs d @ ''}''"
| "repr_items [] = []"
| "repr_items (x # xs) = repr x @ (if xs = [] then [] else '', '' @ repr_items xs)"
| "repr_pairs [] = []"
| "repr_pairs ((k, v) # d) = repr_str k @ '': '' @ repr v @ (if d = [] then [] else '', '' @ repr_pairs d)"

fun py_str :: "pyval \<Rightarrow> string" where
  "py_str (VStr s) = s"
| "py_str v = repr v"

lemma py_str_VStr [py_simps]: "py_str (VStr s) = s"
  by simp

subsection \<open>\<open>round(x, n)\<close>\<close>

definition py_round :: "nat \<Rightarrow> rat \<Rightarrow> rat" where
  "py_round n x = fl (of_int (round_half_even (x * 10 ^ n)) / 10 ^ n)"

lemma py_round_double [simp]: "is_double (py_round n x)"
  by (simp add: py_round_def)

lemma py_round_mono: "x \<le> y \<Longrightarrow> py_round n x \<le> py_round n y"
  unfolding py_round_def
  by (intro fl_mono divide_right_mono) (auto intro!: round_half_even_mono)

lemma py_round_of_int:
  assumes "\<bar>k\<bar> \<le> 2 ^ 53" shows "py_round n (of_int k) = of_int k"
proof -
  have "of_int k * 10 ^ n = (of_int (k * 10 ^ n) :: rat)" by simp
  then have "round_half_even (of_int k * 10 ^ n) = k * 10 ^ n" by (metis round_half_even_of_int)
  then show ?thesis using assms by (simp add: py_round_def fl_of_int)
qed

text \<open>Rounding to six places a second time changes nothing, below \<open>2 ^ 30\<close>.\<close>

lemma py_round_again:
  assumes "\<bar>x\<bar> \<le> 2 ^ 30"
  shows "py_round 6 (py_round 6 x) = py_round 6 x"
proof -
  define n where "n = round_half_even (x * 10 ^ 6)"
  let ?q = "of_int n / 10 ^ 6 :: rat"
  have "\<bar>x * 10 ^ 6\<bar> \<le> of_int (2 ^ 30 * 10 ^ 6)" using assms by (simp add: abs_mult)
  then have "x * 10 ^ 6 \<le> of_int (2 ^ 30 * 10 ^ 6)" "of_int (- (2 ^ 30 * 10 ^ 6)) \<le> x * 10 ^ 6" by (simp_all add: abs_le_iff)
  then have "n \<le> 2 ^ 30 * 10 ^ 6" "- (2 ^ 30 * 10 ^ 6) \<le> n" unfolding n_def
    by (metis round_half_even_mono round_half_even_of_int)+
  then have "\<bar>rat_of_int n\<bar> \<le> rat_of_int (2 ^ 30 * 10 ^ 6)"
    by (simp only: of_int_abs [symmetric] of_int_le_iff abs_le_iff) simp
  then have "\<bar>?q\<bar> \<le> 2 ^ 30" by (simp add: abs_divide)
  then have "\<bar>?q\<bar> < pow2 31" by (simp add: pow2_def)
  then have "\<bar>fl ?q - ?q\<bar> \<le> pow2 (31 - 53)" by (rule fl_near) simp
  then have near: "\<bar>fl ?q - ?q\<bar> \<le> 1 / 2 ^ 22" by (simp add: pow2_def)
  have "fl ?q * 10 ^ 6 - of_int n = (fl ?q - ?q) * 10 ^ 6" by (simp add: left_diff_distrib)
  then have "\<bar>fl ?q * 10 ^ 6 - of_int n\<bar> = \<bar>fl ?q - ?q\<bar> * 10 ^ 6" by (simp only: abs_mult) simp
  also have "\<dots> \<le> 1 / 2 ^ 22 * 10 ^ 6" by (intro mult_right_mono near) simp
  also have "\<dots> < 1 / 2" by simp
  finally have "round_half_even (fl ?q * 10 ^ 6) = n" by (rule round_half_even_near)
  then show ?thesis by (simp add: py_round_def n_def)
qed

lemma py_round_near:
  assumes "\<bar>x\<bar> \<le> 2 ^ 30"
  shows "\<bar>py_round 6 x - x\<bar> \<le> 1 / 2 ^ 20"
proof -
  define n where "n = round_half_even (x * 10 ^ 6)"
  let ?q = "of_int n / 10 ^ 6 :: rat"
  have e: "\<bar>of_int n - x * 10 ^ 6\<bar> \<le> 1 / 2" unfolding n_def by (rule round_half_even_error)
  have "?q - x = (of_int n - x * 10 ^ 6) / 10 ^ 6" by (simp add: diff_divide_distrib)
  then have "\<bar>?q - x\<bar> = \<bar>of_int n - x * 10 ^ 6\<bar> / 10 ^ 6" by (simp only: abs_divide) simp
  then have qx: "\<bar>?q - x\<bar> \<le> 1 / 2 / 10 ^ 6" using divide_right_mono [OF e, of "10 ^ 6"] by simp
  have "\<bar>q\<bar> < 2 ^ 31" if "\<bar>q - x\<bar> \<le> 1 / 2 / 10 ^ 6" for q :: rat
    using that assms by (cases "q \<le> x"; cases "0 \<le> x"; cases "0 \<le> q") auto
  from this [OF qx] have "\<bar>?q\<bar> < 2 ^ 31" .
  then have "\<bar>?q\<bar> < pow2 31" by (simp add: pow2_def)
  then have "\<bar>fl ?q - ?q\<bar> \<le> pow2 (31 - 53)" by (rule fl_near) simp
  then have "\<bar>fl ?q - ?q\<bar> \<le> 1 / 2 ^ 22" by (simp add: pow2_def)
  moreover have "\<bar>fl ?q - x\<bar> \<le> \<bar>fl ?q - ?q\<bar> + \<bar>?q - x\<bar>" by linarith
  moreover have "(1 / 2 ^ 22 + 1 / 2 / 10 ^ 6 :: rat) \<le> 1 / 2 ^ 20" by simp
  ultimately have "\<bar>fl ?q - x\<bar> \<le> 1 / 2 ^ 20" using qx by linarith
  then show ?thesis by (simp add: py_round_def n_def)
qed

end
