(* ===== verification/Bridge_Core.thy ===== *)
theory Bridge_Core
  imports Py_Text
begin

text \<open>
  The robot-side motion watchdog: \<^verbatim>\<open>Go2BridgeCore\<close> of \<^verbatim>\<open>robot_dashboard/go2_bridge.py\<close>, the
  last gate before a sport request reaches the robot, independent of the web process.

  The record \<open>bridge\<close> holds the object's attributes. \<open>bridge_init\<close> is \<^verbatim>\<open>__init__\<close>,
  \<open>bridge_accept\<close> is \<^verbatim>\<open>accept\<close> for the signed payload of one command, \<open>bridge_force_stop\<close> and
  \<open>bridge_tick\<close> the remaining mutators, \<open>bridge_snapshot\<close> the status projection. A payload
  is a decoded JSON object (\<open>pydict\<close>); times are the finite readings of the monotonic
  clock. An exception leaves the attributes that were assigned before it, so \<open>bridge_accept\<close>
  returns the state beside the exception.
\<close>

subsection \<open>Constants\<close>

definition API_STOP_MOVE :: int where "API_STOP_MOVE = 1003"

definition API_MOVE :: int where "API_MOVE = 1008"

definition SAFE_ACTION_API_IDS :: "(string \<times> int) list" where
  "SAFE_ACTION_API_IDS =
    [(''balance_stand'', 1002), (''stand_up'', 1004), (''stand_down'', 1005),
     (''recovery_stand'', 1006), (''sit'', 1009), (''rise_sit'', 1010), (''hello'', 1016),
     (''stretch'', 1017), (''content'', 1020), (''scrape'', 1029), (''heart'', 1036),
     (''static_walk'', 1061), (''economic_gait'', 1063), (''free_walk'', 2045)]"

definition SAFE_ACTION_GUARD_S :: "(string \<times> rat) list" where
  "SAFE_ACTION_GUARD_S =
    [(''balance_stand'', 3), (''stand_up'', 5), (''stand_down'', 5), (''recovery_stand'', 8),
     (''sit'', 5), (''rise_sit'', 5), (''hello'', 8), (''stretch'', 8), (''content'', 8),
     (''scrape'', 8), (''heart'', 8), (''static_walk'', 3), (''economic_gait'', 3),
     (''free_walk'', 3)]"

definition HARD_MAX_LINEAR_X :: rat where "HARD_MAX_LINEAR_X = 1"
definition HARD_MAX_LINEAR_Y :: rat where "HARD_MAX_LINEAR_Y = fl (20/100)"
definition HARD_MAX_ANGULAR_Z :: rat where "HARD_MAX_ANGULAR_Z = fl (50/100)"
definition HARD_MAX_COMMAND_TIMEOUT_S :: rat where "HARD_MAX_COMMAND_TIMEOUT_S = fl (20/100)"

definition BARE_DDS_NODE_NAME :: string where
  "BARE_DDS_NODE_NAME = ''_CREATED_BY_BARE_DDS_APP_''"

subsection \<open>Sport request writers on the ROS graph\<close>

text \<open>An endpoint's node name and namespace; \<open>None\<close> where the graph has no metadata.\<close>

record endpoint =
  node_name :: "string option"
  node_namespace :: "string option"

record publisher_counts =
  sport_publishers :: nat
  own_sport_publishers :: nat
  foreign_named_sport_publishers :: nat
  bare_unitree_sport_publishers :: nat

fun classify_sport_request_publishers :: "string \<Rightarrow> string \<Rightarrow> endpoint list \<Rightarrow> publisher_counts" where
  "classify_sport_request_publishers own_name own_ns [] =
     \<lparr>sport_publishers = 0, own_sport_publishers = 0, foreign_named_sport_publishers = 0,
      bare_unitree_sport_publishers = 0\<rparr>"
| "classify_sport_request_publishers own_name own_ns (e # es) =
     (let c = classify_sport_request_publishers own_name own_ns es;
          c = c\<lparr>sport_publishers := sport_publishers c + 1\<rparr>
      in if node_name e = Some own_name \<and> node_namespace e = Some own_ns
         then c\<lparr>own_sport_publishers := own_sport_publishers c + 1\<rparr>
         else if node_name e = Some BARE_DDS_NODE_NAME \<and> node_namespace e = Some BARE_DDS_NODE_NAME
         then c\<lparr>bare_unitree_sport_publishers := bare_unitree_sport_publishers c + 1\<rparr>
         else c\<lparr>foreign_named_sport_publishers := foreign_named_sport_publishers c + 1\<rparr>)"

subsection \<open>The bridge's attributes\<close>

record sport_request =
  api_id :: int
  parameter :: string
  reason :: string

record inhibit =
  inh_token :: string
  inh_source_id :: string
  inh_violated :: bool

record command_ack =
  ack_source_id :: string
  ack_seq :: int
  ack_type :: string
  ack_accepted_at :: rat

record bridge =
  max_linear_x :: rat
  max_linear_y :: rat
  max_angular_z :: rat
  command_timeout_s :: rat
  telemetry_timeout_s :: rat
  source_timeout_s :: rat
  expected_bare_sport_publishers :: int
  bridge_epoch :: string
  source_id :: string
  last_seq_by_source :: "(string \<times> int) list"
  last_received :: rat
  last_command_ack :: "command_ack option"
  last_drive :: rat
  target :: "rat \<times> rat \<times> rat"
  deadman :: bool
  moving :: bool
  pending_stop :: bool
  pending_action :: "(string \<times> rat) option"
  action_guard_until :: rat
  action_hold_until :: rat
  action_hold_name :: string
  last_stop :: rat
  last_error :: string
  last_request :: "sport_request option"
  observation_inhibit :: "inhibit option"
  inhibit_release_ack :: "(string \<times> string \<times> int) option"
  inhibit_status_sequence :: int

abbreviation zero3 :: "rat \<times> rat \<times> rat" where
  "zero3 \<equiv> (0, 0, 0)"

text \<open>\<^verbatim>\<open>min(a, b)\<close> and \<^verbatim>\<open>max(a, b)\<close> of the interpreter keep the first argument unless the
  second compares strictly.\<close>

definition pf_lt :: "pyfloat \<Rightarrow> pyfloat \<Rightarrow> bool" where
  "pf_lt a b \<longleftrightarrow> pf_le a b \<and> a \<noteq> b"

definition py_min :: "pyfloat \<Rightarrow> pyfloat \<Rightarrow> pyfloat" where
  "py_min a b = (if pf_lt b a then b else a)"

definition py_max :: "pyfloat \<Rightarrow> pyfloat \<Rightarrow> pyfloat" where
  "py_max a b = (if pf_lt a b then b else a)"

definition bounded_limit :: "pyval \<Rightarrow> rat \<Rightarrow> exn + rat" where
  "bounded_limit value limit =
     sbind (py_float value) (\<lambda>number.
       if \<not> is_finite number \<or> fin_val number \<le> 0 then Inl ValueError
       else Inr (min (fin_val number) limit))"

text \<open>\<^verbatim>\<open>max(low, min(float(value), high))\<close>; NaN becomes \<open>low\<close>, as \<^verbatim>\<open>max\<close> keeps its first argument.\<close>

definition clamped_option :: "rat \<Rightarrow> rat \<Rightarrow> pyval \<Rightarrow> exn + rat" where
  "clamped_option low high value =
     sbind (py_float value) (\<lambda>number. Inr (fin_val (py_max (Fin low) (py_min number (Fin high)))))"

record bridge_config =
  cfg_max_linear_x :: pyval
  cfg_max_linear_y :: pyval
  cfg_max_angular_z :: pyval
  cfg_command_timeout_s :: pyval
  cfg_telemetry_timeout_s :: pyval
  cfg_source_timeout_s :: pyval
  cfg_expected_bare :: pyval

definition bridge_init :: "bridge_config \<Rightarrow> string \<Rightarrow> exn + bridge" where
  "bridge_init cfg epoch =
     sbind (bounded_limit (cfg_max_linear_x cfg) HARD_MAX_LINEAR_X) (\<lambda>lx.
     sbind (bounded_limit (cfg_max_linear_y cfg) HARD_MAX_LINEAR_Y) (\<lambda>ly.
     sbind (bounded_limit (cfg_max_angular_z cfg) HARD_MAX_ANGULAR_Z) (\<lambda>az.
     sbind (clamped_option (fl (10/100)) HARD_MAX_COMMAND_TIMEOUT_S (cfg_command_timeout_s cfg)) (\<lambda>ct.
     sbind (clamped_option (fl (20/100)) 1 (cfg_telemetry_timeout_s cfg)) (\<lambda>tt.
     sbind (clamped_option (fl (5/10)) 5 (cfg_source_timeout_s cfg)) (\<lambda>st.
     if \<not> is_plain_int (cfg_expected_bare cfg) \<or> int_val (cfg_expected_bare cfg) < 0
        \<or> 64 < int_val (cfg_expected_bare cfg)
     then Inl ValueError
     else Inr
      \<lparr>max_linear_x = lx, max_linear_y = ly, max_angular_z = az, command_timeout_s = ct,
       telemetry_timeout_s = tt, source_timeout_s = st,
       expected_bare_sport_publishers = int_val (cfg_expected_bare cfg), bridge_epoch = epoch,
       source_id = [], last_seq_by_source = [], last_received = 0, last_command_ack = None,
       last_drive = 0, target = zero3, deadman = False, moving = False, pending_stop = True,
       pending_action = None, action_guard_until = 0, action_hold_until = 0,
       action_hold_name = [], last_stop = 0, last_error = [], last_request = None,
       observation_inhibit = None, inhibit_release_ack = None, inhibit_status_sequence = 0\<rparr>))))))"

subsection \<open>Accepting a command\<close>

record graph =
  \<comment> \<open>the counts \<^verbatim>\<open>_graph_ready\<close> checks, of any type\<close>
  g_lowstate_publishers :: pyval
  g_sport_subscribers :: pyval
  g_sport_publishers :: pyval
  g_own_sport_publishers :: pyval
  g_foreign_named_sport_publishers :: pyval
  g_bare_unitree_sport_publishers :: pyval

definition graph_ready :: "bridge \<Rightarrow> graph \<Rightarrow> bool" where
  "graph_ready b g =
     (if list_ex (\<lambda>v. \<not> is_plain_int v \<or> int_val v < 0)
           [g_lowstate_publishers g, g_sport_subscribers g, g_sport_publishers g,
            g_own_sport_publishers g, g_foreign_named_sport_publishers g,
            g_bare_unitree_sport_publishers g]
      then False
      else int_val (g_lowstate_publishers g) = 1
         \<and> int_val (g_sport_subscribers g) = 1
         \<and> int_val (g_own_sport_publishers g) = 1
         \<and> int_val (g_foreign_named_sport_publishers g) = 0
         \<and> int_val (g_bare_unitree_sport_publishers g) = expected_bare_sport_publishers b
         \<and> int_val (g_sport_publishers g)
           = int_val (g_own_sport_publishers g) + int_val (g_foreign_named_sport_publishers g)
             + int_val (g_bare_unitree_sport_publishers g))"

definition payload_source :: "pydict \<Rightarrow> exn + string" where
  "payload_source payload =
     (case dget payload ''source_id'' of
        VStr s \<Rightarrow> if 8 \<le> length s \<and> length s \<le> 128 then Inr s
                  else Inl (BridgeCommandError ''source_id is invalid'')
      | _ \<Rightarrow> Inl (BridgeCommandError ''source_id is invalid''))"

definition payload_sequence :: "pydict \<Rightarrow> exn + int" where
  "payload_sequence payload =
     (let value = dget payload ''seq''
      in if \<not> is_plain_int value \<or> int_val value < 0
         then Inl (BridgeCommandError ''command sequence is invalid'') else Inr (int_val value))"

text \<open>
  \<^verbatim>\<open>_finite\<close>: the \<^verbatim>\<open>except\<close> clause turns \<^verbatim>\<open>TypeError\<close> and \<^verbatim>\<open>ValueError\<close> into
  \<^verbatim>\<open>BridgeCommandError\<close>; \<^verbatim>\<open>OverflowError\<close>, which \<^verbatim>\<open>float\<close> raises on an integer of more than
  1024 bits, is neither and passes through.
\<close>

definition bridge_finite :: "pyval \<Rightarrow> string \<Rightarrow> exn + rat" where
  "bridge_finite value label =
     (if is_bool value then Inl (BridgeCommandError (label @ '' must be numeric''))
      else case py_float value of
             Inl e \<Rightarrow> if e = TypeError \<or> e = ValueError
                       then Inl (BridgeCommandError (label @ '' must be numeric'')) else Inl e
           | Inr number \<Rightarrow> if \<not> is_finite number
                           then Inl (BridgeCommandError (label @ '' must be finite''))
                           else Inr (fin_val number))"

definition accept_source :: "string \<Rightarrow> int \<Rightarrow> rat \<Rightarrow> string \<Rightarrow> bridge \<Rightarrow> (bridge, unit) outcome" where
  "accept_source source seq now kind b =
     (let previous_seq = (case map_of (last_seq_by_source b) source of None \<Rightarrow> - 1 | Some n \<Rightarrow> n)
      in if seq \<le> previous_seq
         then (Inl (BridgeCommandError ''replayed or out-of-order command''), b)
         else if kind \<noteq> ''stop'' \<and> source_id b \<noteq> [] \<and> source \<noteq> source_id b
                 \<and> fl (now - last_received b) \<le> source_timeout_s b
         then (Inl (BridgeCommandError ''another dashboard source owns the bridge''), b)
         else let m = dput source seq (last_seq_by_source b);
                  m = (if 16 < length m \<and> fst (hd m) \<noteq> source then tl m else m)
              in (Inr (), b\<lparr>last_seq_by_source := m, source_id := source, last_received := now\<rparr>))"

definition record_command_ack :: "string \<Rightarrow> int \<Rightarrow> string \<Rightarrow> rat \<Rightarrow> bridge \<Rightarrow> bridge" where
  "record_command_ack source seq kind now b =
     b\<lparr>last_command_ack := Some \<lparr>ack_source_id = source, ack_seq = seq, ack_type = kind,
                                 ack_accepted_at = now\<rparr>\<rparr>"

definition bridge_force_stop :: "string \<Rightarrow> bridge \<Rightarrow> bridge" where
  "bridge_force_stop why b =
     b\<lparr>observation_inhibit := map_option (\<lambda>h. h\<lparr>inh_violated := True\<rparr>) (observation_inhibit b),
       target := zero3, deadman := False, moving := False, pending_action := None,
       pending_stop := True, action_guard_until := 0, action_hold_until := 0,
       action_hold_name := [], last_error := take 160 why\<rparr>"

definition nonzero3 :: "rat \<times> rat \<times> rat \<Rightarrow> bool" where
  \<comment> \<open>\<^verbatim>\<open>any(self._target)\<close>\<close>
  "nonzero3 t = (case t of (x, y, z) \<Rightarrow> x \<noteq> 0 \<or> y \<noteq> 0 \<or> z \<noteq> 0)"

definition accept_observation_inhibit ::
  "pydict \<Rightarrow> string \<Rightarrow> int \<Rightarrow> rat \<Rightarrow> bridge \<Rightarrow> (bridge, unit) outcome" where
  "accept_observation_inhibit payload source seq now b =
     (let token = dget payload ''token''; enabled = dget payload ''enabled'';
          held = observation_inhibit b
      in if \<not> (is_str token \<and> is_hex_n 32 (str_val token) \<and> is_bool enabled)
         then (Inl (BridgeCommandError ''invalid observation inhibit''), b)
         else if held \<noteq> None \<and> (inh_token (the held) \<noteq> str_val token \<or> inh_source_id (the held) \<noteq> source)
         then (Inl (BridgeCommandError ''observation inhibit owner mismatch''), b)
         else if truthy enabled
         then (if held \<noteq> None
               then (Inl (BridgeCommandError ''observation inhibit already retained''), b)
               else if deadman b \<or> moving b \<or> nonzero3 (target b) \<or> pending_action b \<noteq> None
                       \<or> now < max (action_guard_until b) (action_hold_until b)
               then (Inl (BridgeCommandError ''bridge busy before observation''), b)
               else (Inr (), b\<lparr>observation_inhibit := Some \<lparr>inh_token = str_val token,
                                inh_source_id = source, inh_violated = False\<rparr>\<rparr>))
         else (if held = None
               then (Inl (BridgeCommandError ''observation inhibit is not owned''), b)
               else (Inr (), b\<lparr>observation_inhibit := None,
                               inhibit_release_ack := Some (str_val token, source, seq)\<rparr>)))"

definition accept_action :: "pydict \<Rightarrow> string \<Rightarrow> int \<Rightarrow> rat \<Rightarrow> bridge \<Rightarrow> (bridge, unit) outcome" where
  "accept_action payload source seq now b =
     (if now < action_hold_until b
      then (Inl (BridgeCommandError ''action safety window is still active''), b)
      else let action = dget payload ''action_id''
           in if \<not> is_str action \<or> str_val action \<notin> fst ` set SAFE_ACTION_API_IDS
              then (Inl (BridgeCommandError ''action is not allowlisted''), b)
              else let a = str_val action
                   in (Inr (), record_command_ack source seq ''action'' now
                        (b\<lparr>target := zero3, deadman := False, pending_stop := True,
                           pending_action := Some (a, fl (now + fl (10/100))),
                           action_hold_until := fl (now + the (map_of SAFE_ACTION_GUARD_S a)),
                           action_hold_name := a,
                           action_guard_until := fl (now + fl (25/100))\<rparr>)))"

definition accept_drive ::
  "pydict \<Rightarrow> string \<Rightarrow> int \<Rightarrow> rat \<Rightarrow> rat \<Rightarrow> bridge \<Rightarrow> (bridge, unit) outcome" where
  "accept_drive payload source seq now transport_age b =
     (if now < max (action_guard_until b) (action_hold_until b) then (Inr (), b)
      else if \<not> is_bool (dget payload ''deadman'')
      then (Inl (BridgeCommandError ''deadman must be boolean''), b)
      else if \<not> truthy (dget payload ''deadman'')
      then (Inr (), record_command_ack source seq ''drive'' now (bridge_force_stop ''deadman released'' b))
      else obind (lift_exn (bridge_finite (dget payload ''linear_x'') ''linear_x'') b) (\<lambda>x b.
           obind (lift_exn (bridge_finite (dget payload ''linear_y'') ''linear_y'') b) (\<lambda>y b.
           obind (lift_exn (bridge_finite (dget payload ''angular_z'') ''angular_z'') b) (\<lambda>z b.
             (Inr (), record_command_ack source seq ''drive'' now
               (b\<lparr>target := (clamp (- max_linear_x b) (max_linear_x b) x,
                            clamp (- max_linear_y b) (max_linear_y b) y,
                            clamp (- max_angular_z b) (max_angular_z b) z),
                  deadman := True, last_drive := fl (now - transport_age),
                  pending_action := None, action_guard_until := 0\<rparr>))))))"

text \<open>\<^verbatim>\<open>accept\<close>: the checks up to \<^verbatim>\<open>_accept_source\<close>, then the dispatch on the command's type.\<close>

definition accept_dispatch ::
  "string \<Rightarrow> pydict \<Rightarrow> string \<Rightarrow> int \<Rightarrow> rat \<Rightarrow> rat \<Rightarrow> bridge \<Rightarrow> (bridge, unit) outcome" where
  "accept_dispatch kind payload source seq now transport_age b =
     (let b = b\<lparr>last_error := []\<rparr>
      in if kind = ''observation_inhibit'' then accept_observation_inhibit payload source seq now b
      else if observation_inhibit b \<noteq> None \<and> kind \<noteq> ''stop''
      then (Inl (BridgeCommandError ''motion command blocked by observation inhibit''),
            b\<lparr>observation_inhibit := map_option (\<lambda>h. h\<lparr>inh_violated := True\<rparr>) (observation_inhibit b)\<rparr>)
      else if kind = ''stop''
      then (Inr (), record_command_ack source seq ''stop'' now
              (bridge_force_stop (py_str (dget_or payload ''reason'' (VStr ''dashboard stop''))) b))
      else if kind = ''action'' then accept_action payload source seq now b
      else accept_drive payload source seq now transport_age b)"

definition bridge_accept :: "pydict \<Rightarrow> rat \<Rightarrow> pyval \<Rightarrow> bridge \<Rightarrow> (bridge, unit) outcome" where
  "bridge_accept payload now transport_age_s b =
     obind (lift_exn (in_str_set (dget payload ''type'')
              [''drive'', ''stop'', ''action'', ''observation_inhibit'']) b) (\<lambda>known b.
     if \<not> known then (Inl (BridgeCommandError ''unknown bridge command''), b)
     else let kind = str_val (dget payload ''type'')
     in if \<not> is_str (dget payload ''bridge_epoch'') \<or> str_val (dget payload ''bridge_epoch'') \<noteq> bridge_epoch b
     then (Inl (BridgeCommandError ''bridge epoch does not match''), b)
     else
     obind (lift_exn (payload_source payload) b) (\<lambda>source b.
     obind (lift_exn (payload_sequence payload) b) (\<lambda>seq b.
     obind (lift_exn (bridge_finite transport_age_s ''transport_age_s'') b) (\<lambda>transport_age b.
     if transport_age < 0
     then (Inl (BridgeCommandError ''transport_age_s must not be negative''), b)
     else if kind \<noteq> ''stop'' \<and> command_timeout_s b < transport_age
     then (Inl (BridgeCommandError ''bridge command exceeded its transport deadline''), b)
     else
     obind (accept_source source seq now kind b) (\<lambda>_ b.
     accept_dispatch kind payload source seq now transport_age b)))))"

subsection \<open>The 50 ms tick\<close>

definition quoted :: "string \<Rightarrow> string" where
  "quoted s = [char_of (34::nat)] @ s @ [char_of (34::nat)]"

definition move_parameter :: "rat \<times> rat \<times> rat \<Rightarrow> string" where
  \<comment> \<open>\<^verbatim>\<open>json.dumps\<close> of the three axes with compact separators\<close>
  "move_parameter t = (case t of (x, y, z) \<Rightarrow>
     ''{'' @ quoted ''x'' @ '':'' @ float_text (Fin x) @ '','' @ quoted ''y'' @ '':'' @ float_text (Fin y)
     @ '','' @ quoted ''z'' @ '':'' @ float_text (Fin z) @ ''}'')"

definition move_request :: "rat \<times> rat \<times> rat \<Rightarrow> sport_request" where
  "move_request t = \<lparr>api_id = API_MOVE, parameter = move_parameter t, reason = ''fresh deadman command''\<rparr>"

definition stop_request :: "string \<Rightarrow> sport_request" where
  "stop_request why = \<lparr>api_id = API_STOP_MOVE, parameter = [], reason = why\<rparr>"

definition action_request :: "string \<Rightarrow> sport_request" where
  "action_request a = \<lparr>api_id = the (map_of SAFE_ACTION_API_IDS a), parameter = [],
                       reason = ''allowlisted action: '' @ a\<rparr>"

definition telemetry_fresh :: "bridge \<Rightarrow> pyfloat option \<Rightarrow> bool" where
  "telemetry_fresh b age = (case age of None \<Rightarrow> False
     | Some a \<Rightarrow> is_finite a \<and> 0 \<le> fin_val a \<and> fin_val a \<le> telemetry_timeout_s b)"

definition bridge_ready :: "bridge \<Rightarrow> pyfloat option \<Rightarrow> graph \<Rightarrow> bool" where
  "bridge_ready b age g \<longleftrightarrow> telemetry_fresh b age \<and> graph_ready b g"

text \<open>The stages of one tick, in the source's order.\<close>

definition tick_gate :: "rat \<Rightarrow> bool \<Rightarrow> bridge \<Rightarrow> bridge" where
  \<comment> \<open>readiness loss: mark the inhibit, drop an accepted drive, abort an action hold\<close>
  "tick_gate now ready b =
     (let b = (if \<not> ready then b\<lparr>observation_inhibit :=
                 map_option (\<lambda>h. h\<lparr>inh_violated := True\<rparr>) (observation_inhibit b)\<rparr> else b);
          b = (if \<not> ready \<and> (deadman b \<or> nonzero3 (target b))
               then bridge_force_stop ''telemetry unavailable'' b else b)
      in if now < action_hold_until b \<and> \<not> ready
         then bridge_force_stop ''telemetry unavailable during action'' b else b)"

definition tick_pending_stop :: "rat \<Rightarrow> bridge \<Rightarrow> sport_request list \<times> bridge" where
  "tick_pending_stop now b =
     (if pending_stop b
      then ([stop_request (if last_error b = [] then ''stop'' else last_error b)],
            b\<lparr>pending_stop := False, last_stop := now\<rparr>)
      else ([], b))"

definition command_fresh :: "rat \<Rightarrow> bridge \<Rightarrow> bool" where
  "command_fresh now b \<longleftrightarrow> deadman b
     \<and> fl (now - last_drive b) \<le> command_timeout_s b
     \<and> fl (now - last_received b) \<le> source_timeout_s b"

definition tick_motion :: "rat \<Rightarrow> bool \<Rightarrow> sport_request list \<Rightarrow> bridge \<Rightarrow> sport_request list \<times> bridge" where
  "tick_motion now ready requests b =
     (if now < action_hold_until b then (requests, b)
      else if ready \<and> command_fresh now b
      then (requests @ [move_request (target b)],
            b\<lparr>moving := (case target b of (x, y, z) \<Rightarrow>
                 fl (1/1000000) < \<bar>x\<bar> \<or> fl (1/1000000) < \<bar>y\<bar> \<or> fl (1/1000000) < \<bar>z\<bar>),
              last_request := Some (move_request (target b))\<rparr>)
      else if moving b \<or> fl (5/10) \<le> fl (now - last_stop b)
      then let r = stop_request (if \<not> ready then ''telemetry unavailable'' else ''command watchdog'')
           in (requests @ [r], b\<lparr>moving := False, deadman := False, target := zero3,
                                 last_stop := now, last_request := Some r\<rparr>)
      else (requests, b))"

definition tick_action :: "rat \<Rightarrow> bool \<Rightarrow> sport_request list \<times> bridge \<Rightarrow> sport_request list \<times> bridge" where
  "tick_action now ready rb =
     (case rb of (requests, b) \<Rightarrow>
       (case pending_action b of
          Some (a, due_at) \<Rightarrow>
            if \<not> ready
            then tick_motion now ready requests
                   (bridge_force_stop ''bridge unavailable before action'' (b\<lparr>pending_action := None\<rparr>))
            else if due_at \<le> now
            then (requests @ [action_request a],
                  b\<lparr>pending_action := None, last_request := Some (action_request a)\<rparr>)
            else tick_motion now ready requests b
        | None \<Rightarrow> tick_motion now ready requests b))"

definition bridge_tick :: "rat \<Rightarrow> pyfloat option \<Rightarrow> graph \<Rightarrow> bridge \<Rightarrow> sport_request list \<times> bridge" where
  "bridge_tick now age g b =
     (let ready = bridge_ready b age g
      in tick_action now ready (tick_pending_stop now (tick_gate now ready b)))"


subsection \<open>The status projection\<close>

text \<open>\<^verbatim>\<open>round(x * 1000)\<close> of a duration in seconds.\<close>

definition millis :: "rat \<Rightarrow> int" where
  "millis x = round_half_even (fl (x * 1000))"

record bridge_status =
  st_inhibit_sequence :: int
  st_inhibit_token :: "string option"
  st_inhibit_source :: "string option"
  st_inhibit_violated :: bool
  st_release_ack :: "(string \<times> string \<times> int) option"
  st_ready :: bool
  st_state :: string
  st_bridge_epoch :: string
  st_lowstate_age_ms :: "int option"
  st_command_age_ms :: "int option"
  st_accepted_deadman :: bool
  st_accepted_target :: "rat \<times> rat \<times> rat"
  st_command_ack :: "(string \<times> int \<times> string \<times> int) option"
  st_last_error :: string
  st_action_active :: bool
  st_action :: "string option"
  st_action_remaining_ms :: int
  st_limits :: "rat \<times> rat \<times> rat \<times> int"

text \<open>
  The telemetry age is a finite reading or absent here; the six graph counts are echoed
  by the source and left out.
\<close>

definition bridge_snapshot :: "rat \<Rightarrow> rat option \<Rightarrow> graph \<Rightarrow> bridge \<Rightarrow> bridge_status \<times> bridge" where
  "bridge_snapshot now age g b =
     (let ready = bridge_ready b (map_option Fin age) g;
          command_age = (if last_drive b = 0 then None else Some (max 0 (fl (now - last_drive b))));
          ack = map_option (\<lambda>a. (ack_source_id a, ack_seq a, ack_type a,
                  min 2147483647 (max 0 (millis (fl (now - ack_accepted_at a)))))) (last_command_ack b);
          action_remaining = max 0 (fl (action_hold_until b - now));
          b = b\<lparr>inhibit_status_sequence := inhibit_status_sequence b + 1\<rparr>
      in (\<lparr>st_inhibit_sequence = inhibit_status_sequence b,
           st_inhibit_token = map_option inh_token (observation_inhibit b),
           st_inhibit_source = map_option inh_source_id (observation_inhibit b),
           st_inhibit_violated = (case observation_inhibit b of None \<Rightarrow> False | Some h \<Rightarrow> inh_violated h),
           st_release_ack = inhibit_release_ack b,
           st_ready = (ready \<and> action_remaining \<le> 0),
           st_state = (if 0 < action_remaining then ''action'' else if moving b then ''moving''
                       else if ready then ''idle'' else ''unavailable''),
           st_bridge_epoch = bridge_epoch b,
           st_lowstate_age_ms = map_option millis age,
           st_command_age_ms = map_option millis command_age,
           st_accepted_deadman = deadman b,
           st_accepted_target = target b,
           st_command_ack = ack,
           st_last_error = last_error b,
           st_action_active = (0 < action_remaining),
           st_action = (if action_hold_name b = [] then None else Some (action_hold_name b)),
           st_action_remaining_ms = millis action_remaining,
           st_limits = (max_linear_x b, max_linear_y b, max_angular_z b, millis (command_timeout_s b))\<rparr>,
          b))"

end
