(* ===== verification/Latch.thy ===== *)
theory Latch
  imports Prelude
begin

text \<open>
  The contract the safety gates of the system share. A gate is a machine that turns
  events (commands, clock ticks, readiness reports) into outputs. While its latch is
  \<open>held\<close> (a software stop, an observation inhibit, a retired authority, a released
  deadman), no event but one that \<open>opens\<close> it may produce a \<open>motion\<close> output. The laws speak
  of one step; the lemmas speak of every run. \<open>machine\<close> is the part without a latch: a
  step function and an invariant it keeps.
\<close>

fun run :: "('s \<Rightarrow> 'e \<Rightarrow> 's \<times> 'o list) \<Rightarrow> 's \<Rightarrow> 'e list \<Rightarrow> 's \<times> 'o list" where
  "run step s [] = (s, [])"
| "run step s (e # es) =
     (fst (run step (fst (step s e)) es), snd (step s e) @ snd (run step (fst (step s e)) es))"

text \<open>\<open>shut step opens s es\<close>: along the run of \<open>es\<close> from \<open>s\<close>, no event opens the latch.\<close>

fun shut :: "('s \<Rightarrow> 'e \<Rightarrow> 's \<times> 'o list) \<Rightarrow> ('s \<Rightarrow> 'e \<Rightarrow> bool) \<Rightarrow> 's \<Rightarrow> 'e list \<Rightarrow> bool" where
  "shut step opens s [] = True"
| "shut step opens s (e # es) = (\<not> opens s e \<and> shut step opens (fst (step s e)) es)"

lemma run_append:
  "run step s (xs @ ys) =
    (fst (run step (fst (run step s xs)) ys),
     snd (run step s xs) @ snd (run step (fst (run step s xs)) ys))"
  by (induction xs arbitrary: s) auto

lemma shut_append:
  "shut step opens s (xs @ ys) \<longleftrightarrow> shut step opens s xs \<and> shut step opens (fst (run step s xs)) ys"
  by (induction xs arbitrary: s) auto

locale machine =
  fixes step :: "'s \<Rightarrow> 'e \<Rightarrow> 's \<times> 'o list"
    and inv :: "'s \<Rightarrow> bool"
  assumes inv_step: "inv s \<Longrightarrow> inv (fst (step s e))"
begin

lemma inv_run: "inv s \<Longrightarrow> inv (fst (run step s es))"
  by (induction es arbitrary: s) (auto intro: inv_step)

end

locale latch = machine step inv
  for step :: "'s \<Rightarrow> 'e \<Rightarrow> 's \<times> 'o list" and inv :: "'s \<Rightarrow> bool" +
  fixes held :: "'s \<Rightarrow> bool"
    and opens :: "'s \<Rightarrow> 'e \<Rightarrow> bool"
    and motion :: "'o \<Rightarrow> bool"
  assumes held_step: "inv s \<Longrightarrow> held s \<Longrightarrow> \<not> opens s e \<Longrightarrow> held (fst (step s e))"
    and held_quiet: "inv s \<Longrightarrow> held s \<Longrightarrow> \<not> opens s e \<Longrightarrow> list_all (\<lambda>x. \<not> motion x) (snd (step s e))"
begin

lemma held_run:
  assumes "inv s" "held s" "shut step opens s es"
  shows "held (fst (run step s es)) \<and> list_all (\<lambda>x. \<not> motion x) (snd (run step s es))"
  using assms
proof (induction es arbitrary: s)
  case Nil
  then show ?case by simp
next
  case (Cons e es)
  let ?t = "fst (step s e)"
  from Cons.prems have "\<not> opens s e" "shut step opens ?t es" by auto
  with Cons.prems have "inv ?t" "held ?t" "list_all (\<lambda>x. \<not> motion x) (snd (step s e))"
    by (auto intro: inv_step held_step held_quiet)
  with Cons.IH [of ?t] \<open>shut step opens ?t es\<close> show ?case
    by simp
qed

lemma quiet_run:
  "inv s \<Longrightarrow> held s \<Longrightarrow> shut step opens s es \<Longrightarrow> x \<in> set (snd (run step s es)) \<Longrightarrow> \<not> motion x"
  using held_run [of s es] by (auto simp: list_all_iff)

text \<open>A motion output of a run that starts held has an opening event before it.\<close>

lemma motion_needs_opening:
  assumes "inv s" "held s" "x \<in> set (snd (run step s es))" "motion x"
  shows "\<exists>pre e post. es = pre @ e # post \<and> shut step opens s pre \<and> opens (fst (run step s pre)) e"
  using assms
proof (induction es arbitrary: s)
  case Nil
  then show ?case by simp
next
  case (Cons e es)
  show ?case
  proof (cases "opens s e")
    case True
    then show ?thesis by (intro exI [of _ "[]"] exI [of _ e] exI [of _ es]) simp
  next
    case False
    let ?t = "fst (step s e)"
    have t: "inv ?t" "held ?t" using Cons.prems False by (auto intro: inv_step held_step)
    have "list_all (\<lambda>x. \<not> motion x) (snd (step s e))" using Cons.prems False by (auto intro: held_quiet)
    with Cons.prems have "x \<in> set (snd (run step ?t es))"
      by (auto simp: list_all_iff)
    from Cons.IH [OF t this Cons.prems(4)] obtain pre e' post where
      "es = pre @ e' # post" "shut step opens ?t pre" "opens (fst (run step ?t pre)) e'" by blast
    with False show ?thesis
      by (intro exI [of _ "e # pre"] exI [of _ e'] exI [of _ post])
         auto
  qed
qed

end

end
