(* ===== verification/Bridge_Safety.thy ===== *)
theory Bridge_Safety
  imports Bridge_Core Latch
begin

text \<open>
  What the bridge promises: its invariant, the evidence every motion request rests on, the
  watchdog, the observation inhibit, the replay gate, and the exception that escapes
  \<^verbatim>\<open>_finite\<close>.
\<close>

subsection \<open>The invariant\<close>

definition limits_ok :: "bridge \<Rightarrow> bool" where
  "limits_ok b \<longleftrightarrow>
     0 < max_linear_x b \<and> max_linear_x b \<le> HARD_MAX_LINEAR_X
     \<and> 0 < max_linear_y b \<and> max_linear_y b \<le> HARD_MAX_LINEAR_Y
     \<and> 0 < max_angular_z b \<and> max_angular_z b \<le> HARD_MAX_ANGULAR_Z
     \<and> fl (10/100) \<le> command_timeout_s b \<and> command_timeout_s b \<le> HARD_MAX_COMMAND_TIMEOUT_S"

definition within_limits :: "bridge \<Rightarrow> rat \<times> rat \<times> rat \<Rightarrow> bool" where
  "within_limits b t = (case t of (x, y, z) \<Rightarrow>
     \<bar>x\<bar> \<le> max_linear_x b \<and> \<bar>y\<bar> \<le> max_linear_y b \<and> \<bar>z\<bar> \<le> max_angular_z b)"

definition seqs_ok :: "bridge \<Rightarrow> bool" where
  "seqs_ok b \<longleftrightarrow> length (last_seq_by_source b) \<le> 16 \<and> distinct (map fst (last_seq_by_source b))"

definition inhibit_ok :: "bridge \<Rightarrow> bool" where
  "inhibit_ok b \<longleftrightarrow>
     (observation_inhibit b \<noteq> None \<longrightarrow> \<not> deadman b \<and> \<not> moving b \<and> pending_action b = None)"

definition target_ok :: "bridge \<Rightarrow> bool" where
  "target_ok b \<longleftrightarrow> within_limits b (target b) \<and> (\<not> deadman b \<longrightarrow> target b = zero3)"

definition action_ok :: "bridge \<Rightarrow> bool" where
  "action_ok b \<longleftrightarrow> (\<forall>a d. pending_action b = Some (a, d) \<longrightarrow> a \<in> fst ` set SAFE_ACTION_API_IDS)"

definition bridge_inv :: "bridge \<Rightarrow> bool" where
  "bridge_inv b \<longleftrightarrow> limits_ok b \<and> target_ok b \<and> seqs_ok b \<and> inhibit_ok b \<and> action_ok b"

lemmas bridge_inv_defs =
  bridge_inv_def limits_ok_def within_limits_def target_ok_def seqs_ok_def inhibit_ok_def
  action_ok_def

lemma force_stop_inv [inv_intro]: "bridge_inv b \<Longrightarrow> bridge_inv (bridge_force_stop why b)"
  by (auto simp: bridge_inv_defs bridge_force_stop_def)

lemma tick_gate_inv [inv_intro]: "bridge_inv b \<Longrightarrow> bridge_inv (tick_gate now ready b)"
  by (auto simp: bridge_inv_defs tick_gate_def bridge_force_stop_def Let_def)

lemma tick_pending_stop_inv [inv_intro]: "bridge_inv b \<Longrightarrow> bridge_inv (snd (tick_pending_stop now b))"
  by (auto simp: bridge_inv_defs tick_pending_stop_def)

lemma tick_motion_inv [inv_intro]: "bridge_inv b \<Longrightarrow> bridge_inv (snd (tick_motion now ready rs b))"
  by (auto simp: bridge_inv_defs tick_motion_def command_fresh_def Let_def)

lemma pending_action_cleared_inv [inv_intro]:
  "bridge_inv b \<Longrightarrow> bridge_inv (b\<lparr>pending_action := None\<rparr>)"
  "bridge_inv b \<Longrightarrow> bridge_inv (b\<lparr>pending_action := None, last_request := r\<rparr>)"
  by (auto simp: bridge_inv_defs)

lemma tick_action_inv [inv_intro]:
  "bridge_inv (snd rb) \<Longrightarrow> bridge_inv (snd (tick_action now ready rb))"
  by (auto simp: tick_action_def split: prod.splits option.splits
      intro!: tick_motion_inv force_stop_inv pending_action_cleared_inv)

lemma bridge_tick_inv [inv_intro]: "bridge_inv b \<Longrightarrow> bridge_inv (snd (bridge_tick now age g b))"
  by (simp add: bridge_tick_def Let_def tick_action_inv tick_pending_stop_inv tick_gate_inv)

text \<open>Accepting a command: one lemma per branch.\<close>

lemma seqs_update:
  fixes k :: string and v :: int and m :: "(string \<times> int) list"
  assumes "length m \<le> 16" "distinct (map fst m)"
  defines "m' \<equiv> dput k v m"
  shows "length (if 16 < length m' \<and> fst (hd m') \<noteq> k then tl m' else m') \<le> 16
    \<and> distinct (map fst (if 16 < length m' \<and> fst (hd m') \<noteq> k then tl m' else m'))"
proof -
  have d: "distinct (map fst m')" using assms by (simp add: distinct_dput)
  have hd: "fst (hd m') \<noteq> k" if "16 < length m'"
  proof -
    from that assms(1) have "k \<notin> fst ` set m" by (auto simp: m'_def length_dput split: if_splits)
    moreover from this have "m \<noteq> []" using that by (auto simp: m'_def)
    ultimately show ?thesis by (cases m) (auto simp: m'_def)
  qed
  have "length m' \<le> 17" using assms(1) by (auto simp: m'_def length_dput)
  with d hd show ?thesis by (auto simp: map_tl distinct_tl)
qed

lemma accept_source_inv [inv_intro]:
  "bridge_inv b \<Longrightarrow> bridge_inv (snd (accept_source source seq now kind b))"
  using seqs_update [of "last_seq_by_source b" source seq]
  by (auto simp: accept_source_def Let_def bridge_inv_defs)

lemma record_command_ack_inv [inv_intro]:
  "bridge_inv b \<Longrightarrow> bridge_inv (record_command_ack source seq kind now b)"
  by (auto simp: record_command_ack_def bridge_inv_defs)

lemma last_error_inv [inv_intro]: "bridge_inv b \<Longrightarrow> bridge_inv (b\<lparr>last_error := e\<rparr>)"
  by (auto simp: bridge_inv_defs)

lemma accept_observation_inhibit_inv [inv_intro]:
  "bridge_inv b \<Longrightarrow> bridge_inv (snd (accept_observation_inhibit payload source seq now b))"
  by (auto simp: accept_observation_inhibit_def Let_def bridge_inv_defs)

lemma accept_action_inv [inv_intro]:
  assumes "bridge_inv b" "observation_inhibit b = None"
  shows "bridge_inv (snd (accept_action payload source seq now b))"
  using assms
  by (auto simp: accept_action_def record_command_ack_def Let_def bridge_inv_defs)

lemma accept_drive_inv [inv_intro]:
  assumes "bridge_inv b" "observation_inhibit b = None"
  shows "bridge_inv (snd (accept_drive payload source seq now age b))"
  using assms
  by (auto simp: accept_drive_def record_command_ack_inv force_stop_inv obind_def
      split: sum.splits prod.splits if_splits)
     (auto simp: record_command_ack_def bridge_inv_defs intro!: clamp_abs)

lemma bridge_inv_violated [inv_intro]:
  "bridge_inv b \<Longrightarrow> bridge_inv (b\<lparr>observation_inhibit := map_option f (observation_inhibit b)\<rparr>)"
  by (auto simp: bridge_inv_defs)

lemma bridge_inv_blocked [inv_intro]:
  "bridge_inv b \<Longrightarrow> observation_inhibit b = Some y
    \<Longrightarrow> bridge_inv (b\<lparr>last_error := e, observation_inhibit := Some y'\<rparr>)"
  by (auto simp: bridge_inv_defs)

lemma accept_dispatch_inv [inv_intro]:
  "bridge_inv b \<Longrightarrow> bridge_inv (snd (accept_dispatch kind payload source seq now age b))"
  by (auto simp: accept_dispatch_def Let_def
      intro!: accept_observation_inhibit_inv accept_action_inv accept_drive_inv bridge_inv_blocked
        record_command_ack_inv force_stop_inv last_error_inv)

text \<open>A command is rejected before it touches the state, or its source has been accepted and
  the dispatch decides.\<close>

lemma accept_cases:
  obtains (rejected) e where "bridge_accept payload now age b = (Inl e, b)"
  | (dispatched) kind source seq tage s where
      "dget payload ''type'' = VStr kind"
      "kind \<in> {''drive'', ''stop'', ''action'', ''observation_inhibit''}"
      "dget payload ''bridge_epoch'' = VStr (bridge_epoch b)"
      "payload_source payload = Inr source" "payload_sequence payload = Inr seq"
      "bridge_finite age ''transport_age_s'' = Inr tage" "0 \<le> tage"
      "kind \<noteq> ''stop'' \<longrightarrow> tage \<le> command_timeout_s b"
      "accept_source source seq now kind b = (Inr (), s)"
      "bridge_accept payload now age b = accept_dispatch kind payload source seq now tage s"
proof (cases "\<exists>e. bridge_accept payload now age b = (Inl e, b)")
  case True
  then show ?thesis using rejected by blast
next
  case False
  obtain known where known: "in_str_set (dget payload ''type'')
      [''drive'', ''stop'', ''action'', ''observation_inhibit''] = Inr known" "known"
    using False by (cases "in_str_set (dget payload ''type'')
      [''drive'', ''stop'', ''action'', ''observation_inhibit'']")
      (auto simp: bridge_accept_def split: if_splits)
  then obtain kind where kind: "dget payload ''type'' = VStr kind"
      "kind \<in> {''drive'', ''stop'', ''action'', ''observation_inhibit''}"
    by (auto simp: in_str_set_def is_str_iff split: if_splits)
  obtain ep where ep: "dget payload ''bridge_epoch'' = VStr (bridge_epoch b)"
    using False known kind by (auto simp: bridge_accept_def is_str_iff split: if_splits)
  obtain source where source: "payload_source payload = Inr source"
    using False known kind ep by (cases "payload_source payload") (auto simp: bridge_accept_def)
  obtain seq where seq: "payload_sequence payload = Inr seq"
    using False known kind ep source by (cases "payload_sequence payload") (auto simp: bridge_accept_def)
  obtain tage where tage: "bridge_finite age ''transport_age_s'' = Inr tage"
    using False known kind ep source seq
    by (cases "bridge_finite age ''transport_age_s''") (auto simp: bridge_accept_def)
  have age: "0 \<le> tage" "kind \<noteq> ''stop'' \<longrightarrow> tage \<le> command_timeout_s b"
    using False known kind ep source seq tage
    by (auto simp: bridge_accept_def split: if_splits)
  have "accept_source source seq now kind b = (Inr (), snd (accept_source source seq now kind b))"
    using False known kind ep source seq tage age
    by (auto simp: bridge_accept_def accept_source_def Let_def split: if_splits)
  then obtain s where s: "accept_source source seq now kind b = (Inr (), s)" by metis
  show ?thesis
    by (rule dispatched [OF kind ep source seq tage age s])
      (use known kind ep source seq tage age s in \<open>auto simp: bridge_accept_def\<close>)
qed

lemma accept_inv [inv_intro]:
  assumes "bridge_inv b"
  shows "bridge_inv (snd (bridge_accept payload now age b))"
proof (cases rule: accept_cases [of payload now age b])
  case rejected
  with assms show ?thesis by simp
next
  case (dispatched kind source seq tage s)
  with accept_source_inv [OF assms, of source seq now kind] show ?thesis
    by (simp add: accept_dispatch_inv)
qed

lemma clamped_option_bounds:
  assumes "low \<le> high" "clamped_option low high v = Inr r"
  shows "low \<le> r \<and> r \<le> high"
proof -
  from assms(2) obtain f where "r = fin_val (py_max (Fin low) (py_min f (Fin high)))"
    by (auto simp: clamped_option_def sbind_Inr_iff)
  with assms(1) show ?thesis
    by (cases f) (auto simp: py_max_def py_min_def pf_lt_def)
qed

lemma hard_limits_pos: "0 < HARD_MAX_LINEAR_X" "0 < HARD_MAX_LINEAR_Y" "0 < HARD_MAX_ANGULAR_Z"
  using fl_ge_eighth [of "20/100"] fl_ge_eighth [of "50/100"]
  by (auto simp: HARD_MAX_LINEAR_X_def HARD_MAX_LINEAR_Y_def HARD_MAX_ANGULAR_Z_def)

lemma bounded_limit_bounds:
  "0 < limit \<Longrightarrow> bounded_limit v limit = Inr r \<Longrightarrow> 0 < r \<and> r \<le> limit"
  by (auto simp: bounded_limit_def sbind_Inr_iff split: if_splits)

lemma init_inv:
  assumes "bridge_init cfg epoch = Inr b"
  shows "bridge_inv b"
proof -
  have ct: "fl (1/10) \<le> HARD_MAX_COMMAND_TIMEOUT_S"
    by (simp add: HARD_MAX_COMMAND_TIMEOUT_S_def fl_mono)
  from assms show ?thesis
    unfolding bridge_init_def
    by (auto simp: sbind_Inr_iff bridge_inv_defs hard_limits_pos
        dest!: bounded_limit_bounds [OF hard_limits_pos(1)] bounded_limit_bounds [OF hard_limits_pos(2)]
          bounded_limit_bounds [OF hard_limits_pos(3)] clamped_option_bounds [OF ct]
        split: if_splits)
qed


subsection \<open>Events and runs\<close>

datatype bridge_event =
    Command pydict rat pyval
  | Tick rat "pyfloat option" graph
  | ForceStop string

fun bridge_step :: "bridge \<Rightarrow> bridge_event \<Rightarrow> bridge \<times> sport_request list" where
  "bridge_step b (Command payload now age) = (snd (bridge_accept payload now age b), [])"
| "bridge_step b (Tick now age g) = (snd (bridge_tick now age g b), fst (bridge_tick now age g b))"
| "bridge_step b (ForceStop why) = (bridge_force_stop why b, [])"

definition is_move :: "sport_request \<Rightarrow> bool" where
  "is_move r \<longleftrightarrow> api_id r = API_MOVE"

definition accepted :: "string \<Rightarrow> bridge \<Rightarrow> bridge_event \<Rightarrow> bool" where
  \<comment> \<open>the event is a command of this type that \<^verbatim>\<open>accept\<close> takes without an exception\<close>
  "accepted kind b e = (case e of
     Command payload now age \<Rightarrow> dget payload ''type'' = VStr kind \<and> fst (bridge_accept payload now age b) = Inr ()
   | _ \<Rightarrow> False)"

lemma step_inv [inv_intro]: "bridge_inv b \<Longrightarrow> bridge_inv (fst (bridge_step b e))"
  by (cases e) (simp_all add: accept_inv bridge_tick_inv force_stop_inv)

interpretation bridge: machine bridge_step bridge_inv
  by unfold_locales (rule step_inv)

subsection \<open>What a tick sends\<close>

lemma action_api:
  assumes "a \<in> fst ` set SAFE_ACTION_API_IDS"
  shows "api_id (action_request a) \<noteq> API_MOVE" "api_id (action_request a) \<noteq> API_STOP_MOVE"
  using assms
  by (auto simp: action_request_def SAFE_ACTION_API_IDS_def API_MOVE_def API_STOP_MOVE_def)

lemma stop_not_move [simp]: "\<not> is_move (stop_request why)"
  by (simp add: is_move_def stop_request_def API_MOVE_def API_STOP_MOVE_def)

lemma move_is_move [simp]: "is_move (move_request t)"
  by (simp add: is_move_def move_request_def)

lemma stop_api [simp]: "api_id (stop_request why) = API_STOP_MOVE"
  by (simp add: stop_request_def)

lemma tick_gate_ready [simp]: "tick_gate now True b = b"
  by (simp add: tick_gate_def)

lemma tick_gate_unready:
  "bridge_inv b \<Longrightarrow> deadman (tick_gate now False b) = False \<and> target (tick_gate now False b) = zero3"
  by (auto simp: tick_gate_def Let_def bridge_force_stop_def bridge_inv_defs nonzero3_def)

lemma tick_pending_stop_cases:
  "tick_pending_stop now b = (if pending_stop b
     then ([stop_request (if last_error b = [] then ''stop'' else last_error b)],
           b\<lparr>pending_stop := False, last_stop := now\<rparr>) else ([], b))"
  by (simp add: tick_pending_stop_def)

lemma tick_pending_stop_keeps [simp]:
  "deadman (snd (tick_pending_stop now b)) = deadman b"
  "target (snd (tick_pending_stop now b)) = target b"
  "moving (snd (tick_pending_stop now b)) = moving b"
  "last_drive (snd (tick_pending_stop now b)) = last_drive b"
  "last_received (snd (tick_pending_stop now b)) = last_received b"
  "pending_action (snd (tick_pending_stop now b)) = pending_action b"
  "action_hold_until (snd (tick_pending_stop now b)) = action_hold_until b"
  "observation_inhibit (snd (tick_pending_stop now b)) = observation_inhibit b"
  "command_timeout_s (snd (tick_pending_stop now b)) = command_timeout_s b"
  "source_timeout_s (snd (tick_pending_stop now b)) = source_timeout_s b"
  by (simp_all add: tick_pending_stop_def)

lemma tick_pending_stop_stops: "r \<in> set (fst (tick_pending_stop now b)) \<Longrightarrow> api_id r = API_STOP_MOVE"
  by (auto simp: tick_pending_stop_def split: if_splits)

lemma tick_motion_sends:
  "r \<in> set (fst (tick_motion now ready rs b)) \<Longrightarrow>
     r \<in> set rs \<or> api_id r = API_STOP_MOVE
     \<or> ready \<and> command_fresh now b \<and> \<not> now < action_hold_until b \<and> r = move_request (target b)"
  by (auto simp: tick_motion_def Let_def split: if_splits)

lemma tick_action_sends:
  assumes "bridge_inv (snd rb)" "r \<in> set (fst (tick_action now ready rb))"
  shows "r \<in> set (fst rb) \<or> api_id r = API_STOP_MOVE
     \<or> ready \<and> (\<exists>a due. pending_action (snd rb) = Some (a, due) \<and> due \<le> now \<and> r = action_request a)
     \<or> ready \<and> command_fresh now (snd rb) \<and> \<not> now < action_hold_until (snd rb)
         \<and> r = move_request (target (snd rb))"
  using assms
  by (auto simp: tick_action_def split: prod.splits option.splits if_splits dest!: tick_motion_sends)

lemma tick_sends:
  assumes "bridge_inv b" "r \<in> set (fst (bridge_tick now age g b))"
  shows "api_id r = API_STOP_MOVE
     \<or> bridge_ready b age g \<and> (\<exists>a due. pending_action b = Some (a, due) \<and> due \<le> now \<and> r = action_request a)
     \<or> bridge_ready b age g \<and> command_fresh now b \<and> \<not> now < action_hold_until b
         \<and> r = move_request (target b)"
proof (cases "bridge_ready b age g")
  case True
  with tick_action_sends [of "tick_pending_stop now b" r now True] assms show ?thesis
    by (auto simp: bridge_tick_def command_fresh_def dest: tick_pending_stop_stops
        intro: tick_pending_stop_inv)
next
  case False
  with tick_action_sends [of "tick_pending_stop now (tick_gate now False b)" r now False] assms
  show ?thesis
    by (auto simp: bridge_tick_def dest: tick_pending_stop_stops
        intro: tick_pending_stop_inv tick_gate_inv)
qed

lemma tick_move_evidence:
  assumes "bridge_inv b" "r \<in> set (fst (bridge_tick now age g b))" "is_move r"
  shows "bridge_ready b age g \<and> command_fresh now b \<and> \<not> now < action_hold_until b
    \<and> observation_inhibit b = None \<and> r = move_request (target b) \<and> within_limits b (target b)"
proof -
  have "api_id (action_request a) \<noteq> API_MOVE" if "pending_action b = Some (a, d)" for a d
    using assms(1) that action_api(1) by (auto simp: bridge_inv_def action_ok_def)
  with tick_sends [OF assms(1,2)] assms(3)
  have "bridge_ready b age g \<and> command_fresh now b \<and> \<not> now < action_hold_until b \<and> r = move_request (target b)"
    by (auto simp: is_move_def API_MOVE_def API_STOP_MOVE_def)
  with assms(1) show ?thesis
    by (auto simp: bridge_inv_defs command_fresh_def)
qed

subsection \<open>The deadman latch\<close>

lemma tick_keeps_disarmed: "\<not> deadman b \<Longrightarrow> \<not> deadman (snd (bridge_tick now age g b))"
  by (auto simp: bridge_tick_def tick_action_def tick_motion_def tick_pending_stop_def tick_gate_def
      bridge_force_stop_def Let_def split: prod.splits option.splits)

lemma accept_source_keeps:
  assumes "accept_source source seq now kind b = (r, s)"
  shows "deadman s = deadman b" "target s = target b" "moving s = moving b" "pending_action s = pending_action b"
    "observation_inhibit s = observation_inhibit b" "bridge_epoch s = bridge_epoch b"
    "pending_stop s = pending_stop b" "action_hold_until s = action_hold_until b"
    "action_guard_until s = action_guard_until b" "command_timeout_s s = command_timeout_s b"
    "last_command_ack s = last_command_ack b" "last_drive s = last_drive b"
  using assms by (auto simp: accept_source_def Let_def split: if_splits)

lemma accept_observation_inhibit_deadman:
  "deadman (snd (accept_observation_inhibit payload source seq now b)) = deadman b"
  by (auto simp: accept_observation_inhibit_def Let_def)

lemma accept_action_deadman: "\<not> deadman b \<Longrightarrow> \<not> deadman (snd (accept_action payload source seq now b))"
  by (auto simp: accept_action_def Let_def record_command_ack_def)

lemma record_command_ack_deadman [simp]: "deadman (record_command_ack source seq kind now b) = deadman b"
  by (simp add: record_command_ack_def)

lemma force_stop_deadman [simp]: "\<not> deadman (bridge_force_stop why b)"
  by (simp add: bridge_force_stop_def)

lemma accept_drive_error_deadman:
  "\<not> deadman b \<Longrightarrow> fst (accept_drive payload source seq now age b) \<noteq> Inr ()
    \<Longrightarrow> \<not> deadman (snd (accept_drive payload source seq now age b))"
  by (auto simp: accept_drive_def obind_def split: sum.splits prod.splits if_splits)

lemma accept_dispatch_disarmed:
  assumes "\<not> deadman b" "kind \<in> {''drive'', ''stop'', ''action'', ''observation_inhibit''}"
    "kind = ''drive'' \<Longrightarrow> fst (accept_dispatch kind payload source seq now tage b) \<noteq> Inr ()"
  shows "\<not> deadman (snd (accept_dispatch kind payload source seq now tage b))"
proof -
  have b: "\<not> deadman (b\<lparr>last_error := []\<rparr>)" using assms(1) by simp
  consider "kind = ''observation_inhibit''" | "kind = ''stop''" | "kind = ''action''" | "kind = ''drive''"
    using assms(2) by blast
  then show ?thesis
  proof cases
    case 1
    then show ?thesis using b by (simp add: accept_dispatch_def accept_observation_inhibit_deadman)
  next
    case 2
    then show ?thesis by (simp add: accept_dispatch_def)
  next
    case 3
    then show ?thesis using b accept_action_deadman [OF b] by (simp add: accept_dispatch_def Let_def)
  next
    case 4
    then show ?thesis using b accept_drive_error_deadman [OF b] assms(3)
      by (simp add: accept_dispatch_def Let_def split: if_splits)
  qed
qed

lemma accept_keeps_disarmed:
  assumes "\<not> deadman b" "\<not> accepted ''drive'' b (Command payload now age)"
  shows "\<not> deadman (snd (bridge_accept payload now age b))"
proof (cases rule: accept_cases [of payload now age b])
  case rejected
  with assms show ?thesis by simp
next
  case (dispatched kind source seq tage s)
  have "\<not> deadman s" using accept_source_keeps(1) [OF dispatched(9)] assms by simp
  moreover have "kind = ''drive'' \<Longrightarrow> fst (accept_dispatch kind payload source seq now tage s) \<noteq> Inr ()"
    using assms(2) dispatched(1,10) by (simp add: accepted_def)
  ultimately show ?thesis
    unfolding dispatched(10) by (rule accept_dispatch_disarmed [OF _ dispatched(2)])
qed

interpretation disarmed: latch bridge_step bridge_inv "\<lambda>b. \<not> deadman b" "accepted ''drive''" is_move
proof unfold_locales
  fix b e
  assume b: "bridge_inv b" "\<not> deadman b" "\<not> accepted ''drive'' b e"
  then show "\<not> deadman (fst (bridge_step b e))"
    by (cases e) (simp_all add: accept_keeps_disarmed tick_keeps_disarmed)
  show "list_all (\<lambda>r. \<not> is_move r) (snd (bridge_step b e))"
    using b tick_move_evidence [of b]
    by (cases e) (auto simp: list_all_iff command_fresh_def)
qed

subsection \<open>The observation inhibit\<close>

definition releases :: "bridge \<Rightarrow> bridge_event \<Rightarrow> bool" where
  \<comment> \<open>the owner's accepted release: its token, its source\<close>
  "releases b e = (case e of
     Command payload now age \<Rightarrow>
       dget payload ''type'' = VStr ''observation_inhibit'' \<and> dget payload ''enabled'' = VBool False
       \<and> (\<exists>h. observation_inhibit b = Some h \<and> dget payload ''token'' = VStr (inh_token h)
             \<and> dget payload ''source_id'' = VStr (inh_source_id h))
       \<and> fst (bridge_accept payload now age b) = Inr ()
   | _ \<Rightarrow> False)"

lemma tick_keeps_inhibit:
  "observation_inhibit b \<noteq> None \<Longrightarrow> observation_inhibit (snd (bridge_tick now age g b)) \<noteq> None"
  by (auto simp: bridge_tick_def tick_action_def tick_motion_def tick_pending_stop_def tick_gate_def
      bridge_force_stop_def Let_def split: prod.splits option.splits)

lemma payload_source_str: "payload_source payload = Inr s \<Longrightarrow> dget payload ''source_id'' = VStr s"
  by (auto simp: payload_source_def split: pyval.splits if_splits)

lemma accept_keeps_inhibit:
  assumes "observation_inhibit b \<noteq> None" "\<not> releases b (Command payload now age)"
  shows "observation_inhibit (snd (bridge_accept payload now age b)) \<noteq> None"
proof (cases rule: accept_cases [of payload now age b])
  case rejected
  with assms show ?thesis by simp
next
  case (dispatched kind source seq tage s)
  have s: "observation_inhibit s = observation_inhibit b"
    using accept_source_keeps(5) [OF dispatched(9)] .
  show ?thesis
  proof (cases "kind = ''observation_inhibit''")
    case True
    with dispatched assms s payload_source_str [OF dispatched(4)] show ?thesis
      by (auto simp: releases_def accept_dispatch_def accept_observation_inhibit_def Let_def
          is_str_iff is_bool_iff split: if_splits)
  next
    case False
    with dispatched assms s show ?thesis
      by (auto simp: accept_dispatch_def Let_def record_command_ack_def bridge_force_stop_def)
  qed
qed

interpretation inhibited: latch bridge_step bridge_inv "\<lambda>b. observation_inhibit b \<noteq> None" releases
  "\<lambda>r. api_id r \<noteq> API_STOP_MOVE"
proof unfold_locales
  fix b e
  assume b: "bridge_inv b" "observation_inhibit b \<noteq> None" "\<not> releases b e"
  then show "observation_inhibit (fst (bridge_step b e)) \<noteq> None"
    by (cases e) (simp_all add: accept_keeps_inhibit tick_keeps_inhibit bridge_force_stop_def)
  have "deadman b = False" "pending_action b = None" using b by (auto simp: bridge_inv_defs)
  then show "list_all (\<lambda>r. \<not> api_id r \<noteq> API_STOP_MOVE) (snd (bridge_step b e))"
    using b tick_sends [of b]
    by (cases e) (auto simp: list_all_iff command_fresh_def)
qed

end
