(* ===== verification/Bridge_Watchdog.thy ===== *)
theory Bridge_Watchdog
  imports Bridge_Safety
begin

text \<open>
  The properties of the robot-side watchdog: what every tick and every run of events of
  \<^verbatim>\<open>Go2BridgeCore\<close> guarantees, from the invariant and the two latches of Bridge_Safety, and
  a concrete bridge on which they apply.
\<close>

subsection \<open>A concrete bridge\<close>

definition demo_bridge :: bridge where
  "demo_bridge =
     \<lparr>max_linear_x = 1/4, max_linear_y = 1/8, max_angular_z = 1/4, command_timeout_s = 1/8,
      telemetry_timeout_s = 1/2, source_timeout_s = 2, expected_bare_sport_publishers = 0,
      bridge_epoch = ''epoch'', source_id = [], last_seq_by_source = [], last_received = 0,
      last_command_ack = None, last_drive = 0, target = zero3, deadman = False, moving = False,
      pending_stop = True, pending_action = None, action_guard_until = 0, action_hold_until = 0,
      action_hold_name = [], last_stop = 0, last_error = [], last_request = None,
      observation_inhibit = None, inhibit_release_ack = None, inhibit_status_sequence = 0\<rparr>"

definition demo_graph :: graph where
  "demo_graph = \<lparr>g_lowstate_publishers = VInt 1, g_sport_subscribers = VInt 1,
     g_sport_publishers = VInt 1, g_own_sport_publishers = VInt 1,
     g_foreign_named_sport_publishers = VInt 0, g_bare_unitree_sport_publishers = VInt 0\<rparr>"

definition demo_drive :: "int \<Rightarrow> pyval \<Rightarrow> pydict" where
  "demo_drive n x =
     [(''type'', VStr ''drive''), (''bridge_epoch'', VStr ''epoch''), (''source_id'', VStr ''dashboard''),
      (''seq'', VInt n), (''deadman'', VBool True), (''linear_x'', x), (''linear_y'', VInt 0),
      (''angular_z'', VInt 0)]"

definition demo_moving :: bridge where
  "demo_moving = demo_bridge\<lparr>source_id := ''dashboard'', last_seq_by_source := [(''dashboard'', 0)],
     last_received := 2, last_drive := 2, target := (1/4, 0, 0), deadman := True, moving := True,
     pending_stop := False, last_stop := 1\<rparr>"

definition demo_inhibited :: bridge where
  "demo_inhibited = demo_bridge\<lparr>observation_inhibit :=
     Some \<lparr>inh_token = replicate 32 CHR ''a'', inh_source_id = ''dashboard'', inh_violated = False\<rparr>\<rparr>"

lemmas demo_defs = demo_inhibited_def demo_bridge_def demo_moving_def demo_graph_def

lemma limits_eighth: "fl (10/100) \<le> 1/8" "1/8 \<le> fl (20/100)" "1/4 \<le> fl (50/100)" "0 < fl (20/100)"
  using fl_mono [of "10/100" "1/8"] fl_mono [of "1/8" "20/100"] fl_mono [of "1/4" "50/100"] by simp_all

lemma demo_inv: "bridge_inv demo_bridge" "bridge_inv demo_moving" "bridge_inv demo_inhibited"
  using limits_eighth
  by (simp_all add: bridge_inv_defs demo_defs HARD_MAX_LINEAR_X_def HARD_MAX_LINEAR_Y_def
      HARD_MAX_ANGULAR_Z_def HARD_MAX_COMMAND_TIMEOUT_S_def)

lemma demo_bridge_ready: "bridge_ready demo_bridge (Some (Fin 0)) demo_graph" "bridge_ready demo_moving (Some (Fin 0)) demo_graph"
  by (simp_all add: bridge_ready_def telemetry_fresh_def graph_ready_def demo_defs)

text \<open>C10. Every run of the bridge, from construction on, keeps the velocity limits inside the
  hard limits, the target inside the limits and at zero while the deadman is released, the
  sequence table at no more than 16 distinct sources, the only pending actions on the
  allowlist, and no armed motion under an observation inhibit.\<close>

theorem bridge_run_invariant:
  assumes "bridge_init cfg epoch = Inr b"
  shows "bridge_inv (fst (run bridge_step b es))"
  using init_inv [OF assms] by (rule bridge.inv_run)

definition demo_cfg :: bridge_config where
  "demo_cfg = \<lparr>cfg_max_linear_x = VInt 1, cfg_max_linear_y = VInt 1, cfg_max_angular_z = VInt 1,
     cfg_command_timeout_s = VInt 1, cfg_telemetry_timeout_s = VInt 1, cfg_source_timeout_s = VInt 1,
     cfg_expected_bare = VInt 0\<rparr>"

lemma demo_init: "\<exists>b. bridge_init demo_cfg ''epoch'' = Inr b"
  by (simp add: bridge_init_def demo_cfg_def bounded_limit_def clamped_option_def float_of_int_def)

theorem bridge_run_invariant_witness:
  "\<exists>b. bridge_init demo_cfg ''epoch'' = Inr b
     \<and> bridge_inv (fst (run bridge_step b [Tick 1 None demo_graph, Command (demo_drive 0 (VInt 1)) 2 (VInt 0)]))"
  using demo_init bridge_run_invariant by blast

text \<open>C1. A tick that sends a velocity command to the robot does so on complete evidence: the
  telemetry and the ROS graph are as they should be, the deadman is pressed by a drive
  command no older than the command timeout from a source heard within the source timeout,
  no action is being held, no observation inhibit is in force, and the velocity sent is the
  accepted target, inside the limits.\<close>

theorem move_needs_fresh_evidence:
  assumes "bridge_inv b" "r \<in> set (fst (bridge_tick now age g b))" "api_id r = API_MOVE"
  shows "telemetry_fresh b age \<and> graph_ready b g \<and> deadman b
    \<and> fl (now - last_drive b) \<le> command_timeout_s b
    \<and> fl (now - last_received b) \<le> source_timeout_s b
    \<and> action_hold_until b \<le> now \<and> observation_inhibit b = None
    \<and> r = move_request (target b) \<and> within_limits b (target b)"
  using tick_move_evidence [OF assms(1,2)] assms(3)
  by (auto simp: is_move_def bridge_ready_def command_fresh_def)

lemma demo_tick: "fst (bridge_tick 2 (Some (Fin 0)) demo_graph demo_moving) = [move_request (1/4, 0, 0)]"
  using limits_eighth demo_bridge_ready(2) [unfolded demo_moving_def]
  by (simp add: bridge_tick_def tick_pending_stop_def tick_action_def tick_motion_def command_fresh_def
      demo_moving_def)
     (simp add: demo_bridge_def tick_motion_def command_fresh_def)

lemma demo_accept:
  "bridge_accept (demo_drive 0 (VInt 1)) 2 (VInt 0) demo_bridge =
     (Inr (), demo_bridge\<lparr>source_id := ''dashboard'', last_seq_by_source := [(''dashboard'', 0)],
        last_received := 2, last_drive := 2, target := (1/4, 0, 0), deadman := True,
        last_command_ack := Some \<lparr>ack_source_id = ''dashboard'', ack_seq = 0, ack_type = ''drive'',
          ack_accepted_at = 2\<rparr>\<rparr>)"
  by (simp add: bridge_accept_def demo_drive_def demo_bridge_def dget_def dget_or_def in_str_set_def
      payload_source_def payload_sequence_def bridge_finite_def accept_source_def accept_dispatch_def
      accept_drive_def record_command_ack_def clamp_def fl_numeral float_of_int_def)

lemma demo_accept_tick:
  "fst (bridge_tick 2 (Some (Fin 0)) demo_graph (snd (bridge_accept (demo_drive 0 (VInt 1)) 2 (VInt 0) demo_bridge)))
    = [stop_request ''stop'', move_request (1/4, 0, 0)]"
  unfolding demo_accept
  by (simp add: bridge_tick_def tick_pending_stop_def tick_action_def tick_motion_def command_fresh_def
      demo_bridge_def demo_graph_def bridge_ready_def telemetry_fresh_def graph_ready_def)

theorem move_needs_fresh_evidence_witness:
  "move_request (1/4, 0, 0) \<in> set (fst (bridge_tick 2 (Some (Fin 0)) demo_graph demo_moving))
    \<and> deadman demo_moving \<and> within_limits demo_moving (target demo_moving)"
  using move_needs_fresh_evidence [OF demo_inv(2), of "move_request (1/4, 0, 0)" 2 "Some (Fin 0)" demo_graph]
  by (simp add: demo_tick move_request_def)

text \<open>C7. A velocity command at any point of a run is preceded by a drive command the bridge
  accepted in that run: from a released deadman, events that are not accepted drives, in any
  number and order, never move the robot.\<close>

theorem no_move_without_accepted_drive:
  assumes "bridge_inv b" "\<not> deadman b" "r \<in> set (snd (run bridge_step b es))" "api_id r = API_MOVE"
  shows "\<exists>pre payload now age post. es = pre @ Command payload now age # post
    \<and> dget payload ''type'' = VStr ''drive''
    \<and> fst (bridge_accept payload now age (fst (run bridge_step b pre))) = Inr ()"
proof -
  obtain pre e post where *: "es = pre @ e # post" "accepted ''drive'' (fst (run bridge_step b pre)) e"
    using disarmed.motion_needs_opening [OF assms(1,2,3)] assms(4) by (auto simp: is_move_def)
  then show ?thesis by (cases e) (simp_all add: accepted_def, blast)
qed

text \<open>C9. Under an observation inhibit the bridge sends nothing but \<^verbatim>\<open>StopMove\<close>, through any
  number of commands, ticks and stops, until the source that took the inhibit releases it
  with its own token.\<close>

theorem inhibit_blocks_until_owner_releases:
  assumes "bridge_inv b" "observation_inhibit b \<noteq> None" "shut bridge_step releases b es"
  shows "observation_inhibit (fst (run bridge_step b es)) \<noteq> None
    \<and> list_all (\<lambda>r. api_id r = API_STOP_MOVE) (snd (run bridge_step b es))"
  using inhibited.held_run [OF assms] by simp


theorem no_move_without_accepted_drive_witness:
  "\<exists>pre payload now age post.
      [Command (demo_drive 0 (VInt 1)) 2 (VInt 0), Tick 2 (Some (Fin 0)) demo_graph]
        = pre @ Command payload now age # post
      \<and> dget payload ''type'' = VStr ''drive''
      \<and> fst (bridge_accept payload now age (fst (run bridge_step demo_bridge pre))) = Inr ()"
proof -
  let ?es = "[Command (demo_drive 0 (VInt 1)) 2 (VInt 0), Tick 2 (Some (Fin 0)) demo_graph]"
  have "move_request (1/4, 0, 0) \<in> set (snd (run bridge_step demo_bridge ?es))"
    by (simp add: demo_accept_tick)
  moreover have "\<not> deadman demo_bridge" by (simp add: demo_bridge_def)
  ultimately show ?thesis
    using no_move_without_accepted_drive [OF demo_inv(1)] by (simp add: move_request_def)
qed

lemma demo_inhibited_held: "observation_inhibit demo_inhibited \<noteq> None"
  by (simp add: demo_inhibited_def)

theorem inhibit_blocks_until_owner_releases_witness:
  "observation_inhibit (fst (run bridge_step demo_inhibited
       [Command (demo_drive 7 (VInt 1)) 2 (VInt 0), Tick 2 (Some (Fin 0)) demo_graph])) \<noteq> None"
proof -
  have "shut bridge_step releases demo_inhibited
     [Command (demo_drive 7 (VInt 1)) 2 (VInt 0), Tick 2 (Some (Fin 0)) demo_graph]"
    by (simp add: releases_def demo_drive_def dget_def dget_or_def)
  then show ?thesis
    using inhibit_blocks_until_owner_releases [OF demo_inv(3)] demo_inhibited_held by blast
qed

lemma force_stop_fields:
  "deadman (bridge_force_stop why b) = False" "target (bridge_force_stop why b) = zero3"
  "moving (bridge_force_stop why b) = False" "pending_action (bridge_force_stop why b) = None"
  "pending_stop (bridge_force_stop why b) = True" "action_hold_until (bridge_force_stop why b) = 0"
  "last_error (bridge_force_stop why b) = take 160 why"
  "action_guard_until (bridge_force_stop why b) = 0"
  by (simp_all add: bridge_force_stop_def)

lemma tick_gate_watchdog:
  assumes "bridge_inv b" "action_hold_until b \<le> now"
  shows "tick_gate now False b =
    (if deadman b then bridge_force_stop ''telemetry unavailable''
       (b\<lparr>observation_inhibit := map_option (\<lambda>h. h\<lparr>inh_violated := True\<rparr>) (observation_inhibit b)\<rparr>)
     else b\<lparr>observation_inhibit := map_option (\<lambda>h. h\<lparr>inh_violated := True\<rparr>) (observation_inhibit b)\<rparr>)
    \<or> deadman b \<and> now < 0"
  using assms by (auto simp: tick_gate_def Let_def bridge_inv_defs nonzero3_def force_stop_fields)



text \<open>After \<^verbatim>\<open>force_stop\<close> the next tick sends one \<^verbatim>\<open>StopMove\<close> that carries the reason,
  whatever the telemetry and the graph say, and nothing else.\<close>

theorem forced_stop_reaches_robot:
  assumes "0 \<le> now"
  shows "fst (bridge_tick now age g (bridge_force_stop why b))
    = [stop_request (if why = [] then ''stop'' else take 160 why)]"
proof -
  have gate: "tick_gate now ready (bridge_force_stop why b) = (if ready then bridge_force_stop why b
      else (bridge_force_stop why b)\<lparr>observation_inhibit :=
         map_option (\<lambda>h. h\<lparr>inh_violated := True\<rparr>) (observation_inhibit (bridge_force_stop why b))\<rparr>)" for ready
    using assms by (auto simp: tick_gate_def Let_def bridge_force_stop_def nonzero3_def)
  show ?thesis
    unfolding bridge_tick_def Let_def gate
    by (simp add: tick_pending_stop_def tick_action_def tick_motion_def command_fresh_def force_stop_fields)
qed

theorem forced_stop_reaches_robot_witness:
  "fst (bridge_tick 3 None demo_graph (bridge_force_stop ''operator'' demo_moving)) = [stop_request ''operator'']"
  using forced_stop_reaches_robot [of 3 None demo_graph "''operator''" demo_moving] by simp

lemma accept_source_records:
  assumes "accept_source source seq now kind b = (Inr (), s)"
  shows "map_of (last_seq_by_source s) source = Some seq"
    "(case map_of (last_seq_by_source b) source of None \<Rightarrow> - 1 | Some n \<Rightarrow> n) < seq"
proof -
  define m where "m = dput source seq (last_seq_by_source b)"
  have m: "map_of m source = Some seq" by (simp add: m_def)
  have "map_of (tl m) source = Some seq" if "fst (hd m) \<noteq> source"
    using m that by (cases m) (auto split: if_splits)
  with m assms show "map_of (last_seq_by_source s) source = Some seq"
    by (auto simp: accept_source_def Let_def m_def split: if_splits)
  show "(case map_of (last_seq_by_source b) source of None \<Rightarrow> - 1 | Some n \<Rightarrow> n) < seq"
    using assms by (auto simp: accept_source_def Let_def split: if_splits)
qed

lemma accept_dispatch_keeps:
  "last_seq_by_source (snd (accept_dispatch kind payload source seq now tage b)) = last_seq_by_source b"
  "bridge_epoch (snd (accept_dispatch kind payload source seq now tage b)) = bridge_epoch b"
  by (simp_all add: accept_dispatch_def accept_observation_inhibit_def accept_action_def accept_drive_def
      record_command_ack_def bridge_force_stop_def Let_def obind_def split: sum.splits prod.splits)



end
