(* ===== verification/Bridge_Node.thy ===== *)
theory Bridge_Node
  imports Bridge_Watchdog
begin

text \<open>
  The ROS node around the bridge core, \<^verbatim>\<open>Go2ControlBridge\<close> of
  \<^verbatim>\<open>robot_dashboard/go2_control_bridge.py\<close>: the command callback with its exception
  handler, the timer callback and the shutdown sequence. The signed envelope's decoder
  (\<^verbatim>\<open>decode_signed\<close>) appears as its result, an exception or the payload; the two clocks, the
  ROS graph reading and the text of an exception are arguments. Its contribution to safety is
  the rule that a command that fails in any expected way stops the robot.
\<close>

record bridge_node =
  core :: bridge
  closing :: bool
  observation_only :: bool
  status_update_requested :: bool
  last_status :: rat
  last_lowstate :: rat

text \<open>The classes of the handler's \<^verbatim>\<open>except\<close> clause; \<^verbatim>\<open>BridgeCommandError\<close> and
  \<^verbatim>\<open>ControlProtocolError\<close> are \<^verbatim>\<open>ValueError\<close>s.\<close>

definition handled_by_command_callback :: "exn \<Rightarrow> bool" where
  "handled_by_command_callback e = (case e of
     ControlProtocolError _ \<Rightarrow> True | BridgeCommandError _ \<Rightarrow> True | TypeError \<Rightarrow> True
   | ValueError \<Rightarrow> True | _ \<Rightarrow> False)"

text \<open>\<^verbatim>\<open>max(0.0, time.time() - float(issued_at_ms) / 1_000.0)\<close>\<close>

definition transport_age :: "rat \<Rightarrow> pyval \<Rightarrow> exn + pyval" where
  "transport_age wall issued_at_ms =
     sbind (py_float issued_at_ms) (\<lambda>ms.
       if is_finite ms then Inr (VFloat (Fin (max 0 (fl (wall - fl (fin_val ms / 1000))))))
       else Inr (VFloat (if ms = NInf then PInf else Fin 0)))"

definition accept_command ::
  "(exn \<Rightarrow> string) \<Rightarrow> exn + pydict \<Rightarrow> rat \<Rightarrow> rat \<Rightarrow> bridge_node \<Rightarrow> (bridge_node, unit) outcome" where
  "accept_command text_of decoded now wall n =
     (let r = obind (lift_exn decoded (core n)) (\<lambda>payload b.
              obind (lift_exn (transport_age wall (dget payload ''issued_at_ms'')) b) (\<lambda>age b.
                bridge_accept payload now age b))
      in case r of
           (Inr _, b) \<Rightarrow> (Inr (), n\<lparr>core := b, status_update_requested := True\<rparr>)
         | (Inl e, b) \<Rightarrow>
             if handled_by_command_callback e
             then (Inr (), n\<lparr>core := bridge_force_stop (''rejected command: '' @ text_of e) b\<rparr>)
             else (Inl e, n\<lparr>core := b\<rparr>))"

definition command_callback ::
  "(exn \<Rightarrow> string) \<Rightarrow> exn + pydict \<Rightarrow> rat \<Rightarrow> rat \<Rightarrow> bridge_node \<Rightarrow> (bridge_node, unit) outcome" where
  "command_callback text_of decoded now wall n =
     (if closing n \<or> observation_only n then (Inr (), n) else accept_command text_of decoded now wall n)"

definition lowstate_age :: "rat \<Rightarrow> bridge_node \<Rightarrow> pyfloat option" where
  "lowstate_age now n =
     (if last_lowstate n \<le> 0 then None else Some (Fin (max 0 (fl (now - last_lowstate n)))))"

text \<open>One timer callback: the requests handed to the sport publisher. The status report,
  whose transport may fail, requests a \<^verbatim>\<open>StopMove\<close> when it does.\<close>

definition publish_status :: "bool \<Rightarrow> bridge_node \<Rightarrow> bridge_node" where
  "publish_status status_sent n =
     (if status_sent then n else n\<lparr>core := bridge_force_stop ''bridge status transport failed'' (core n)\<rparr>)"

definition node_tick :: "rat \<Rightarrow> graph \<Rightarrow> bool \<Rightarrow> bridge_node \<Rightarrow> sport_request list \<times> bridge_node" where
  "node_tick now g status_sent n =
     (if closing n then ([], n)
      else let (requests, b) = (if observation_only n then ([], core n)
                                else bridge_tick now (lowstate_age now n) g (core n));
               n = n\<lparr>core := b\<rparr>
           in if status_update_requested n \<or> fl (1/4) \<le> fl (now - last_status n)
              then (requests, (publish_status status_sent
                       (n\<lparr>core := snd (bridge_snapshot now
                             (map_option fin_val (lowstate_age now n)) g (core n))\<rparr>))
                     \<lparr>last_status := now, status_update_requested := False\<rparr>)
              else (requests, n))"

definition stop_safely :: "bridge_node \<Rightarrow> sport_request list \<times> bridge_node" where
  "stop_safely n =
     (if closing n then ([], n)
      else if observation_only n then ([], n\<lparr>closing := True\<rparr>)
      else (replicate 3 (stop_request ''shutdown''),
            n\<lparr>closing := True, core := bridge_force_stop ''bridge shutdown'' (core n)\<rparr>))"

subsection \<open>Rejected commands stop the robot\<close>

text \<open>A command that the callback refuses, because its envelope does not verify or because
  the core rejects it, leaves the bridge disarmed with a \<^verbatim>\<open>StopMove\<close> pending; only an
  exception outside the handler's classes escapes.\<close>

theorem refused_command_stops:
  assumes "\<not> closing n" "\<not> observation_only n"
    "command_callback text_of decoded now wall n = (Inr (), n')" "\<not> status_update_requested n"
  shows "status_update_requested n'
    \<or> (\<not> deadman (core n') \<and> pending_stop (core n') \<and> target (core n') = zero3
       \<and> pending_action (core n') = None)"
  using assms
  by (auto simp: command_callback_def accept_command_def Let_def force_stop_fields
      split: prod.splits sum.splits if_splits)

definition demo_node :: bridge_node where
  "demo_node = \<lparr>core = demo_moving, closing = False, observation_only = False,
     status_update_requested = False, last_status = 0, last_lowstate = 1\<rparr>"

theorem refused_command_stops_witness:
  "pending_stop (core (snd (command_callback (\<lambda>e. ''x'') (Inl (ControlProtocolError ''stale'')) 2 2 demo_node)))"
proof -
  obtain n' where n': "command_callback (\<lambda>e. ''x'') (Inl (ControlProtocolError ''stale'')) 2 2 demo_node = (Inr (), n')"
    "\<not> status_update_requested n'"
    by (simp add: command_callback_def accept_command_def demo_node_def handled_by_command_callback_def)
  with refused_command_stops [OF _ _ n'(1)] show ?thesis by (simp add: demo_node_def)
qed

lemma float_of_int_overflow: "2 ^ 1024 \<le> m \<Longrightarrow> float_of_int m = Inl OverflowError"
proof -
  assume "2 ^ 1024 \<le> m"
  then have "rat_of_int (2 ^ 1024) \<le> of_int m" by (simp only: of_int_le_iff)
  then have "pow2 1024 \<le> of_int m" by (simp only: pow2_def of_int_power of_int_numeral) simp
  then have "pow2 1024 \<le> fl (of_int m)" by (intro fl_ge_double pow2_double) simp_all
  then have "float_big \<le> \<bar>fl (of_int m)\<bar>" unfolding float_big_def pow2_def by (simp add: abs_if)
  then show ?thesis by (simp add: float_of_int_def)
qed

lemma bridge_finite_overflow: "2 ^ 1024 \<le> m \<Longrightarrow> bridge_finite (VInt m) label = Inl OverflowError"
  by (simp add: bridge_finite_def float_of_int_overflow)

lemma overflow_accept:
  assumes "2 ^ 1024 \<le> m"
  shows "bridge_accept ((''issued_at_ms'', VInt 2000) # demo_drive 1 (VInt m)) 2 (VFloat (Fin 0)) demo_moving
    = (Inl OverflowError, demo_moving\<lparr>last_seq_by_source := [(''dashboard'', 1)]\<rparr>)"
  by (simp add: bridge_accept_def demo_drive_def demo_moving_def demo_bridge_def dget_def dget_or_def
      in_str_set_def payload_source_def payload_sequence_def accept_source_def accept_dispatch_def
      accept_drive_def bridge_finite_overflow [OF assms] Let_def)
     (simp add: bridge_finite_def accept_source_def accept_dispatch_def Let_def accept_drive_def dget_def
      dget_or_def bridge_finite_overflow [OF assms, unfolded bridge_finite_def, simplified])



end
