(* ===== verification/Control_Manager.thy ===== *)
theory Control_Manager
  imports Py_Text
begin

text \<open>
  The dashboard's control authority: \<^verbatim>\<open>ControlManager\<close> and \<^verbatim>\<open>ClientFrameClock\<close> of
  \<^verbatim>\<open>robot_dashboard/control.py\<close>. One lease owns motion; every operation checks it, and every
  loss of evidence revokes it and queues a stop.

  The record \<open>manager\<close> holds the mutable attributes, \<open>limits\<close> the ones the constructor fixes.
  The lock makes each method atomic, so one method is one function. A method reads the
  monotonic clock once at its start and once more where \<^verbatim>\<open>_fail_closed\<close> or \<^verbatim>\<open>snapshot\<close> reads
  it again: the readings are the arguments \<open>t\<close> and \<open>t2\<close>, floats that \<^verbatim>\<open>_now\<close> rejects unless
  they are finite. The token a lease gets is the argument \<open>fresh\<close>, the value the token factory
  returned. The queued envelopes are \<open>envelope\<close>s.
\<close>

subsection \<open>Configuration\<close>

definition SAFE_ACTIONS :: "(string \<times> int) list" where
  "SAFE_ACTIONS =
    [(''balance_stand'', 1002), (''stand_up'', 1004), (''stand_down'', 1005),
     (''recovery_stand'', 1006), (''sit'', 1009), (''rise_sit'', 1010), (''hello'', 1016),
     (''stretch'', 1017), (''content'', 1020), (''scrape'', 1029), (''heart'', 1036),
     (''static_walk'', 1061), (''economic_gait'', 1063), (''free_walk'', 2045)]"

definition ACTION_GUARD_S :: "(string \<times> rat) list" where
  "ACTION_GUARD_S =
    [(''balance_stand'', 3), (''stand_up'', 5), (''stand_down'', 5), (''recovery_stand'', 8),
     (''sit'', 5), (''rise_sit'', 5), (''hello'', 8), (''stretch'', 8), (''content'', 8),
     (''scrape'', 8), (''heart'', 8), (''static_walk'', 3), (''economic_gait'', 3),
     (''free_walk'', 3)]"

definition INPUT_SOURCES :: "string list" where
  "INPUT_SOURCES = [''keyboard'', ''gamepad'']"

definition INTERNAL_NAVIGATION_SOURCE :: string where
  "INTERNAL_NAVIGATION_SOURCE = ''navigation''"

definition is_true_text :: "pyval \<Rightarrow> bool" where
  \<comment> \<open>\<^verbatim>\<open>_truthy\<close>\<close>
  "is_true_text v \<longleftrightarrow> lower (strip (py_str v)) \<in> {''1'', ''true'', ''yes'', ''on''}"

definition bounded_float :: "pyval \<Rightarrow> rat \<Rightarrow> rat \<Rightarrow> rat \<Rightarrow> exn + rat" where
  "bounded_float v fallback low high =
     (case py_float v of
        Inl e \<Rightarrow> if e = TypeError \<or> e = ValueError then Inr fallback else Inl e
      | Inr f \<Rightarrow> if \<not> is_finite f then Inr fallback else Inr (clamp low high (fin_val f)))"

record limits =
  vx_limit :: rat
  vy_limit :: rat
  wz_limit :: rat
  default_speed_scale :: rat
  navigation_speed_scale :: rat
  cmd_timeout_s :: rat
  navigation_command_timeout_s :: rat
  lease_heartbeat_s :: rat
  lease_bind_s :: rat
  bridge_stale_s :: rat
  lowstate_stale_s :: rat
  linear_slew :: rat
  lateral_slew :: rat
  angular_slew :: rat
  allowed_actions :: "(string \<times> int) list"

definition get2 :: "pydict \<Rightarrow> string \<Rightarrow> string \<Rightarrow> pyval" where
  \<comment> \<open>\<^verbatim>\<open>control.get(a, control.get(b))\<close>\<close>
  "get2 d a b = dget_or d a (dget d b)"

definition configured_actions :: "pyval \<Rightarrow> (string \<times> int) list" where
  "configured_actions v =
     (case v of
        VList raws \<Rightarrow>
          fold (\<lambda>raw d. let name = lower (strip (py_str raw))
                        in case map_of SAFE_ACTIONS name of Some i \<Rightarrow> dput name i d | None \<Rightarrow> d) raws []
      | _ \<Rightarrow> SAFE_ACTIONS)"

definition control_limits :: "pydict \<Rightarrow> exn + limits" where
  "control_limits c =
     sbind (bounded_float (dget c ''max_linear_x'') (fl (30/100)) (fl (1/100)) 1) (\<lambda>vx.
     sbind (bounded_float (dget c ''max_linear_y'') (fl (20/100)) (fl (1/100)) (fl (20/100))) (\<lambda>vy.
     sbind (bounded_float (dget c ''max_angular_z'') (1/2) (fl (5/100)) (1/2)) (\<lambda>wz.
     sbind (bounded_float (dget c ''default_speed_scale'') (fl (35/100)) (fl (10/100)) 1) (\<lambda>scale.
     sbind (bounded_float (dget c ''navigation_speed_scale'') scale (fl (10/100)) 1) (\<lambda>nav_scale.
     sbind (bounded_float (dget c ''command_timeout_s'') (fl (20/100)) (fl (10/100)) (fl (20/100))) (\<lambda>timeout.
     sbind (bounded_float (dget c ''navigation_command_timeout_s'') (fl (30/100)) (fl (10/100)) (fl (30/100))) (\<lambda>nav_timeout.
     sbind (bounded_float (dget c ''lease_timeout_s'') 2 (1/2) 2) (\<lambda>heartbeat.
     sbind (bounded_float (dget c ''bind_timeout_s'') 4 (5/2) 5) (\<lambda>bind.
     sbind (bounded_float (get2 c ''bridge_status_timeout_s'' ''bridge_stale_after_s'') (3/4) (fl (1/10)) 2) (\<lambda>bridge.
     sbind (bounded_float (get2 c ''telemetry_timeout_s'' ''lowstate_stale_after_s'') (1/2) (fl (1/10)) 1) (\<lambda>low.
     sbind (bounded_float (get2 c ''max_linear_accel'' ''linear_slew_mps2'') (3/4) (fl (5/100)) 2) (\<lambda>lin.
     sbind (bounded_float (get2 c ''max_lateral_accel'' ''linear_slew_mps2'') (fl (60/100)) (fl (5/100)) 2) (\<lambda>lat.
     sbind (bounded_float (get2 c ''max_angular_accel'' ''angular_slew_rps2'') (3/2) (fl (1/10)) 4) (\<lambda>ang.
       Inr \<lparr>vx_limit = vx, vy_limit = vy, wz_limit = wz, default_speed_scale = scale,
            navigation_speed_scale = nav_scale, cmd_timeout_s = timeout,
            navigation_command_timeout_s = nav_timeout, lease_heartbeat_s = heartbeat,
            lease_bind_s = bind, bridge_stale_s = bridge, lowstate_stale_s = low, linear_slew = lin,
            lateral_slew = lat, angular_slew = ang,
            allowed_actions = configured_actions (dget c ''allowed_actions'')\<rparr>))))))))))))))"

subsection \<open>The manager's attributes\<close>

record velocity =
  vx :: rat
  vy :: rat
  wz :: rat

abbreviation still :: velocity where
  "still \<equiv> \<lparr>vx = 0, vy = 0, wz = 0\<rparr>"

datatype envelope =
    Drive int string velocity rat
  | Stop string velocity rat
  | Action string int int rat

record lease =
  token :: string
  input_source :: string
  binding :: "string option"
  acquired_at :: rat
  heartbeat_at :: rat
  last_seq :: int

record drive =
  drive_seq :: int
  drive_at :: rat
  drive_deadman :: bool
  drive_velocity :: velocity
  drive_scale :: rat
  drive_source :: string

record manager =
  lim :: limits
  m_enabled :: bool
  m_closed :: bool
  m_lease :: "lease option"
  lease_end_reason :: string
  bridge_seen :: "rat option"
  lowstate_seen :: "rat option"
  estop_latched :: bool
  estop_reason :: string
  guard_until :: rat
  guard_name :: string
  m_drive :: "drive option"
  actions :: "envelope list"
  outputs :: "envelope list"
  last_velocity :: velocity
  last_command_source :: "string option"
  last_command_deadman :: bool
  last_tick :: "rat option"
  motion_active :: bool
  stop_emitted :: bool

definition control_init :: "pydict \<Rightarrow> (string \<Rightarrow> string option) \<Rightarrow> exn + manager" where
  "control_init profile env =
     (let control = (case dget_or profile ''control'' (VDict []) of VDict c \<Rightarrow> c | _ \<Rightarrow> []);
          enabled = (dget control ''enabled'' = VBool True
            \<and> is_true_text (VStr (case env ''ROBOT_SCOPE_CONTROL_ENABLED'' of None \<Rightarrow> [] | Some s \<Rightarrow> s)));
          stopped = (env ''ROBOT_SCOPE_CONTROL_START_STOPPED'' = Some ''1'')
      in sbind (control_limits control) (\<lambda>l. Inr
      \<lparr>lim = l, m_enabled = enabled, m_closed = False, m_lease = None, lease_end_reason = [],
       bridge_seen = None, lowstate_seen = None, estop_latched = stopped,
       estop_reason = (if stopped then ''operator_start_stopped'' else []),
       guard_until = 0, guard_name = [], m_drive = None, actions = [], outputs = [],
       last_velocity = still, last_command_source = None, last_command_deadman = False,
       last_tick = None, motion_active = False, stop_emitted = True\<rparr>))"

subsection \<open>Time, readiness and stops\<close>

text \<open>\<^verbatim>\<open>_now\<close>\<close>

definition with_now :: "pyfloat \<Rightarrow> manager \<Rightarrow> (rat \<Rightarrow> (manager, 'a) outcome) \<Rightarrow> (manager, 'a) outcome" where
  "with_now t m f = (case t of Fin now \<Rightarrow> f now
     | _ \<Rightarrow> (Inl (RuntimeError ''control clock returned a non-finite value''), m))"

definition ensure_open :: "manager \<Rightarrow> exn + unit" where
  "ensure_open m = guard (\<not> m_closed m) (ControlClosed ''control manager is closed'')"

definition ensure_configured :: "manager \<Rightarrow> exn + unit" where
  "ensure_configured m =
     sbind (ensure_open m) (\<lambda>_. guard (m_enabled m) (ControlDisabled ''robot control is disabled''))"

definition action_guard_remaining :: "rat \<Rightarrow> manager \<Rightarrow> rat \<times> manager" where
  "action_guard_remaining now m =
     (let remaining = max 0 (fl (guard_until m - now))
      in (remaining, if remaining \<le> 0 then m\<lparr>guard_until := 0, guard_name := []\<rparr> else m))"

text \<open>The readiness test resets an elapsed action guard, but only when it gets that far.\<close>

definition evidence_fresh :: "rat \<Rightarrow> manager \<Rightarrow> bool" where
  "evidence_fresh now m \<longleftrightarrow> m_enabled m \<and> \<not> m_closed m
     \<and> (case bridge_seen m of None \<Rightarrow> False | Some s \<Rightarrow> fl (now - s) < bridge_stale_s (lim m))
     \<and> (case lowstate_seen m of None \<Rightarrow> False | Some s \<Rightarrow> fl (now - s) < lowstate_stale_s (lim m))"

definition ready_at :: "rat \<Rightarrow> manager \<Rightarrow> bool \<times> manager" where
  "ready_at now m =
     (if evidence_fresh now m
      then (fst (action_guard_remaining now m) \<le> 0, snd (action_guard_remaining now m))
      else (False, m))"

definition LEASE_END_CAUSES :: "string list" where
  "LEASE_END_CAUSES = [''command_timeout'', ''lease_expired'', ''lease_released'', ''readiness_stale'',
     ''bridge_not_ready'', ''lowstate_not_ready'', ''readiness_lost'', ''emergency_stop'', ''manager_closed'']"

definition emit_stop :: "string \<Rightarrow> rat \<Rightarrow> bool \<Rightarrow> manager \<Rightarrow> manager" where
  "emit_stop reason now force m =
     m\<lparr>lease_end_reason := (if m_lease m = None \<and> lease_end_reason m = [] \<and> reason \<in> set LEASE_END_CAUSES
                            then reason else lease_end_reason m),
       last_velocity := still, last_command_deadman := False, motion_active := False,
       outputs := (if force \<or> \<not> stop_emitted m then outputs m @ [Stop reason still now] else outputs m),
       stop_emitted := True\<rparr>"

definition revoke :: "string \<Rightarrow> rat \<Rightarrow> manager \<Rightarrow> manager" where
  \<comment> \<open>the recurring end of a lease: lease, drive and actions cleared, a forced stop\<close>
  "revoke reason now m = emit_stop reason now True (m\<lparr>m_lease := None, m_drive := None, actions := []\<rparr>)"

definition fail_closed :: "string \<Rightarrow> pyfloat \<Rightarrow> manager \<Rightarrow> (manager, unit) outcome" where
  "fail_closed reason t m = with_now t m (\<lambda>now.
     (Inr (), if m_lease m \<noteq> None \<or> motion_active m then revoke reason now m else m))"

definition note_bridge :: "bool \<Rightarrow> pyfloat \<Rightarrow> manager \<Rightarrow> (manager, unit) outcome" where
  "note_bridge ready t m =
     obind (lift_exn (ensure_open m) m) (\<lambda>_ m.
     if ready then with_now t m (\<lambda>now. (Inr (), m\<lparr>bridge_seen := Some now\<rparr>))
     else fail_closed ''bridge_not_ready'' t (m\<lparr>bridge_seen := None\<rparr>))"

definition note_lowstate :: "bool \<Rightarrow> pyfloat \<Rightarrow> manager \<Rightarrow> (manager, unit) outcome" where
  "note_lowstate fresh t m =
     obind (lift_exn (ensure_open m) m) (\<lambda>_ m.
     if fresh then with_now t m (\<lambda>now. (Inr (), m\<lparr>lowstate_seen := Some now\<rparr>))
     else fail_closed ''lowstate_not_ready'' t (m\<lparr>lowstate_seen := None\<rparr>))"

definition set_readiness :: "bool \<Rightarrow> bool \<Rightarrow> pyfloat \<Rightarrow> pyfloat \<Rightarrow> manager \<Rightarrow> (manager, unit) outcome" where
  "set_readiness bridge_ok lowstate_ok t t2 m =
     obind (lift_exn (ensure_open m) m) (\<lambda>_ m.
     with_now t m (\<lambda>now.
       let m = m\<lparr>bridge_seen := (if bridge_ok then Some now else None),
                 lowstate_seen := (if lowstate_ok then Some now else None)\<rparr>
       in if \<not> bridge_ok \<or> \<not> lowstate_ok then fail_closed ''readiness_lost'' t2 m else (Inr (), m)))"


subsection \<open>The lease\<close>

text \<open>\<^verbatim>\<open>hmac.compare_digest\<close> on text takes ASCII only.\<close>

definition compare_digest :: "string \<Rightarrow> string \<Rightarrow> exn + bool" where
  "compare_digest a b =
     (if list_ex (\<lambda>c. 128 \<le> ord c) (a @ b) then Inl TypeError else Inr (a = b))"

record lease_view =
  view_source :: string
  view_bound :: bool
  view_last_seq :: int
  view_heartbeat_age :: rat

definition lease_public :: "rat \<Rightarrow> manager \<Rightarrow> lease_view option" where
  "lease_public now m =
     map_option (\<lambda>l. \<lparr>view_source = input_source l, view_bound = (binding l \<noteq> None),
       view_last_seq = last_seq l,
       view_heartbeat_age = py_round 3 (max 0 (fl (now - heartbeat_at l)))\<rparr>) (m_lease m)"

definition expire_if_needed :: "rat \<Rightarrow> manager \<Rightarrow> bool \<times> manager" where
  "expire_if_needed now m =
     (case m_lease m of
        None \<Rightarrow> (False, m)
      | Some l \<Rightarrow>
          let timeout = (if binding l = None then lease_bind_s (lim m) else lease_heartbeat_s (lim m))
          in if fl (now - heartbeat_at l) < timeout then (False, m)
             else (True, revoke ''lease_expired'' now m))"

definition command_timeout_for_source :: "string \<Rightarrow> manager \<Rightarrow> rat" where
  "command_timeout_for_source source m =
     (if source = INTERNAL_NAVIGATION_SOURCE then navigation_command_timeout_s (lim m)
      else cmd_timeout_s (lim m))"

definition expire_command_if_needed :: "rat \<Rightarrow> manager \<Rightarrow> bool \<times> manager" where
  "expire_command_if_needed now m =
     (case m_drive m of
        None \<Rightarrow> (False, m)
      | Some d \<Rightarrow>
          if m_lease m = None \<or> \<not> drive_deadman d
             \<or> fl (now - drive_at d) < command_timeout_for_source (drive_source d) m
          then (False, m)
          else (True, revoke ''command_timeout'' now m))"

text \<open>\<^verbatim>\<open>f"{x:.1f}"\<close> of a non-negative float\<close>

definition one_place :: "rat \<Rightarrow> string" where
  "one_place x = (let n = round_half_even (x * 10) in int_text (n div 10) @ ''.'' @ int_text (n mod 10))"

definition acquire :: "pyval \<Rightarrow> bool \<Rightarrow> pyval \<Rightarrow> pyfloat \<Rightarrow> manager
    \<Rightarrow> (manager, string \<times> lease_view option) outcome" where
  "acquire source_arg allow_navigation fresh t m =
     obind (lift_exn (ensure_configured m) m) (\<lambda>_ m.
     with_now t m (\<lambda>now.
       let m = snd (expire_if_needed now m)
       in if estop_latched m
          then (Inl (EmergencyStopLatched ''dashboard software stop is latched''), m)
          else let (wait, m) = action_guard_remaining now m
          in if 0 < wait
          then (Inl (ControlNotReady (''wait '' @ one_place wait
                 @ ''s for the action safety window before re-arming'')), m)
          else let (ready, m) = ready_at now m
          in if \<not> ready
          then (Inl (ControlNotReady ''bridge and lowstate must both be fresh''), m)
          else let source = lower (strip (py_str source_arg))
          in if \<not> (source \<in> set INPUT_SOURCES \<or> allow_navigation \<and> source = INTERNAL_NAVIGATION_SOURCE)
          then (Inl (CommandValidationError ''input_source must be keyboard or gamepad''), m)
          else if m_lease m \<noteq> None
          then (Inl (LeaseBusy ''another controller already owns the robot''), m)
          else if \<not> is_str fresh \<or> length (str_val fresh) < 16
          then (Inl (RuntimeError ''token factory returned an unsafe token''), m)
          else let m = m\<lparr>m_lease := Some \<lparr>token = str_val fresh, input_source = source, binding = None,
                           acquired_at = now, heartbeat_at = now, last_seq = - 1\<rparr>,
                         lease_end_reason := []\<rparr>
               in (Inr (str_val fresh, lease_public now m), m)))"

definition acquire_lease :: "pyval \<Rightarrow> pyval \<Rightarrow> pyfloat \<Rightarrow> manager
    \<Rightarrow> (manager, string \<times> lease_view option) outcome" where
  "acquire_lease source fresh t m = acquire source False fresh t m"

definition acquire_navigation_lease :: "pyval \<Rightarrow> pyfloat \<Rightarrow> manager
    \<Rightarrow> (manager, string \<times> lease_view option) outcome" where
  "acquire_navigation_lease fresh t m = acquire (VStr INTERNAL_NAVIGATION_SOURCE) True fresh t m"

text \<open>\<^verbatim>\<open>_require_lease\<close>; the token may be any object, its text is compared.\<close>

definition lease_is :: "pyval \<Rightarrow> manager \<Rightarrow> exn + bool" where
  "lease_is tok m = (case m_lease m of None \<Rightarrow> Inr False | Some l \<Rightarrow> compare_digest (py_str tok) (token l))"

definition check_binding :: "pyval \<Rightarrow> lease \<Rightarrow> exn + unit" where
  "check_binding bind l =
     (if bind = VNone then Inr ()
      else case binding l of
             None \<Rightarrow> Inl (LeaseBindingError ''lease must be bound before use'')
           | Some b \<Rightarrow> sbind (compare_digest (py_str bind) b) (\<lambda>same.
               guard same (LeaseBindingError ''lease is bound to another session'')))"

definition require_lease :: "pyval \<Rightarrow> rat \<Rightarrow> pyval \<Rightarrow> bool \<Rightarrow> pyfloat \<Rightarrow> manager \<Rightarrow> (manager, lease) outcome" where
  "require_lease tok now bind require_ready t2 m =
     obind (lift_exn (ensure_configured m) m) (\<lambda>_ m.
     let m = snd (expire_command_if_needed now (snd (expire_if_needed now m)))
     in obind (lift_exn (lease_is tok m) m) (\<lambda>owned m.
     case m_lease m of
       None \<Rightarrow> (Inl (LeaseInvalid (''invalid or expired control lease''
                  @ (if lease_end_reason m = [] then [] else '': '' @ lease_end_reason m))), m)
     | Some l \<Rightarrow>
         if \<not> owned then (Inl (LeaseInvalid ''invalid or expired control lease''), m)
         else obind (lift_exn (check_binding bind l) m) (\<lambda>_ m.
         if \<not> require_ready then (Inr l, m)
         else let (ready, m) = ready_at now m
              in if ready then (Inr l, m)
                 else obind (fail_closed ''readiness_stale'' t2 m) (\<lambda>_ m.
                      (Inl (ControlNotReady ''bridge and lowstate must both be fresh''), m)))))"

definition bind_lease :: "pyval \<Rightarrow> pyval \<Rightarrow> pyfloat \<Rightarrow> pyfloat \<Rightarrow> manager
    \<Rightarrow> (manager, lease_view option) outcome" where
  "bind_lease tok bind t t2 m =
     with_now t m (\<lambda>now.
     obind (require_lease tok now VNone True t2 m) (\<lambda>l m.
     let value = strip (py_str bind)
     in if value = [] \<or> 256 < length value
        then (Inl (LeaseBindingError ''binding must be 1 to 256 characters''), m)
        else case binding l of
          None \<Rightarrow> let m = m\<lparr>m_lease := Some (l\<lparr>binding := Some value, heartbeat_at := now\<rparr>)\<rparr>
                  in (Inr (lease_public now m), m)
        | Some current \<Rightarrow>
            obind (lift_exn (compare_digest current value) m) (\<lambda>same m.
            if same then (Inr (lease_public now m), m)
            else (Inl (LeaseBindingError ''lease is bound to another session''), m))))"

definition validate_seq :: "lease \<Rightarrow> pyval \<Rightarrow> exn + lease" where
  "validate_seq l seq =
     (if \<not> is_plain_int seq \<or> int_val seq < 0
      then Inl (SequenceError ''seq must be a non-negative integer'')
      else if int_val seq \<le> last_seq l then Inl (SequenceError ''seq must be strictly increasing'')
      else Inr (l\<lparr>last_seq := int_val seq\<rparr>))"

definition heartbeat :: "pyval \<Rightarrow> pyval \<Rightarrow> pyval \<Rightarrow> pyfloat \<Rightarrow> pyfloat \<Rightarrow> manager
    \<Rightarrow> (manager, lease_view option) outcome" where
  "heartbeat tok bind seq t t2 m =
     with_now t m (\<lambda>now.
     obind (require_lease tok now bind True t2 m) (\<lambda>l m.
     obind (lift_exn (validate_seq l seq) m) (\<lambda>l m.
     let m = m\<lparr>m_lease := Some (l\<lparr>heartbeat_at := now\<rparr>)\<rparr>
     in (Inr (lease_public now m), m))))"

definition release_lease :: "pyval \<Rightarrow> pyval \<Rightarrow> pyfloat \<Rightarrow> pyfloat \<Rightarrow> manager
    \<Rightarrow> (manager, lease_view option) outcome" where
  "release_lease tok bind t t2 m =
     with_now t m (\<lambda>now.
     obind (require_lease tok now bind False t2 m) (\<lambda>_ m.
     let m = revoke ''lease_released'' now m in (Inr (lease_public now m), m)))"


subsection \<open>Drives and actions\<close>

definition normalized :: "pyval \<Rightarrow> string \<Rightarrow> exn + rat" where
  "normalized value name =
     (if \<not> is_number value then Inl (CommandValidationError (name @ '' must be a finite number''))
      else sbind (py_float value) (\<lambda>f.
        if \<not> is_finite f then Inl (CommandValidationError (name @ '' must be a finite number''))
        else if fin_val f < - 1 \<or> 1 < fin_val f
        then Inl (CommandValidationError (name @ '' must be normalized to [-1, 1]''))
        else Inr (fin_val f)))"

definition speed_scale :: "pyval \<Rightarrow> exn + rat" where
  "speed_scale value =
     (if \<not> is_number value then Inl (CommandValidationError ''speed_scale must be a finite number'')
      else sbind (py_float value) (\<lambda>f.
        if \<not> is_finite f then Inl (CommandValidationError ''speed_scale must be a finite number'')
        else Inr (clamp (fl (10/100)) 1 (fin_val f))))"

definition client_age :: "pyval \<Rightarrow> rat \<Rightarrow> exn + rat" where
  "client_age value timeout =
     (if \<not> is_number value then Inl (CommandValidationError ''client_age_s must be a finite number'')
      else sbind (py_float value) (\<lambda>f.
        if \<not> is_finite f \<or> fin_val f < 0 \<or> timeout < fin_val f
        then Inl (CommandValidationError ''client_age_s exceeds the command timeout'')
        else Inr (fin_val f)))"

definition scaled :: "rat \<Rightarrow> rat \<Rightarrow> rat \<Rightarrow> rat" where
  \<comment> \<open>\<^verbatim>\<open>max(-limit, min(value * limit * scale, limit))\<close>\<close>
  "scaled limit value scale = clamp (- limit) limit (fl (fl (value * limit) * scale))"

record drive_request =
  req_vx :: pyval
  req_vy :: pyval
  req_wz :: pyval
  req_speed_scale :: pyval
  req_deadman :: pyval
  req_client_age_s :: pyval

definition check_drive :: "limits \<Rightarrow> drive_request \<Rightarrow> rat \<Rightarrow> exn + velocity \<times> rat \<times> rat" where
  \<comment> \<open>the velocity inside the limits, the speed scale and the command's age\<close>
  "check_drive L r timeout =
     sbind (guard (is_bool (req_deadman r)) (CommandValidationError ''deadman must be a boolean'')) (\<lambda>_.
     sbind (normalized (req_vx r) ''vx'') (\<lambda>x.
     sbind (normalized (req_vy r) ''vy'') (\<lambda>y.
     sbind (normalized (req_wz r) ''wz'') (\<lambda>z.
     sbind (speed_scale (req_speed_scale r)) (\<lambda>scale.
     sbind (client_age (req_client_age_s r) timeout) (\<lambda>age.
       Inr (\<lparr>vx = scaled (vx_limit L) x scale, vy = scaled (vy_limit L) y scale,
             wz = scaled (wz_limit L) z scale\<rparr>, scale, age)))))))"

definition submit_drive :: "pyval \<Rightarrow> pyval \<Rightarrow> pyval \<Rightarrow> drive_request \<Rightarrow> pyfloat \<Rightarrow> pyfloat \<Rightarrow> manager
    \<Rightarrow> (manager, int \<times> rat \<times> bool) outcome" where
  "submit_drive tok bind seq r t t2 m =
     with_now t m (\<lambda>now.
     if estop_latched m
     then (Inl (EmergencyStopLatched ''dashboard software stop is latched''), m)
     else
     obind (require_lease tok now bind True t2 m) (\<lambda>l m.
     obind (lift_exn (check_drive (lim m) r (command_timeout_for_source (input_source l) m)) m)
       (\<lambda>(v, scale, age) m.
     obind (lift_exn (validate_seq l seq) m) (\<lambda>l m.
     let m = m\<lparr>m_lease := Some l,
               m_drive := Some \<lparr>drive_seq = int_val seq, drive_at = fl (now - age),
                 drive_deadman = truthy (req_deadman r), drive_velocity = v, drive_scale = scale,
                 drive_source = input_source l\<rparr>\<rparr>;
         m = (if \<not> truthy (req_deadman r) then emit_stop ''deadman_released'' now True m else m)
     in (Inr (int_val seq, scale, truthy (req_deadman r)), m)))))"

fun find_action_id :: "int \<Rightarrow> (string \<times> int) list \<Rightarrow> (string \<times> int) option" where
  "find_action_id i [] = None"
| "find_action_id i ((name, n) # acts) = (if i = n then Some (name, n) else find_action_id i acts)"

definition resolve_action :: "pyval \<Rightarrow> manager \<Rightarrow> exn + string \<times> int" where
  "resolve_action action m =
     (let bad = Inl (CommandValidationError ''action is not allowlisted'')
      in case action of
           VBool _ \<Rightarrow> bad
         | VInt i \<Rightarrow> (case find_action_id i (allowed_actions (lim m)) of Some p \<Rightarrow> Inr p | None \<Rightarrow> bad)
         | v \<Rightarrow> let name = lower (strip (py_str v))
                in (case map_of (allowed_actions (lim m)) name of Some i \<Rightarrow> Inr (name, i) | None \<Rightarrow> bad))"

text \<open>A one-shot action consumes the lease: a stop, the action, and the guard window.\<close>

definition action_taken :: "string \<Rightarrow> int \<Rightarrow> int \<Rightarrow> rat \<Rightarrow> manager \<Rightarrow> manager" where
  "action_taken name action_id seq now m =
     (let m = emit_stop ''action_prepare'' now True (m\<lparr>m_drive := None\<rparr>)
      in m\<lparr>outputs := outputs m @ [Action name action_id seq now], m_lease := None,
           m_drive := None, actions := [], guard_name := name,
           guard_until := fl (now + the (map_of ACTION_GUARD_S name))\<rparr>)"

definition request_action :: "pyval \<Rightarrow> pyval \<Rightarrow> pyval \<Rightarrow> pyval \<Rightarrow> pyval \<Rightarrow> pyfloat \<Rightarrow> pyfloat \<Rightarrow> manager
    \<Rightarrow> (manager, string \<times> int \<times> int) outcome" where
  "request_action tok bind seq action confirm t t2 m =
     with_now t m (\<lambda>now.
     if estop_latched m
     then (Inl (EmergencyStopLatched ''dashboard software stop is latched''), m)
     else
     obind (require_lease tok now bind True t2 m) (\<lambda>l m.
     if motion_active m \<or> (case m_drive m of None \<Rightarrow> False | Some d \<Rightarrow> drive_deadman d)
     then (Inl (CommandValidationError ''release the deadman before running an action''), m)
     else
     obind (lift_exn (resolve_action action m) m) (\<lambda>(name, action_id) m.
     if name \<in> fst ` set SAFE_ACTIONS \<and> confirm \<noteq> VBool True
     then (Inl (CommandValidationError (name @ '' requires explicit confirmation'')), m)
     else
     obind (lift_exn (validate_seq l seq) m) (\<lambda>l m.
     let m = action_taken name action_id (int_val seq) now (m\<lparr>m_lease := Some l\<rparr>)
     in (Inr (name, action_id, int_val seq), m)))))"

subsection \<open>The software stop\<close>

definition drain_outputs :: "manager \<Rightarrow> envelope list \<times> manager" where
  "drain_outputs m = (outputs m, m\<lparr>outputs := []\<rparr>)"

record control_view =
  cv_enabled :: bool
  cv_ready :: bool
  cv_closed :: bool
  cv_estop :: "bool \<times> string option"
  cv_bridge_fresh :: bool
  cv_lowstate_fresh :: bool
  cv_guard :: "bool \<times> string option \<times> rat"
  cv_lease :: "lease_view option"
  cv_command :: "string option \<times> bool \<times> velocity"
  cv_limits :: limits
  cv_input_sources :: "string list"
  cv_actions :: "(string \<times> int \<times> bool) list"

definition seen_within :: "rat option \<Rightarrow> rat \<Rightarrow> rat \<Rightarrow> bool" where
  "seen_within seen now limit = (case seen of None \<Rightarrow> False | Some s \<Rightarrow> fl (now - s) < limit)"

definition snapshot :: "pyfloat \<Rightarrow> manager \<Rightarrow> (manager, control_view) outcome" where
  "snapshot t m = with_now t m (\<lambda>now.
     let m = snd (expire_command_if_needed now (snd (expire_if_needed now m)));
         (ready, m) = ready_at now m;
         (remaining, m) = action_guard_remaining now m
     in (Inr \<lparr>cv_enabled = m_enabled m, cv_ready = ready, cv_closed = m_closed m,
           cv_estop = (estop_latched m, if estop_reason m = [] then None else Some (estop_reason m)),
           cv_bridge_fresh = seen_within (bridge_seen m) now (bridge_stale_s (lim m)),
           cv_lowstate_fresh = seen_within (lowstate_seen m) now (lowstate_stale_s (lim m)),
           cv_guard = (0 < remaining, if guard_name m = [] then None else Some (guard_name m),
                       py_round 2 remaining),
           cv_lease = lease_public now m,
           cv_command = (last_command_source m, last_command_deadman m, last_velocity m),
           cv_limits = lim m, cv_input_sources = [''gamepad'', ''keyboard''],
           cv_actions = map (\<lambda>(name, i). (name, i, name \<in> fst ` set SAFE_ACTIONS)) (allowed_actions (lim m))\<rparr>, m))"

definition latch_stop :: "string \<Rightarrow> rat \<Rightarrow> manager \<Rightarrow> manager" where
  "latch_stop why now m = emit_stop ''emergency_stop'' now True
     (m\<lparr>estop_latched := True, estop_reason := (if why = [] then ''operator_estop'' else why),
        m_lease := None, m_drive := None, actions := [], guard_until := 0, guard_name := []\<rparr>)"

definition emergency_stop :: "pyval \<Rightarrow> pyfloat \<Rightarrow> pyfloat \<Rightarrow> manager \<Rightarrow> (manager, control_view) outcome" where
  "emergency_stop reason t t2 m =
     obind (lift_exn (ensure_open m) m) (\<lambda>_ m.
     with_now t m (\<lambda>now.
       snapshot t2 (latch_stop (take 128 (strip (py_str reason))) now m)))"

definition clear_emergency_stop :: "pyval \<Rightarrow> pyfloat \<Rightarrow> pyfloat \<Rightarrow> manager \<Rightarrow> (manager, control_view) outcome" where
  "clear_emergency_stop confirm t t2 m =
     obind (lift_exn (ensure_configured m) m) (\<lambda>_ m.
     if \<not> estop_latched m then snapshot t m
     else if confirm \<noteq> VBool True
     then (Inl (CommandValidationError ''clearing dashboard stop requires explicit confirmation''), m)
     else with_now t m (\<lambda>now.
       let (ready, m) = ready_at now m
       in if \<not> ready then (Inl (ControlNotReady ''bridge and lowstate must both be fresh''), m)
          else snapshot t2 (m\<lparr>estop_latched := False, estop_reason := [], m_lease := None, m_drive := None\<rparr>)))"

subsection \<open>The control tick\<close>

definition slew :: "rat \<Rightarrow> rat \<Rightarrow> rat \<Rightarrow> rat" where
  "slew current goal delta = max (fl (current - delta)) (min goal (fl (current + delta)))"

definition slewed :: "limits \<Rightarrow> rat \<Rightarrow> velocity \<Rightarrow> velocity \<Rightarrow> velocity" where
  "slewed L elapsed v goal =
     \<lparr>vx = slew (vx v) (vx goal) (fl (linear_slew L * elapsed)),
      vy = slew (vy v) (vy goal) (fl (lateral_slew L * elapsed)),
      wz = slew (wz v) (wz goal) (fl (angular_slew L * elapsed))\<rparr>"

definition moves :: "velocity \<Rightarrow> bool" where
  "moves v \<longleftrightarrow> fl (1/1000000000) < \<bar>vx v\<bar> \<or> fl (1/1000000000) < \<bar>vy v\<bar> \<or> fl (1/1000000000) < \<bar>wz v\<bar>"

definition elapsed_since :: "rat option \<Rightarrow> rat \<Rightarrow> rat" where
  "elapsed_since before now =
     (case before of None \<Rightarrow> fl (2/100) | Some s \<Rightarrow> max 0 (min (fl (now - s)) (1/4)))"

definition emit_drive :: "drive \<Rightarrow> rat \<Rightarrow> rat \<Rightarrow> manager \<Rightarrow> manager" where
  "emit_drive d elapsed now m =
     (let v = slewed (lim m) elapsed (last_velocity m) (drive_velocity d)
      in m\<lparr>last_velocity := v, last_command_source := Some (drive_source d), last_command_deadman := True,
           motion_active := moves v, stop_emitted := \<not> moves v,
           outputs := outputs m @ [Drive (drive_seq d) (drive_source d) v now]\<rparr>)"

definition tick_body :: "rat \<Rightarrow> rat \<Rightarrow> pyfloat \<Rightarrow> manager \<Rightarrow> (manager, unit) outcome" where
  "tick_body now elapsed t2 m =
     (let (expired, m) = expire_if_needed now m
      in if expired then (Inr (), m)
      else let (ready, m1) = (if m_lease m = None then (True, m) else ready_at now m)
      in if \<not> ready then fail_closed ''readiness_stale'' t2 m1
      else if estop_latched m1 then (Inr (), emit_stop ''emergency_stop'' now False m1)
      else if m_lease m1 = None then (Inr (), m1)
      else let m2 = m1\<lparr>outputs := outputs m1 @ actions m1, actions := []\<rparr>
      in case m_drive m2 of
           None \<Rightarrow> (Inr (), m2)
         | Some d \<Rightarrow>
             if \<not> drive_deadman d then (Inr (), emit_stop ''deadman_released'' now False m2)
             else let (late, m3) = expire_command_if_needed now m2
                  in (Inr (), if late then m3 else emit_drive d elapsed now m3))"

definition tick :: "pyfloat \<Rightarrow> pyfloat \<Rightarrow> manager \<Rightarrow> (manager, envelope list) outcome" where
  "tick t t2 m =
     obind (lift_exn (ensure_open m) m) (\<lambda>_ m.
     with_now t m (\<lambda>now.
     obind (tick_body now (elapsed_since (last_tick m) now) t2 (m\<lparr>last_tick := Some now\<rparr>)) (\<lambda>_ m.
       (Inr (fst (drain_outputs m)), snd (drain_outputs m)))))"

definition shut_down :: "rat \<Rightarrow> manager \<Rightarrow> manager" where
  "shut_down now m = (emit_stop ''manager_closed'' now True
     (m\<lparr>m_lease := None, m_drive := None, actions := [], guard_until := 0, guard_name := []\<rparr>))
     \<lparr>m_closed := True\<rparr>"

definition close :: "pyfloat \<Rightarrow> manager \<Rightarrow> (manager, unit) outcome" where
  "close t m = (if m_closed m then (Inr (), m) else with_now t m (\<lambda>now. (Inr (), shut_down now m)))"

subsection \<open>Browser frame times\<close>

record frame_clock =
  offset_ms :: rat
  last_client_ms :: rat
  last_server_ms :: rat

definition finite_ms :: "pyval \<Rightarrow> exn + rat" where
  "finite_ms v =
     (if \<not> is_number v then Inl (CommandValidationError ''client_time_ms must be a finite number'')
      else sbind (py_float v) (\<lambda>f.
        if \<not> is_finite f \<or> fin_val f < 0
        then Inl (CommandValidationError ''client_time_ms must be a finite number'')
        else Inr (fin_val f)))"

definition frame_clock_init :: "pyval \<Rightarrow> pyval \<Rightarrow> exn + frame_clock" where
  "frame_clock_init client_time server_time =
     sbind (finite_ms client_time) (\<lambda>client.
     sbind (finite_ms server_time) (\<lambda>server.
       Inr \<lparr>offset_ms = fl (server - client), last_client_ms = client, last_server_ms = server\<rparr>))"

definition validate_frame :: "pyval \<Rightarrow> pyval \<Rightarrow> frame_clock \<Rightarrow> (frame_clock, rat) outcome" where
  "validate_frame client_time server_time c =
     obind (lift_exn (finite_ms client_time) c) (\<lambda>client c.
     obind (lift_exn (finite_ms server_time) c) (\<lambda>server c.
     let client_elapsed = fl (client - last_client_ms c);
         server_elapsed = fl (server - last_server_ms c);
         age = fl (server - fl (client + offset_ms c))
     in if client_elapsed < 0 \<or> server_elapsed < 0
        then (Inl (CommandValidationError ''control clock moved backwards; re-arm is required''), c)
        else if 200 < fl (server_elapsed - client_elapsed)
        then (Inl (CommandValidationError ''queued control frame; re-arm is required''), c)
        else if 200 < age
        then (Inl (CommandValidationError ''stale control frame; re-arm is required''), c)
        else if age < - 500
        then (Inl (CommandValidationError ''client clock changed; re-arm is required''), c)
        else (Inr age, c\<lparr>last_client_ms := client, last_server_ms := server\<rparr>)))"

end
