(* ===== verification/Control_Safety.thy ===== *)
theory Control_Safety
  imports Control_Manager Latch
begin

text \<open>
  What the control manager promises: its invariant, kept by every method on every path,
  exceptions included; the evidence behind every drive envelope; the software stop as a latch;
  the fate of a lease.
\<close>

subsection \<open>The invariant\<close>

definition speeds_ok :: "limits \<Rightarrow> bool" where
  "speeds_ok L \<longleftrightarrow>
     is_double (vx_limit L) \<and> 0 \<le> vx_limit L \<and> vx_limit L \<le> 1
     \<and> is_double (vy_limit L) \<and> 0 \<le> vy_limit L \<and> vy_limit L \<le> fl (20/100)
     \<and> is_double (wz_limit L) \<and> 0 \<le> wz_limit L \<and> wz_limit L \<le> 1/2
     \<and> 0 \<le> linear_slew L \<and> 0 \<le> lateral_slew L \<and> 0 \<le> angular_slew L"

definition slow_enough :: "limits \<Rightarrow> velocity \<Rightarrow> bool" where
  "slow_enough L v \<longleftrightarrow> \<bar>vx v\<bar> \<le> vx_limit L \<and> \<bar>vy v\<bar> \<le> vy_limit L \<and> \<bar>wz v\<bar> \<le> wz_limit L"

fun is_drive :: "envelope \<Rightarrow> bool" where
  "is_drive (Drive _ _ _ _) = True"
| "is_drive _ = False"

definition idle_unleased :: "manager \<Rightarrow> bool" where
  \<comment> \<open>without a lease there is no drive, and nothing moves\<close>
  "idle_unleased m \<longleftrightarrow> (m_lease m = None \<longrightarrow> m_drive m = None \<and> \<not> motion_active m)"

definition no_lease_when_barred :: "manager \<Rightarrow> bool" where
  "no_lease_when_barred m \<longleftrightarrow> (estop_latched m \<or> m_closed m \<or> \<not> m_enabled m \<longrightarrow> m_lease m = None)"

definition drive_ok :: "manager \<Rightarrow> bool" where
  "drive_ok m \<longleftrightarrow> (\<forall>d l. m_drive m = Some d \<longrightarrow> m_lease m = Some l \<longrightarrow>
     slow_enough (lim m) (drive_velocity d) \<and> drive_seq d \<le> last_seq l \<and> drive_source d = input_source l)"

definition queue_ok :: "manager \<Rightarrow> bool" where
  "queue_ok m \<longleftrightarrow> actions m = [] \<and> list_all (\<lambda>e. \<not> is_drive e) (outputs m)"

definition control_inv :: "manager \<Rightarrow> bool" where
  "control_inv m \<longleftrightarrow> speeds_ok (lim m) \<and> slow_enough (lim m) (last_velocity m)
     \<and> idle_unleased m \<and> no_lease_when_barred m \<and> drive_ok m \<and> queue_ok m"

lemmas control_inv_defs = control_inv_def idle_unleased_def no_lease_when_barred_def
  drive_ok_def queue_ok_def

lemma slow_enough_still: "speeds_ok L \<Longrightarrow> slow_enough L still"
  by (simp add: speeds_ok_def slow_enough_def)

lemma revoke_fields [simp]:
  "m_lease (revoke reason now m) = None" "m_drive (revoke reason now m) = None"
  "motion_active (revoke reason now m) = False" "lim (revoke reason now m) = lim m"
  "m_closed (revoke reason now m) = m_closed m" "m_enabled (revoke reason now m) = m_enabled m"
  "estop_latched (revoke reason now m) = estop_latched m"
  by (simp_all add: revoke_def emit_stop_def)

lemma action_guard_remaining_keeps [simp]:
  "m_lease (snd (action_guard_remaining now m)) = m_lease m"
  "m_drive (snd (action_guard_remaining now m)) = m_drive m"
  "lim (snd (action_guard_remaining now m)) = lim m"
  "estop_latched (snd (action_guard_remaining now m)) = estop_latched m"
  "m_closed (snd (action_guard_remaining now m)) = m_closed m"
  "m_enabled (snd (action_guard_remaining now m)) = m_enabled m"
  "outputs (snd (action_guard_remaining now m)) = outputs m"
  "actions (snd (action_guard_remaining now m)) = actions m"
  "last_velocity (snd (action_guard_remaining now m)) = last_velocity m"
  "motion_active (snd (action_guard_remaining now m)) = motion_active m"
  by (simp_all add: action_guard_remaining_def Let_def)

lemma ready_at_keeps [simp]:
  "m_lease (snd (ready_at now m)) = m_lease m"
  "m_drive (snd (ready_at now m)) = m_drive m"
  "lim (snd (ready_at now m)) = lim m"
  "estop_latched (snd (ready_at now m)) = estop_latched m"
  "m_closed (snd (ready_at now m)) = m_closed m"
  "m_enabled (snd (ready_at now m)) = m_enabled m"
  "outputs (snd (ready_at now m)) = outputs m"
  "actions (snd (ready_at now m)) = actions m"
  "last_velocity (snd (ready_at now m)) = last_velocity m"
  "motion_active (snd (ready_at now m)) = motion_active m"
  by (simp_all add: ready_at_def)

lemma ensure_configured_iff: "ensure_configured m = Inr u \<longleftrightarrow> \<not> m_closed m \<and> m_enabled m"
  by (auto simp: ensure_configured_def ensure_open_def sbind_Inr_iff)

lemma expire_if_needed_keeps [simp]:
  "m_closed (snd (expire_if_needed now m)) = m_closed m"
  "m_enabled (snd (expire_if_needed now m)) = m_enabled m"
  "lim (snd (expire_if_needed now m)) = lim m"
  "estop_latched (snd (expire_if_needed now m)) = estop_latched m"
  by (auto simp: expire_if_needed_def revoke_def emit_stop_def Let_def split: option.split)

lemma expire_command_if_needed_keeps [simp]:
  "m_closed (snd (expire_command_if_needed now m)) = m_closed m"
  "m_enabled (snd (expire_command_if_needed now m)) = m_enabled m"
  "lim (snd (expire_command_if_needed now m)) = lim m"
  "estop_latched (snd (expire_command_if_needed now m)) = estop_latched m"
  by (auto simp: expire_command_if_needed_def revoke_def emit_stop_def Let_def split: option.split)

lemma validate_seq_ok:
  "validate_seq l seq = Inr l' \<Longrightarrow> l' = l\<lparr>last_seq := int_val seq\<rparr> \<and> last_seq l < int_val seq \<and> is_plain_int seq
    \<and> 0 \<le> int_val seq"
  by (auto simp: validate_seq_def split: if_splits)

lemma scaled_abs: "0 \<le> limit \<Longrightarrow> \<bar>scaled limit v scale\<bar> \<le> limit"
  by (simp add: scaled_def clamp_abs)

lemma check_drive_ok:
  assumes "check_drive L r timeout = Inr (v, scale, age)"
  shows "is_bool (req_deadman r)" "0 \<le> age" "age \<le> timeout" "speeds_ok L \<Longrightarrow> slow_enough L v"
  using assms
  by (auto simp: check_drive_def sbind_Inr_iff client_age_def slow_enough_def speeds_ok_def scaled_abs
      split: if_splits)

lemmas check_drive_slow = check_drive_ok(4)

text \<open>What \<^verbatim>\<open>_require_lease\<close> hands out is the lease in force, and the manager may be used.\<close>

lemma require_lease_ok:
  assumes "require_lease tok now bind need t2 m = (Inr l, s)"
  shows "m_lease s = Some l" "m_enabled s" "\<not> m_closed s" "estop_latched s = estop_latched m" "lim s = lim m"
proof -
  have *: "m_lease s = Some l \<and> m_enabled s \<and> \<not> m_closed s \<and> estop_latched s = estop_latched m \<and> lim s = lim m"
    using assms unfolding require_lease_def
    by (auto simp: Let_def split_beta obind_def ensure_configured_iff split: option.splits sum.splits
        prod.splits if_splits)
  then show "m_lease s = Some l" "m_enabled s" "\<not> m_closed s" "estop_latched s = estop_latched m"
    "lim s = lim m" by simp_all
qed


subsection \<open>Properties that the primitive updates keep\<close>

text \<open>
  The methods are built from few state changes: a revocation, a stop, an elapsed guard, new
  evidence, a granted, bound or refreshed lease, a stored drive, a taken action, a latched stop
  and the shutdown. A property of the manager that each of them keeps is kept by every method
  but the release of the software stop and the draining of the queue.
\<close>

locale kept =
  fixes P :: "manager \<Rightarrow> bool"
  assumes revoked: "P m \<Longrightarrow> P (revoke reason now m)"
    and stopped: "P m \<Longrightarrow> P (emit_stop reason now force m)"
    and guard_elapsed: "P m \<Longrightarrow> P (m\<lparr>guard_until := 0, guard_name := []\<rparr>)"
    and observed: "P m \<Longrightarrow> P (m\<lparr>bridge_seen := b, lowstate_seen := l\<rparr>)"
    and granted: "P m \<Longrightarrow> m_lease m = None \<Longrightarrow> \<not> estop_latched m \<Longrightarrow> \<not> m_closed m \<Longrightarrow> m_enabled m
      \<Longrightarrow> P (m\<lparr>m_lease := Some grant, lease_end_reason := []\<rparr>)"
    and bound: "P m \<Longrightarrow> m_lease m = Some held
      \<Longrightarrow> P (m\<lparr>m_lease := Some (held\<lparr>binding := bnd, heartbeat_at := h\<rparr>)\<rparr>)"
    and refreshed: "P m \<Longrightarrow> m_lease m = Some held \<Longrightarrow> last_seq held < n
      \<Longrightarrow> P (m\<lparr>m_lease := Some (held\<lparr>last_seq := n, heartbeat_at := h\<rparr>)\<rparr>)"
    and driven: "P m \<Longrightarrow> m_lease m = Some held \<Longrightarrow> last_seq held < n
      \<Longrightarrow> (speeds_ok (lim m) \<Longrightarrow> slow_enough (lim m) v)
      \<Longrightarrow> P (m\<lparr>m_lease := Some (held\<lparr>last_seq := n\<rparr>),
            m_drive := Some \<lparr>drive_seq = n, drive_at = t0, drive_deadman = pressed, drive_velocity = v,
              drive_scale = c, drive_source = input_source held\<rparr>\<rparr>)"
    and acted: "P m \<Longrightarrow> m_lease m \<noteq> None \<Longrightarrow> P (action_taken name i n now (m\<lparr>m_lease := Some held'\<rparr>))"
    and latched: "P m \<Longrightarrow> P (latch_stop why now m)"
    and shut: "P m \<Longrightarrow> P (shut_down now m)"
begin

lemma with_now: "P m \<Longrightarrow> (\<And>now. t = Fin now \<Longrightarrow> P (snd (f now))) \<Longrightarrow> P (snd (with_now t m f))"
  by (cases t) (simp_all add: with_now_def)

lemma after:
  assumes "P (snd r)" "\<And>x s. r = (Inr x, s) \<Longrightarrow> P s \<Longrightarrow> P (snd (f x s))"
  shows "P (snd (obind r f))"
  using assms by (intro obind_keeps [where P = P]) auto

lemma checked: "P m \<Longrightarrow> (\<And>x. r = Inr x \<Longrightarrow> P (snd (f x m))) \<Longrightarrow> P (snd (obind (r, m) f))"
  by (rule after) simp_all

lemma observed1: "P m \<Longrightarrow> P (m\<lparr>bridge_seen := b\<rparr>)" "P m \<Longrightarrow> P (m\<lparr>lowstate_seen := l\<rparr>)"
  using observed [where m = m and b = b and l = "lowstate_seen m"]
    observed [where m = m and b = "bridge_seen m" and l = l] by simp_all

lemma action_guard_remaining: "P m \<Longrightarrow> P (snd (action_guard_remaining now m))"
  by (simp add: action_guard_remaining_def Let_def guard_elapsed)

lemma ready_at: "P m \<Longrightarrow> P (snd (ready_at now m))"
  by (simp add: ready_at_def action_guard_remaining)

lemma expire_if_needed: "P m \<Longrightarrow> P (snd (expire_if_needed now m))"
  by (auto simp: expire_if_needed_def Let_def revoked split: option.split)

lemma expire_command_if_needed: "P m \<Longrightarrow> P (snd (expire_command_if_needed now m))"
  by (auto simp: expire_command_if_needed_def revoked split: option.split)

lemma fail_closed: "P m \<Longrightarrow> P (snd (fail_closed reason t m))"
  by (auto simp: fail_closed_def intro!: with_now revoked)

lemma note_bridge: "P m \<Longrightarrow> P (snd (note_bridge ready t m))"
  unfolding note_bridge_def by (auto intro!: checked with_now observed1 fail_closed)

lemma note_lowstate: "P m \<Longrightarrow> P (snd (note_lowstate fresh t m))"
  unfolding note_lowstate_def by (auto intro!: checked with_now observed1 fail_closed)

lemma set_readiness: "P m \<Longrightarrow> P (snd (set_readiness b l t t2 m))"
  unfolding set_readiness_def Let_def by (auto intro!: checked with_now observed fail_closed)

lemma acquire: "P m \<Longrightarrow> P (snd (acquire source nav fresh t m))"
  unfolding acquire_def
  by (auto simp: Let_def ensure_configured_iff split_beta
       intro!: with_now checked granted ready_at action_guard_remaining expire_if_needed)

lemma require_lease: "P m \<Longrightarrow> P (snd (require_lease tok now bind need t2 m))"
  unfolding require_lease_def
  by (auto simp: Let_def split_beta split: option.split
       intro!: checked after ready_at fail_closed expire_if_needed expire_command_if_needed)

lemma leased:
  assumes "P m"
    "\<And>l s. require_lease tok now bind need t2 m = (Inr l, s) \<Longrightarrow> P s \<Longrightarrow> m_lease s = Some l \<Longrightarrow> P (snd (f l s))"
  shows "P (snd (obind (require_lease tok now bind need t2 m) f))"
  by (rule after) (use assms require_lease require_lease_ok(1) in auto)

lemma bind_lease: "P m \<Longrightarrow> P (snd (bind_lease tok bind t t2 m))"
  unfolding bind_lease_def
  by (auto simp: Let_def split: option.split intro!: with_now leased checked bound)

lemma heartbeat: "P m \<Longrightarrow> P (snd (heartbeat tok bind seq t t2 m))"
  unfolding heartbeat_def
  by (auto simp: Let_def intro!: with_now leased checked refreshed dest!: validate_seq_ok)

lemma release_lease: "P m \<Longrightarrow> P (snd (release_lease tok bind t t2 m))"
  unfolding release_lease_def by (auto simp: Let_def intro!: with_now leased revoked)

lemma submit_drive: "P m \<Longrightarrow> P (snd (submit_drive tok bind seq r t t2 m))"
  unfolding submit_drive_def
  by (auto simp: Let_def split_beta check_drive_slow
      intro!: with_now leased checked stopped driven dest!: validate_seq_ok)

lemma request_action: "P m \<Longrightarrow> P (snd (request_action tok bind seq action confirm t t2 m))"
  unfolding request_action_def
  by (auto simp: Let_def split_beta intro!: with_now leased checked acted)

lemma snapshot: "P m \<Longrightarrow> P (snd (snapshot t m))"
  unfolding snapshot_def
  by (auto simp: Let_def split_beta intro!: with_now action_guard_remaining ready_at
      expire_if_needed expire_command_if_needed)

lemma emergency_stop: "P m \<Longrightarrow> P (snd (emergency_stop reason t t2 m))"
  unfolding emergency_stop_def by (auto intro!: with_now checked snapshot latched)

lemma close: "P m \<Longrightarrow> P (snd (close t m))"
  unfolding close_def by (auto intro!: with_now shut)

end

subsection \<open>The invariant is kept\<close>

interpretation inv: kept control_inv
  by unfold_locales
    (auto simp: control_inv_defs revoke_def emit_stop_def action_taken_def latch_stop_def shut_down_def
      slow_enough_still Let_def)

lemma unlatched_inv:
  "control_inv m \<Longrightarrow> estop_latched m
    \<Longrightarrow> control_inv (m\<lparr>estop_latched := False, estop_reason := [], m_lease := None, m_drive := None\<rparr>)"
  by (auto simp: control_inv_defs)

lemma clear_emergency_stop_inv [inv_intro]:
  "control_inv m \<Longrightarrow> control_inv (snd (clear_emergency_stop confirm t t2 m))"
  unfolding clear_emergency_stop_def
  by (auto simp: Let_def split_beta
      intro!: inv.with_now inv.checked inv.snapshot unlatched_inv inv.ready_at)

lemma drain_outputs_inv [inv_intro]: "control_inv m \<Longrightarrow> control_inv (snd (drain_outputs m))"
  by (auto simp: control_inv_defs drain_outputs_def)

text \<open>The slew step stays between the two speeds, up to rounding, and so inside the limits.\<close>

lemma slew_abs:
  assumes "is_double m" "0 \<le> m" "\<bar>v\<bar> \<le> m" "\<bar>goal\<bar> \<le> m" "0 \<le> delta"
  shows "\<bar>slew v goal delta\<bar> \<le> m"
proof -
  have "fl (v - delta) \<le> m" by (rule fl_le_double) (use assms in auto)
  moreover have "- m \<le> fl (v + delta)" by (rule fl_ge_double) (use assms in auto)
  ultimately show ?thesis using assms by (auto simp: slew_def abs_le_iff)
qed

lemma slewed_slow_enough:
  assumes "speeds_ok L" "slow_enough L v" "slow_enough L goal" "0 \<le> elapsed"
  shows "slow_enough L (slewed L elapsed v goal)"
  using assms by (auto simp: slow_enough_def slewed_def speeds_ok_def intro!: slew_abs fl_nonneg)

lemma elapsed_nonneg: "0 \<le> elapsed_since before now"
  by (auto simp: elapsed_since_def intro!: fl_nonneg split: option.split)


lemma no_outputs_inv: "control_inv m \<Longrightarrow> control_inv (m\<lparr>outputs := []\<rparr>)"
  by (auto simp: control_inv_defs)

lemma emit_drive_inv:
  assumes "control_inv m" "m_drive m = Some d" "m_lease m \<noteq> None" "0 \<le> elapsed"
  shows "control_inv ((emit_drive d elapsed now m)\<lparr>outputs := []\<rparr>)"
  using assms slewed_slow_enough [of "lim m" "last_velocity m" "drive_velocity d" elapsed]
  by (auto simp: control_inv_defs emit_drive_def Let_def)

lemma no_actions: "control_inv m \<Longrightarrow> m\<lparr>outputs := outputs m @ actions m, actions := []\<rparr> = m"
  by (simp add: control_inv_defs)

lemma expire_command_if_needed_False:
  "\<not> fst (expire_command_if_needed now m) \<Longrightarrow> snd (expire_command_if_needed now m) = m"
  by (auto simp: expire_command_if_needed_def split: option.splits if_splits)

lemma last_tick_inv: "control_inv m \<Longrightarrow> control_inv (m\<lparr>last_tick := x\<rparr>)"
  by (auto simp: control_inv_defs)

text \<open>The tick before its queue is drained.\<close>

lemma tick_body_inv:
  assumes "control_inv m" "0 \<le> elapsed" "tick_body now elapsed t2 m = (r, s)"
  shows "control_inv (s\<lparr>outputs := []\<rparr>) \<and> (\<forall>e. r = Inl e \<longrightarrow> control_inv s)"
proof -
  define m1 where "m1 = snd (expire_if_needed now m)"
  define m2 where "m2 = snd (ready_at now m1)"
  have m1: "control_inv m1" using assms(1) by (simp add: m1_def inv.expire_if_needed)
  have m2: "control_inv m2" "m_lease m2 = m_lease m1" "m_drive m2 = m_drive m1"
    using m1 by (simp_all add: m2_def inv.ready_at)
  have fail: "control_inv (snd (fail_closed ''readiness_stale'' t2 m2))"
    using m2(1) by (rule inv.fail_closed)
  have late: "control_inv (snd (expire_command_if_needed now m2))"
    using m2(1) by (rule inv.expire_command_if_needed)
  have drv: "control_inv ((emit_drive d elapsed now m2)\<lparr>outputs := []\<rparr>)"
    if "m_drive m2 = Some d" "m_lease m2 = Some l" for d l
    using emit_drive_inv [OF m2(1) that(1) _ assms(2)] that by simp
  show ?thesis
    using assms(3) m1 m2 fail late
    unfolding tick_body_def Let_def split_beta m1_def [symmetric] m2_def [symmetric]
    by (auto simp: no_actions Let_def split_beta expire_command_if_needed_False m2_def [symmetric]
        intro: no_outputs_inv inv.stopped drv split: if_splits option.splits)
qed

lemma tick_inv [inv_intro]:
  assumes "control_inv m" shows "control_inv (snd (tick t t2 m))"
proof -
  have body: "control_inv (s\<lparr>outputs := []\<rparr>) \<and> (\<forall>e. r = Inl e \<longrightarrow> control_inv s)"
    if "tick_body now (elapsed_since (last_tick m) now) t2 (m\<lparr>last_tick := Some now\<rparr>) = (r, s)" for now r s
    using tick_body_inv [OF last_tick_inv [OF assms] elapsed_nonneg that] .
  show ?thesis
    unfolding tick_def drain_outputs_def using assms
    by (auto simp: obind_def with_now_def split: prod.splits sum.splits pyfloat.splits dest: body)
qed

end
