(* ===== verification/Control_Authority.thy ===== *)
theory Control_Authority
  imports Control_Safety
begin

text \<open>
  The properties of the dashboard's control authority, over single calls and over every
  sequence of calls of \<^verbatim>\<open>ControlManager\<close>, and a manager on which they apply.
\<close>

subsection \<open>Calls as events\<close>

datatype control_event =
    NoteBridge bool pyfloat
  | NoteLowstate bool pyfloat
  | SetReadiness bool bool pyfloat pyfloat
  | AcquireLease pyval pyval pyfloat
  | AcquireNavigation pyval pyfloat
  | BindLease pyval pyval pyfloat pyfloat
  | Heartbeat pyval pyval pyval pyfloat pyfloat
  | SubmitDrive pyval pyval pyval drive_request pyfloat pyfloat
  | RequestAction pyval pyval pyval pyval pyval pyfloat pyfloat
  | ReleaseLease pyval pyval pyfloat pyfloat
  | EmergencyStop pyval pyfloat pyfloat
  | ClearEmergencyStop pyval pyfloat pyfloat
  | ControlTick pyfloat pyfloat
  | DrainOutputs
  | Snapshot pyfloat
  | CloseManager pyfloat

fun sent :: "exn + envelope list \<Rightarrow> envelope list" where
  "sent (Inl _) = []"
| "sent (Inr es) = es"

fun control_step :: "manager \<Rightarrow> control_event \<Rightarrow> manager \<times> envelope list" where
  "control_step m (NoteBridge ready t) = (snd (note_bridge ready t m), [])"
| "control_step m (NoteLowstate fresh t) = (snd (note_lowstate fresh t m), [])"
| "control_step m (SetReadiness b l t t2) = (snd (set_readiness b l t t2 m), [])"
| "control_step m (AcquireLease source fresh t) = (snd (acquire_lease source fresh t m), [])"
| "control_step m (AcquireNavigation fresh t) = (snd (acquire_navigation_lease fresh t m), [])"
| "control_step m (BindLease tok bind t t2) = (snd (bind_lease tok bind t t2 m), [])"
| "control_step m (Heartbeat tok bind seq t t2) = (snd (heartbeat tok bind seq t t2 m), [])"
| "control_step m (SubmitDrive tok bind seq r t t2) = (snd (submit_drive tok bind seq r t t2 m), [])"
| "control_step m (RequestAction tok bind seq action confirm t t2) =
     (snd (request_action tok bind seq action confirm t t2 m), [])"
| "control_step m (ReleaseLease tok bind t t2) = (snd (release_lease tok bind t t2 m), [])"
| "control_step m (EmergencyStop reason t t2) = (snd (emergency_stop reason t t2 m), [])"
| "control_step m (ClearEmergencyStop confirm t t2) = (snd (clear_emergency_stop confirm t t2 m), [])"
| "control_step m (ControlTick t t2) = (snd (tick t t2 m), sent (fst (tick t t2 m)))"
| "control_step m DrainOutputs = (snd (drain_outputs m), fst (drain_outputs m))"
| "control_step m (Snapshot t) = (snd (snapshot t m), [])"
| "control_step m (CloseManager t) = (snd (close t m), [])"

lemma control_step_inv: "control_inv m \<Longrightarrow> control_inv (fst (control_step m e))"
  by (cases e)
    (simp_all add: acquire_lease_def acquire_navigation_lease_def inv.note_bridge inv.note_lowstate
      inv.set_readiness inv.acquire inv.bind_lease inv.heartbeat inv.submit_drive inv.request_action
      inv.release_lease inv.emergency_stop inv.snapshot inv.close clear_emergency_stop_inv tick_inv
      drain_outputs_inv)

interpretation manager: machine control_step control_inv
  by unfold_locales (rule control_step_inv)

subsection \<open>What a tick emits\<close>

lemma expire_if_needed_False:
  "\<not> fst (expire_if_needed now m) \<Longrightarrow> snd (expire_if_needed now m) = m"
  by (auto simp: expire_if_needed_def Let_def split: option.splits if_splits)

lemma emit_stop_outputs:
  "outputs (emit_stop reason now force m) = outputs m \<or> outputs (emit_stop reason now force m) = outputs m @ [Stop reason still now]"
  by (simp add: emit_stop_def)

lemma revoke_outputs [simp]: "outputs (revoke reason now m) = outputs m @ [Stop reason still now]"
  by (simp add: revoke_def emit_stop_def)

lemma fail_closed_outputs:
  "outputs (snd (fail_closed reason t m)) = outputs m
    \<or> (\<exists>now. outputs (snd (fail_closed reason t m)) = outputs m @ [Stop reason still now])"
  by (cases t) (auto simp: fail_closed_def with_now_def)

definition lease_live :: "rat \<Rightarrow> manager \<Rightarrow> lease \<Rightarrow> bool" where
  "lease_live now m l \<longleftrightarrow>
     fl (now - heartbeat_at l) < (if binding l = None then lease_bind_s (lim m) else lease_heartbeat_s (lim m))"

lemma lease_live_iff: "m_lease m = Some l \<Longrightarrow> fst (expire_if_needed now m) \<longleftrightarrow> \<not> lease_live now m l"
  by (auto simp: expire_if_needed_def lease_live_def Let_def)

definition drive_evidence :: "rat \<Rightarrow> manager \<Rightarrow> lease \<Rightarrow> drive \<Rightarrow> bool" where
  "drive_evidence now m l d \<longleftrightarrow>
     m_lease m = Some l \<and> lease_live now m l \<and> m_drive m = Some d \<and> drive_deadman d
     \<and> fl (now - drive_at d) < command_timeout_for_source (drive_source d) m
     \<and> fst (ready_at now m) \<and> \<not> estop_latched m"

text \<open>The tick's branches, once the invariant has ruled out a lease under a latched stop.\<close>

lemma tick_body_eq:
  fixes now :: rat
  assumes "control_inv m"
  defines "m2 \<equiv> snd (ready_at now m)"
  shows "tick_body now elapsed t2 m =
    (if fst (expire_if_needed now m) then (Inr (), snd (expire_if_needed now m))
     else if m_lease m = None
     then (Inr (), if estop_latched m then emit_stop ''emergency_stop'' now False m else m)
     else if \<not> fst (ready_at now m) then fail_closed ''readiness_stale'' t2 m2
     else case m_drive m of
            None \<Rightarrow> (Inr (), m2)
          | Some d \<Rightarrow>
              (Inr (), if \<not> drive_deadman d then emit_stop ''deadman_released'' now False m2
                       else if fst (expire_command_if_needed now m2) then snd (expire_command_if_needed now m2)
                       else emit_drive d elapsed now m2))"
proof -
  have inv2: "control_inv m2" using assms(1) by (simp add: m2_def inv.ready_at)
  have latch: "m_lease m \<noteq> None \<Longrightarrow> \<not> estop_latched m" using assms(1) by (auto simp: control_inv_defs)
  note unf = tick_body_def Let_def split_beta
  show ?thesis
  proof (cases "fst (expire_if_needed now m)")
    case True
    then show ?thesis by (simp add: unf)
  next
    case False
    note m = expire_if_needed_False [OF this]
    show ?thesis
    proof (cases "m_lease m = None")
      case True
      with False m show ?thesis by (simp add: unf)
    next
      case leased: False
      have keep: "m_lease m2 = m_lease m" "m_drive m2 = m_drive m" "estop_latched m2 = estop_latched m"
        by (simp_all add: m2_def)
      note facts = False m leased latch [OF leased] keep no_actions [OF inv2]
      show ?thesis
      proof (cases "m_drive m")
        case None
        then show ?thesis using facts by (auto simp: unf m2_def [symmetric])
      next
        case (Some d)
        then show ?thesis using facts expire_command_if_needed_False [of now m2]
          by (cases "fst (expire_command_if_needed now m2)") (auto simp: unf m2_def [symmetric])
      qed
    qed
  qed
qed

lemma expire_if_needed_outputs:
  "fst (expire_if_needed now m) \<Longrightarrow> outputs (snd (expire_if_needed now m)) = outputs m @ [Stop ''lease_expired'' still now]"
  by (auto simp: expire_if_needed_def Let_def split: option.splits if_splits)

lemma expire_command_outputs:
  "fst (expire_command_if_needed now m)
    \<Longrightarrow> outputs (snd (expire_command_if_needed now m)) = outputs m @ [Stop ''command_timeout'' still now]"
  by (auto simp: expire_command_if_needed_def split: option.splits if_splits)

lemma expire_command_iff:
  "m_lease m = Some l \<Longrightarrow> m_drive m = Some d \<Longrightarrow> drive_deadman d \<Longrightarrow>
     fst (expire_command_if_needed now m) \<longleftrightarrow> \<not> fl (now - drive_at d) < command_timeout_for_source (drive_source d) m"
  by (simp add: expire_command_if_needed_def)

lemma command_timeout_keeps [simp]:
  "command_timeout_for_source src (snd (ready_at now m)) = command_timeout_for_source src m"
  by (simp add: command_timeout_for_source_def)

lemma emit_drive_outputs:
  "outputs (emit_drive d elapsed now m) = outputs m @ [Drive (drive_seq d) (drive_source d)
     (slewed (lim m) elapsed (last_velocity m) (drive_velocity d)) now]"
  by (simp add: emit_drive_def Let_def)

lemma tick_body_outputs:
  assumes "control_inv m" "tick_body now elapsed t2 m = (r, s)"
  shows "list_all (\<lambda>e. \<not> is_drive e) (outputs s)
    \<or> (\<exists>l d. drive_evidence now m l d
         \<and> outputs s = outputs m @ [Drive (drive_seq d) (drive_source d)
             (slewed (lim m) elapsed (last_velocity m) (drive_velocity d)) now])"
proof -
  have q: "list_all (\<lambda>e. \<not> is_drive e) (outputs m)" using assms(1) by (simp add: control_inv_defs)
  have latch: "m_lease m \<noteq> None \<Longrightarrow> \<not> estop_latched m" using assms(1) by (auto simp: control_inv_defs)
  let ?m2 = "snd (ready_at now m)"
  consider "fst (expire_if_needed now m)" | "\<not> fst (expire_if_needed now m)" "m_lease m = None"
    | "\<not> fst (expire_if_needed now m)" "m_lease m \<noteq> None" "\<not> fst (ready_at now m)"
    | l where "\<not> fst (expire_if_needed now m)" "m_lease m = Some l" "fst (ready_at now m)" by blast
  then show ?thesis
  proof cases
    case 1
    then show ?thesis using assms q by (auto simp: tick_body_eq expire_if_needed_outputs)
  next
    case 2
    then show ?thesis using assms q emit_stop_outputs [of "''emergency_stop''" now False m]
      by (auto simp: tick_body_eq)
  next
    case 3
    then show ?thesis using assms q fail_closed_outputs [of "''readiness_stale''" t2 ?m2]
      by (auto simp: tick_body_eq)
  next
    case (4 l)
    show ?thesis
    proof (cases "m_drive m")
      case None
      then show ?thesis using assms q 4 by (auto simp: tick_body_eq)
    next
      case (Some d)
      consider "\<not> drive_deadman d" | "drive_deadman d" "fst (expire_command_if_needed now ?m2)"
        | "drive_deadman d" "\<not> fst (expire_command_if_needed now ?m2)" by blast
      then show ?thesis
      proof cases
        case 1
        then show ?thesis
          using assms q 4 Some emit_stop_outputs [of "''deadman_released''" now False ?m2]
          by (auto simp: tick_body_eq)
      next
        case 2
        then show ?thesis using assms q 4 Some by (auto simp: tick_body_eq expire_command_outputs)
      next
        case 3
        then have "drive_evidence now m l d"
          using 4 Some latch lease_live_iff [OF 4(2)] expire_command_iff [of ?m2 l d now]
          by (simp add: drive_evidence_def)
        moreover have "outputs s = outputs m @ [Drive (drive_seq d) (drive_source d)
             (slewed (lim m) elapsed (last_velocity m) (drive_velocity d)) now]"
          using 3 assms 4 Some by (auto simp: tick_body_eq emit_drive_outputs)
        ultimately show ?thesis by blast
      qed
    qed
  qed
qed

lemma tick_outputs:
  assumes "control_inv m" "tick t t2 m = (Inr es, s)" "e \<in> set es" "is_drive e"
  shows "\<exists>now l d. t = Fin now \<and> drive_evidence now m l d
    \<and> e = Drive (drive_seq d) (drive_source d)
        (slewed (lim m) (elapsed_since (last_tick m) now) (last_velocity m) (drive_velocity d)) now
    \<and> filter is_drive es = [e]"
proof -
  obtain now where t: "t = Fin now" using assms(2)
    by (cases t) (auto simp: tick_def with_now_def obind_def split: sum.splits prod.splits)
  obtain s' where body: "tick_body now (elapsed_since (last_tick m) now) t2 (m\<lparr>last_tick := Some now\<rparr>) = (Inr (), s')"
    and es: "es = outputs s'"
    using assms(2) t
    by (auto simp: tick_def with_now_def obind_def drain_outputs_def split: sum.splits prod.splits)
  have q: "list_all (\<lambda>e. \<not> is_drive e) (outputs m)" using assms(1) by (simp add: control_inv_defs)
  have ready: "fst (ready_at now (m\<lparr>last_tick := Some now\<rparr>)) = fst (ready_at now m)"
    by (auto simp: ready_at_def evidence_fresh_def action_guard_remaining_def Let_def split: option.split)
  from tick_body_outputs [OF last_tick_inv [OF assms(1)] body] obtain l d where
    ev: "drive_evidence now (m\<lparr>last_tick := Some now\<rparr>) l d" and out: "es = outputs m @ [Drive (drive_seq d) (drive_source d)
      (slewed (lim m) (elapsed_since (last_tick m) now) (last_velocity m) (drive_velocity d)) now]"
    using assms(3,4) es by (auto simp: list_all_iff)
  have "drive_evidence now m l d" using ev
    by (auto simp: drive_evidence_def lease_live_def command_timeout_for_source_def ready split: if_splits)
  moreover have "filter is_drive (outputs m) = []" using q by (simp add: filter_empty_conv list_all_iff)
  ultimately show ?thesis
    using t out assms(3,4) q by (auto simp: list_all_iff)
qed


subsection \<open>The software stop as a latch\<close>

interpretation estop: kept estop_latched
  by unfold_locales
    (simp_all add: revoke_def emit_stop_def action_taken_def latch_stop_def shut_down_def Let_def)

definition releases_stop :: "manager \<Rightarrow> control_event \<Rightarrow> bool" where
  \<comment> \<open>an explicit confirmation while the evidence is fresh\<close>
  "releases_stop m e = (case e of
     ClearEmergencyStop confirm t t2 \<Rightarrow>
       confirm = VBool True \<and> (case t of Fin now \<Rightarrow> fst (ready_at now m) | _ \<Rightarrow> False)
   | _ \<Rightarrow> False)"

lemma tick_keeps_stop:
  assumes "control_inv m" "estop_latched m"
  shows "estop_latched (snd (tick t t2 m))"
proof -
  have lease: "m_lease m = None" using assms by (simp add: control_inv_defs)
  then have "\<not> fst (expire_if_needed now (m\<lparr>last_tick := x\<rparr>))" for now x
    by (simp add: expire_if_needed_def)
  with lease assms(2) tick_body_eq [OF last_tick_inv [OF assms(1)]] show ?thesis
    by (cases t) (auto simp: tick_def with_now_def obind_def ensure_open_def guard_def emit_stop_def
        drain_outputs_def split: sum.split)
qed

lemma clear_keeps_stop:
  assumes "estop_latched m" "\<not> releases_stop m (ClearEmergencyStop confirm t t2)"
  shows "estop_latched (snd (clear_emergency_stop confirm t t2 m))"
  using assms unfolding clear_emergency_stop_def
  by (auto simp: releases_stop_def Let_def split_beta split: pyfloat.splits
      intro!: estop.with_now estop.checked)

interpretation software_stop: latch control_step control_inv estop_latched releases_stop is_drive
proof unfold_locales
  fix m e
  assume m: "control_inv m" "estop_latched m" "\<not> releases_stop m e"
  then show "estop_latched (fst (control_step m e))"
    by (cases e)
      (simp_all add: acquire_lease_def acquire_navigation_lease_def estop.note_bridge estop.note_lowstate
        estop.set_readiness estop.acquire estop.bind_lease estop.heartbeat estop.submit_drive
        estop.request_action estop.release_lease estop.emergency_stop estop.snapshot estop.close
        clear_keeps_stop tick_keeps_stop drain_outputs_def)
  have "\<not> is_drive x" if "tick t t2 m = (Inr es, s)" "x \<in> set es" for t t2 es s x
    using tick_outputs [OF m(1) that] m(2) by (auto simp: drive_evidence_def)
  then have tick: "list_all (\<lambda>x. \<not> is_drive x) (sent (fst (tick t t2 m)))" for t t2
    by (cases "tick t t2 m"; cases "fst (tick t t2 m)") (auto simp: list_all_iff)
  show "list_all (\<lambda>x. \<not> is_drive x) (snd (control_step m e))"
    using m(1) by (cases e) (simp_all add: tick drain_outputs_def control_inv_defs)
qed

subsection \<open>A revoked lease leaves a stop behind\<close>

definition leased_or_stopped :: "manager \<Rightarrow> bool" where
  "leased_or_stopped m \<longleftrightarrow> m_lease m \<noteq> None \<or> (\<exists>reason v c. Stop reason v c \<in> set (outputs m))"

interpretation revocation: kept leased_or_stopped
  by unfold_locales
    (auto simp: leased_or_stopped_def revoke_def emit_stop_def action_taken_def latch_stop_def
      shut_down_def Let_def)

lemma emit_drive_leased_or_stopped:
  "leased_or_stopped m \<Longrightarrow> leased_or_stopped (emit_drive d elapsed now m)"
  by (auto simp: leased_or_stopped_def emit_drive_def Let_def)

lemma tick_body_leased_or_stopped:
  assumes "control_inv m" "leased_or_stopped m"
  shows "leased_or_stopped (snd (tick_body now elapsed t2 m))"
  using assms(2) unfolding tick_body_eq [OF assms(1)]
  by (auto intro!: revocation.expire_if_needed revocation.stopped revocation.ready_at
      revocation.expire_command_if_needed revocation.fail_closed emit_drive_leased_or_stopped
      split: option.split)

lemma tick_leased_or_stopped:
  assumes "control_inv m" "m_lease m = Some l" "m_lease (snd (tick t t2 m)) = None"
  shows "\<exists>reason v c. Stop reason v c \<in> set (sent (fst (tick t t2 m)))"
proof -
  have open_m: "\<not> m_closed m" using assms(1,2) by (auto simp: control_inv_defs)
  obtain now where t: "t = Fin now"
    using assms(2,3) open_m by (cases t) (auto simp: tick_def with_now_def ensure_open_def)
  let ?m = "m\<lparr>last_tick := Some now\<rparr>"
  let ?body = "tick_body now (elapsed_since (last_tick m) now) t2 ?m"
  have s: "leased_or_stopped (snd ?body)"
    by (rule tick_body_leased_or_stopped [OF last_tick_inv [OF assms(1)]])
      (simp add: leased_or_stopped_def assms(2))
  show ?thesis
  proof (cases "fst ?body")
    case (Inl e)
    have "m_lease (snd ?body) \<noteq> None"
      using Inl assms(2) unfolding tick_body_eq [OF last_tick_inv [OF assms(1)]]
      by (auto simp: fail_closed_def with_now_def split: if_splits option.splits pyfloat.splits)
    then show ?thesis
      using Inl assms(3) t open_m
      by (auto simp: tick_def with_now_def ensure_open_def obind_def split: prod.splits)
  next
    case (Inr u)
    then show ?thesis
      using s assms(3) t open_m
      by (auto simp: tick_def with_now_def ensure_open_def obind_def drain_outputs_def leased_or_stopped_def
          split: prod.splits)
  qed
qed

end
