(* ===== verification/Control_Claims.thy ===== *)
theory Control_Claims
  imports Control_Authority
begin

text \<open>
  The properties of \<^verbatim>\<open>ControlManager\<close> and \<^verbatim>\<open>ClientFrameClock\<close>, each with a manager or a clock
  to which it applies.
\<close>

subsection \<open>A concrete manager\<close>

definition demo_limits :: limits where
  "demo_limits = \<lparr>vx_limit = 1/4, vy_limit = 1/8, wz_limit = 1/2, default_speed_scale = 1/4,
     navigation_speed_scale = 1/4, cmd_timeout_s = 1/8, navigation_command_timeout_s = 1/4,
     lease_heartbeat_s = 2, lease_bind_s = 4, bridge_stale_s = 3/4, lowstate_stale_s = 1/2,
     linear_slew = 1, lateral_slew = 1, angular_slew = 1, allowed_actions = SAFE_ACTIONS\<rparr>"

definition demo_lease :: lease where
  "demo_lease = \<lparr>token = ''0123456789abcdef'', input_source = ''keyboard'', binding = Some ''ws'',
     acquired_at = 9, heartbeat_at = 10, last_seq = 3\<rparr>"

definition demo_driving :: drive where
  "demo_driving = \<lparr>drive_seq = 3, drive_at = 10, drive_deadman = True,
     drive_velocity = \<lparr>vx = 1/8, vy = 0, wz = 0\<rparr>, drive_scale = 1, drive_source = ''keyboard''\<rparr>"

definition demo_manager :: manager where
  "demo_manager =
     \<lparr>lim = demo_limits, m_enabled = True, m_closed = False, m_lease = Some demo_lease,
      lease_end_reason = [], bridge_seen = Some 10, lowstate_seen = Some 10, estop_latched = False,
      estop_reason = [], guard_until = 0, guard_name = [], m_drive = Some demo_driving, actions = [],
      outputs = [], last_velocity = still, last_command_source = None, last_command_deadman = False,
      last_tick = Some (39/4), motion_active = False, stop_emitted = True\<rparr>"

definition demo_stopped :: manager where
  "demo_stopped = demo_manager\<lparr>m_lease := None, m_drive := None, estop_latched := True\<rparr>"

lemmas demo_manager_defs = demo_stopped_def demo_manager_def demo_limits_def demo_lease_def demo_driving_def

lemma fl_fifth_large: "1/8 \<le> fl (20/100)"
  using fl_mono [of "1/8" "20/100"] by simp

lemma demo_manager_inv: "control_inv demo_manager" "control_inv demo_stopped"
  using fl_fifth_large
  by (simp_all add: control_inv_defs demo_manager_defs speeds_ok_def slow_enough_def)

lemma demo_evidence: "drive_evidence 10 demo_manager demo_lease demo_driving"
  by (simp add: drive_evidence_def demo_manager_defs lease_live_def command_timeout_for_source_def
      INTERNAL_NAVIGATION_SOURCE_def ready_at_def evidence_fresh_def action_guard_remaining_def fl_numeral)

lemma demo_tick_time [simp]: "fl (39/4) = 39/4"
  by simp

subsection \<open>The properties\<close>

text \<open>C4. Every method of the manager, in any order and with any arguments, exceptions included,
  keeps the invariant: speeds inside the limits and the limits inside the hard ones, no drive
  and no motion without a lease, no lease under a latched stop or after closing, the stored
  drive no newer than its lease's sequence, and no drive envelope left in the queue.\<close>

theorem control_run_invariant:
  assumes "control_inv m"
  shows "control_inv (fst (run control_step m es))"
  using assms by (rule manager.inv_run)

theorem control_run_invariant_witness:
  "control_inv (fst (run control_step demo_manager
     [ControlTick (Fin 10) (Fin 10), EmergencyStop VNone (Fin 11) (Fin 11), DrainOutputs]))"
  using control_run_invariant [OF demo_manager_inv(1)] .

text \<open>C3. A tick emits at most one drive envelope, and only on evidence: the deadman of a stored
  drive is pressed, the drive is younger than its source's timeout, the lease is alive, bridge
  and low state are fresh, no action guard is running and no stop is latched. The speed is the
  last one slewed towards the drive's and stays inside the limits.\<close>

theorem tick_drives_on_evidence:
  assumes "control_inv m" "tick t t2 m = (Inr es, s)" "Drive q source v c \<in> set es"
  shows "\<exists>l d. t = Fin c \<and> drive_evidence c m l d \<and> q = drive_seq d \<and> source = input_source l
    \<and> v = slewed (lim m) (elapsed_since (last_tick m) c) (last_velocity m) (drive_velocity d)
    \<and> slow_enough (lim m) v \<and> filter is_drive es = [Drive q source v c]"
proof -
  obtain l d where *: "t = Fin c" "drive_evidence c m l d" "q = drive_seq d" "source = drive_source d"
    "v = slewed (lim m) (elapsed_since (last_tick m) c) (last_velocity m) (drive_velocity d)"
    "filter is_drive es = [Drive q source v c]"
    using tick_outputs [OF assms] by auto
  have "slow_enough (lim m) (drive_velocity d)" "speeds_ok (lim m)" "slow_enough (lim m) (last_velocity m)"
    "drive_source d = input_source l"
    using assms(1) *(2) by (auto simp: control_inv_defs drive_evidence_def)
  with * slewed_slow_enough elapsed_nonneg show ?thesis by auto
qed

lemma tick_emits:
  assumes "control_inv m" "drive_evidence now m l d"
  shows "fst (tick (Fin now) t2 m) = Inr (outputs m @ [Drive (drive_seq d) (drive_source d)
    (slewed (lim m) (elapsed_since (last_tick m) now) (last_velocity m) (drive_velocity d)) now])"
proof -
  let ?m = "m\<lparr>last_tick := Some now\<rparr>"
  have ready: "ready_at now ?m = (fst (ready_at now m), (snd (ready_at now m))\<lparr>last_tick := Some now\<rparr>)"
    by (auto simp: ready_at_def evidence_fresh_def action_guard_remaining_def Let_def split: option.split)
  have f: "m_lease m = Some l" "m_drive m = Some d" "drive_deadman d" "\<not> m_closed m" "fst (ready_at now m)"
    "\<not> fst (expire_if_needed now ?m)"
    "\<not> fst (expire_command_if_needed now (snd (ready_at now ?m)))"
    using assms
    by (auto simp: drive_evidence_def control_inv_defs lease_live_def expire_if_needed_def Let_def
        expire_command_if_needed_def command_timeout_for_source_def split: if_splits)
  then have "tick_body now (elapsed_since (last_tick m) now) t2 ?m
    = (Inr (), emit_drive d (elapsed_since (last_tick m) now) now (snd (ready_at now ?m)))"
    unfolding tick_body_eq [OF last_tick_inv [OF assms(1)]] by (simp add: ready)
  with f(4) show ?thesis
    by (simp add: tick_def with_now_def ensure_open_def drain_outputs_def emit_drive_outputs)
qed

theorem tick_drives_on_evidence_witness:
  "\<exists>v. Drive 3 ''keyboard'' v 10 \<in> set (sent (fst (tick (Fin 10) (Fin 10) demo_manager)))
     \<and> slow_enough demo_limits v"
proof -
  obtain es s where es: "tick (Fin 10) (Fin 10) demo_manager = (Inr es, s)"
    and out: "\<exists>v. es = [Drive 3 ''keyboard'' v 10]"
    using tick_emits [OF demo_manager_inv(1) demo_evidence, of "Fin 10"]
    by (cases "tick (Fin 10) (Fin 10) demo_manager") (simp add: demo_manager_def demo_driving_def)
  then obtain v where v: "Drive 3 ''keyboard'' v 10 \<in> set es" by auto
  from tick_drives_on_evidence [OF demo_manager_inv(1) es v] have "slow_enough (lim demo_manager) v" by blast
  with v es show ?thesis by (auto simp: demo_manager_def)
qed

text \<open>And with that evidence it does drive: the queue is sent followed by the drive.\<close>

theorem tick_sends_drive:
  assumes "control_inv m" "drive_evidence now m l d"
  shows "fst (tick (Fin now) t2 m) = Inr (outputs m @ [Drive (drive_seq d) (drive_source d)
    (slewed (lim m) (elapsed_since (last_tick m) now) (last_velocity m) (drive_velocity d)) now])"
  using tick_emits [OF assms] .

theorem tick_sends_drive_witness:
  "\<exists>v. fst (tick (Fin 10) (Fin 10) demo_manager) = Inr [Drive 3 ''keyboard'' v 10]"
  using tick_sends_drive [OF demo_manager_inv(1) demo_evidence, of "Fin 10"]
  by (simp add: demo_manager_def demo_driving_def)

text \<open>C2. The software stop holds: from a latched stop, no sequence of calls emits a drive or
  grants a lease until the stop is cleared with an explicit confirmation while bridge and low
  state are fresh.\<close>

theorem software_stop_holds:
  assumes "control_inv m" "estop_latched m" "shut control_step releases_stop m es"
  shows "estop_latched (fst (run control_step m es)) \<and> m_lease (fst (run control_step m es)) = None
    \<and> list_all (\<lambda>e. \<not> is_drive e) (snd (run control_step m es))"
  using software_stop.held_run [OF assms] manager.inv_run [OF assms(1), of es]
  by (simp add: control_inv_defs)

theorem software_stop_holds_witness:
  "m_lease (fst (run control_step demo_stopped
     [AcquireLease (VStr ''keyboard'') (VStr ''0123456789abcdef'') (Fin 10),
      ClearEmergencyStop (VInt 1) (Fin 10) (Fin 10), ControlTick (Fin 10) (Fin 10)])) = None"
proof -
  have "shut control_step releases_stop demo_stopped
     [AcquireLease (VStr ''keyboard'') (VStr ''0123456789abcdef'') (Fin 10),
      ClearEmergencyStop (VInt 1) (Fin 10) (Fin 10), ControlTick (Fin 10) (Fin 10)]"
    by (simp add: releases_stop_def)
  with software_stop_holds [OF demo_manager_inv(2)] show ?thesis
    by (simp add: demo_stopped_def del: shut.simps run.simps)
qed

text \<open>C5. A lease never ends silently: whatever call ends it, a stop is among the envelopes the
  call sends or leaves in the queue.\<close>

theorem lease_end_sends_stop:
  assumes "control_inv m" "m_lease m = Some l" "m_lease (fst (control_step m e)) = None"
  shows "\<exists>reason v c. Stop reason v c \<in> set (outputs (fst (control_step m e)) @ snd (control_step m e))"
proof -
  have l: "leased_or_stopped m" using assms(2) by (simp add: leased_or_stopped_def)
  have "\<not> estop_latched m" using assms(1,2) by (auto simp: control_inv_defs)
  then have clear: "leased_or_stopped (snd (clear_emergency_stop confirm t t2 m))" for confirm t t2
    using l unfolding clear_emergency_stop_def
    by (auto intro!: revocation.checked revocation.snapshot)
  have drain: "m_lease (snd (drain_outputs m)) \<noteq> None" using assms(2) by (simp add: drain_outputs_def)
  have "leased_or_stopped (fst (control_step m e))" if "\<not> (case e of ControlTick _ _ \<Rightarrow> True | DrainOutputs \<Rightarrow> True | _ \<Rightarrow> False)"
    using that l by (cases e)
      (simp_all add: acquire_lease_def acquire_navigation_lease_def revocation.note_bridge
        revocation.note_lowstate revocation.set_readiness revocation.acquire revocation.bind_lease
        revocation.heartbeat revocation.submit_drive revocation.request_action revocation.release_lease
        revocation.emergency_stop revocation.snapshot revocation.close clear)
  then show ?thesis
    using assms drain tick_leased_or_stopped [OF assms(1,2)]
    by (cases e) (auto simp: leased_or_stopped_def, blast)
qed

theorem lease_end_sends_stop_witness:
  "\<exists>reason v c. Stop reason v c \<in> set (outputs (fst (control_step demo_manager (NoteBridge False (Fin 11)))))"
proof -
  have "m_lease (fst (control_step demo_manager (NoteBridge False (Fin 11)))) = None"
    by (simp add: note_bridge_def ensure_open_def fail_closed_def with_now_def demo_manager_def)
  from lease_end_sends_stop [OF demo_manager_inv(1) _ this] show ?thesis
    by (simp add: demo_manager_def)
qed


lemma bounded_float_ok:
  assumes "bounded_float v fallback low high = Inr x" "float_ok v" "low \<le> high"
    "low \<le> fallback" "fallback \<le> high" "is_double fallback" "is_double low" "is_double high"
  shows "low \<le> x \<and> x \<le> high \<and> is_double x"
proof (cases "py_float v")
  case (Inl e)
  with assms show ?thesis by (auto simp: bounded_float_def split: if_splits)
next
  case (Inr f)
  with assms py_float_double [OF assms(2)] clamp_bounds [of low high "fin_val f"] show ?thesis
    by (cases f) (auto simp: bounded_float_def clamp_double)
qed

lemma get_float_ok: "list_all (\<lambda>(k, v). float_ok v) c \<Longrightarrow> float_ok (dget c key)"
  by (auto simp: dget_def dget_or_def list_all_iff split: option.split dest!: map_of_SomeD)

lemma get2_float_ok: "list_all (\<lambda>(k, v). float_ok v) c \<Longrightarrow> float_ok (get2 c a b)"
  using get_float_ok [of c b]
  by (auto simp: get2_def dget_or_def list_all_iff split: option.split dest!: map_of_SomeD)

lemma control_limits_speeds:
  assumes c: "list_all (\<lambda>(k, v). float_ok v) c" and L: "control_limits c = Inr L"
  shows "speeds_ok L"
proof -
  have f: "fl (1/100) \<le> fl (20/100)" "fl (1/100) \<le> fl (30/100)" "fl (5/100) \<le> fl (60/100)"
    "0 \<le> fl (1/100)" "0 \<le> fl (5/100)" "0 \<le> fl (1/10)"
    by (auto intro!: fl_mono fl_nonneg)
  have le: "fl x \<le> b" if "x \<le> b" "is_double b" for x b
    using that by (auto intro: fl_le_double)
  have d: "fl (1/100) \<le> 1" "fl (30/100) \<le> 1" "fl (5/100) \<le> 1/2" "fl (5/100) \<le> 2" "fl (5/100) \<le> 3/4"
    "fl (60/100) \<le> 2" "fl (1/10) \<le> 4" "fl (1/10) \<le> 3/2"
    by (rule le; simp)+
  note g = get_float_ok [OF c] get2_float_ok [OF c]
  from L obtain x y z lin lat ang where axes: "bounded_float (dget c ''max_linear_x'') (fl (30/100)) (fl (1/100)) 1 = Inr x"
    "bounded_float (dget c ''max_linear_y'') (fl (20/100)) (fl (1/100)) (fl (20/100)) = Inr y"
    "bounded_float (dget c ''max_angular_z'') (1/2) (fl (5/100)) (1/2) = Inr z"
    and rates: "bounded_float (get2 c ''max_linear_accel'' ''linear_slew_mps2'') (3/4) (fl (5/100)) 2 = Inr lin"
    "bounded_float (get2 c ''max_lateral_accel'' ''linear_slew_mps2'') (fl (60/100)) (fl (5/100)) 2 = Inr lat"
    "bounded_float (get2 c ''max_angular_accel'' ''angular_slew_rps2'') (3/2) (fl (1/10)) 4 = Inr ang"
    and L': "vx_limit L = x" "vy_limit L = y" "wz_limit L = z" "linear_slew L = lin" "lateral_slew L = lat"
      "angular_slew L = ang"
    unfolding control_limits_def sbind_Inr_iff by auto
  note b = axes [THEN bounded_float_ok, OF g(1)] rates [THEN bounded_float_ok, OF g(2)]
  show ?thesis
    unfolding speeds_ok_def L' using f d b by auto
qed

text \<open>Construction establishes the invariant for every environment and every profile: the
  limits never exceed the hard limits 1.0, 0.20 and 0.50, whatever is configured, and the
  manager starts without a lease, at rest.\<close>

theorem control_init_invariant:
  assumes "control_init profile env = Inr m" "dget_or profile ''control'' (VDict []) = VDict c"
    "list_all (\<lambda>(k, v). float_ok v) c"
  shows "control_inv m \<and> vx_limit (lim m) \<le> 1 \<and> vy_limit (lim m) \<le> fl (20/100) \<and> wz_limit (lim m) \<le> 1/2
    \<and> m_lease m = None \<and> \<not> motion_active m"
proof -
  obtain L where L: "control_limits c = Inr L" and m: "lim m = L" "m_lease m = None" "m_drive m = None"
    "\<not> motion_active m" "last_velocity m = still" "actions m = []" "outputs m = []"
    using assms(1,2) by (auto simp: control_init_def Let_def sbind_Inr_iff)
  have s: "speeds_ok L" using control_limits_speeds [OF assms(3) L] .
  with m slow_enough_still [OF s] show ?thesis
    by (auto simp: control_inv_defs) (auto simp: speeds_ok_def)
qed

theorem control_init_invariant_witness:
  "\<exists>m. control_init [(''control'', VDict [(''enabled'', VBool True), (''max_linear_x'', VInt 7)])]
        (\<lambda>_. Some ''1'') = Inr m \<and> vx_limit (lim m) \<le> 1"
proof -
  let ?c = "[(''enabled'', VBool True), (''max_linear_x'', VInt 7)]"
  have "\<exists>m. control_init [(''control'', VDict ?c)] (\<lambda>_. Some ''1'') = Inr m"
    by (simp add: control_init_def dget_or_def dget_def control_limits_def get2_def bounded_float_def
        float_of_int_small Let_def)
  then obtain m where m: "control_init [(''control'', VDict ?c)] (\<lambda>_. Some ''1'') = Inr m" ..
  with control_init_invariant [OF m, of ?c] show ?thesis by (simp add: dget_or_def)
qed


lemma require_lease_holder:
  assumes "require_lease tok now bind need t2 m = (Inr l, s)" "bind \<noteq> VNone"
  shows "m_lease m = Some l \<and> py_str tok = token l \<and> binding l = Some (py_str bind)"
proof -
  have same: "m_lease (snd (expire_command_if_needed now (snd (expire_if_needed now m)))) = Some l
    \<Longrightarrow> m_lease m = Some l"
    by (auto simp: expire_command_if_needed_def expire_if_needed_def Let_def split: option.splits if_splits)
  from assms have "m_lease (snd (expire_command_if_needed now (snd (expire_if_needed now m)))) = Some l
    \<and> py_str tok = token l \<and> binding l = Some (py_str bind)"
    unfolding require_lease_def
    by (auto simp: Let_def split_beta obind_def lease_is_def check_binding_def compare_digest_def
        sbind_Inr_iff split: option.splits sum.splits prod.splits if_splits)
  with same show ?thesis by blast
qed


definition demo_request :: drive_request where
  "demo_request = \<lparr>req_vx = VInt 1, req_vy = VInt 0, req_wz = VInt 0, req_speed_scale = VInt 1,
     req_deadman = VBool True, req_client_age_s = VInt 0\<rparr>"

lemma demo_submit:
  "\<exists>x s. submit_drive (VStr ''0123456789abcdef'') (VStr ''ws'') (VInt 4) demo_request (Fin 10) (Fin 10)
     demo_manager = (Inr x, s)"
proof -
  have tok: "compare_digest ''0123456789abcdef'' ''0123456789abcdef'' = Inr True" "compare_digest ''ws'' ''ws'' = Inr True"
    by (simp_all add: compare_digest_def ord_def)
  have req: "\<exists>s. require_lease (VStr ''0123456789abcdef'') 10 (VStr ''ws'') True (Fin 10) demo_manager = (Inr demo_lease, s)
    \<and> lim s = demo_limits"
    using tok
    by (simp add: require_lease_def ensure_configured_def ensure_open_def demo_manager_def demo_lease_def
        demo_driving_def expire_if_needed_def expire_command_if_needed_def demo_limits_def lease_is_def check_binding_def
        ready_at_def evidence_fresh_def action_guard_remaining_def command_timeout_for_source_def
        INTERNAL_NAVIGATION_SOURCE_def fl_numeral Let_def)
  then obtain s where s: "require_lease (VStr ''0123456789abcdef'') 10 (VStr ''ws'') True (Fin 10) demo_manager
      = (Inr demo_lease, s)" "lim s = demo_limits" by blast
  have "\<exists>y. check_drive demo_limits demo_request (command_timeout_for_source ''keyboard'' s) = Inr y"
    using s(2) by (simp add: check_drive_def demo_request_def normalized_def speed_scale_def client_age_def
        float_of_int_small command_timeout_for_source_def demo_limits_def)
  with s show ?thesis
    by (auto simp: submit_drive_def with_now_def demo_manager_def demo_lease_def validate_seq_def Let_def)
qed


text \<open>Loss of the bridge or of the robot's low state ends the lease at once: no lease, no
  drive, no motion, and a stop with the cause queued last.\<close>

theorem readiness_loss_revokes:
  assumes "\<not> m_closed m" "m_lease m \<noteq> None \<or> motion_active m"
  shows "\<exists>s. set_readiness False low (Fin now) (Fin now2) m = (Inr (), s) \<and> m_lease s = None
    \<and> m_drive s = None \<and> \<not> motion_active s \<and> last_velocity s = still
    \<and> outputs s = outputs m @ [Stop ''readiness_lost'' still now2]"
  using assms
  by (auto simp: set_readiness_def ensure_open_def with_now_def fail_closed_def Let_def revoke_def emit_stop_def)

theorem readiness_loss_revokes_witness:
  "m_lease (snd (set_readiness False True (Fin 10) (Fin 11) demo_manager)) = None"
  using readiness_loss_revokes [of demo_manager True 10 11] by (auto simp: demo_manager_def)

text \<open>The software stop needs no lease and no readiness: while the manager is open it
  latches, drops lease and drive, and queues its stop behind what the queue held. An action
  already queued therefore still goes out, before that stop.\<close>

theorem emergency_stop_latches:
  assumes "\<not> m_closed m"
  shows "\<exists>v s. emergency_stop reason (Fin now) (Fin now2) m = (Inr v, s) \<and> estop_latched s
    \<and> m_lease s = None \<and> m_drive s = None \<and> \<not> motion_active s
    \<and> outputs s = outputs m @ [Stop ''emergency_stop'' still now]"
  using assms
  by (auto simp: emergency_stop_def ensure_open_def with_now_def snapshot_def Let_def split_beta
      latch_stop_def emit_stop_def expire_if_needed_def expire_command_if_needed_def
      split: option.split)

theorem emergency_stop_latches_witness:
  "outputs (snd (emergency_stop VNone (Fin 10) (Fin 10)
      (demo_manager\<lparr>outputs := [Action ''sit'' 1009 4 10]\<rparr>)))
    = [Action ''sit'' 1009 4 10, Stop ''emergency_stop'' still 10]"
  using emergency_stop_latches [of "demo_manager\<lparr>outputs := [Action ''sit'' 1009 4 10]\<rparr>" VNone 10 10]
  by (auto simp: demo_manager_def)

fun frames :: "(pyval \<times> pyval) list \<Rightarrow> frame_clock \<Rightarrow> rat list \<times> frame_clock" where
  "frames [] c = ([], c)"
| "frames ((client, server) # fs) c =
     (let (r, c') = validate_frame client server c; (ages, c'') = frames fs c'
      in ((case r of Inr age \<Rightarrow> [age] | Inl _ \<Rightarrow> []) @ ages, c''))"

lemma validate_frame_ok:
  assumes "validate_frame client server c = (r, c')"
  shows "offset_ms c' = offset_ms c" "r = Inr age \<Longrightarrow> - 500 \<le> age \<and> age \<le> 200" "r = Inl e \<Longrightarrow> c' = c"
  using assms by (auto simp: validate_frame_def obind_def Let_def split: sum.splits if_splits)

text \<open>The browser's clock offset is fixed when the connection binds: over any sequence of
  frames, accepted and refused, each accepted age lies between -500 and 200 ms measured with
  that first offset, so frames that queued up in a stalled connection do not become fresh.\<close>

theorem frame_ages_bounded:
  "offset_ms (snd (frames fs c)) = offset_ms c \<and> list_all (\<lambda>age. - 500 \<le> age \<and> age \<le> 200) (fst (frames fs c))"
proof (induction fs c rule: frames.induct)
  case (2 client server fs c)
  obtain r c' where v: "validate_frame client server c = (r, c')" by fastforce
  with 2 [OF v [symmetric] refl] validate_frame_ok [OF v] show ?case
    by (cases r) (auto simp: split_beta)
qed simp

end
