(* ===== verification/Advisory_Models.thy ===== *)
theory Advisory_Models
  imports Py_Text
begin

text \<open>
  The contract of the route planner's advisory decisions:
  \<^verbatim>\<open>robot_dashboard/route_planner/behaviors/models.py\<close>. An advisory is data for the operator; it
  carries no motion command. The evidence every behavior reads is a normalized perception
  snapshot: its lists are lists of JSON objects, its scalars values of any type.
\<close>

definition MAX_UINT64 :: int where
  "MAX_UINT64 = 18446744073709551615"

definition ADVISORIES :: "string list" where
  "ADVISORIES = [''WAIT'', ''ALIGN'', ''PROCEED_RECOMMENDED'', ''HOLD'', ''REPLAN_RECOMMENDED'',
     ''SEARCH_MARKER'', ''DOCKING_READY'', ''PICKUP_CONFIRMATION_REQUIRED'',
     ''DROPOFF_CONFIRMATION_REQUIRED'', ''COMPLETE'', ''FAULT'']"

definition BEHAVIORS :: "string list" where
  "BEHAVIORS = [''CROSSWALK'', ''DOCKING'', ''UNDERPASS'', ''DELIVERY'', ''NORMAL_GUIDANCE'', ''FAULT'']"

definition uint64 :: "pyval \<Rightarrow> string \<Rightarrow> exn + int" where
  "uint64 value field =
     (if \<not> is_plain_int value \<or> int_val value < 0 \<or> MAX_UINT64 < int_val value
      then Inl (BehaviorContractError (field @ '' must be uint64-compatible'')) else Inr (int_val value))"

definition finite_in :: "pyval \<Rightarrow> string \<Rightarrow> rat \<Rightarrow> rat \<Rightarrow> exn + rat" where
  "finite_in value field low high =
     (if \<not> is_number value then Inl (BehaviorContractError (field @ '' must be numeric''))
      else sbind (py_float value) (\<lambda>f.
        if \<not> is_finite f \<or> fin_val f < low \<or> high < fin_val f
        then Inl (BehaviorContractError (field @ '' is outside the supported range''))
        else Inr (fin_val f)))"

definition token_of :: "pyval \<Rightarrow> string \<Rightarrow> exn + string" where
  "token_of value field =
     (if is_str value \<and> is_token 63 (str_val value) then Inr (str_val value)
      else Inl (BehaviorContractError (field @ '' is invalid'')))"

text \<open>\<^verbatim>\<open>list(dict.fromkeys(xs))\<close>: the first occurrences.\<close>

fun from_keys :: "'a list \<Rightarrow> 'a list" where
  "from_keys [] = []"
| "from_keys (x # xs) = x # filter (\<lambda>y. y \<noteq> x) (from_keys xs)"

record advisory =
  a_behavior :: string
  a_state :: string
  a_advisory :: string
  a_manual_ready :: bool
  a_edge_ready :: bool
  a_reasons :: "string list"
  a_requirements :: pydict
  a_updated_at_ns :: int

definition requirement_ok :: "string \<times> pyval \<Rightarrow> exn + unit" where
  "requirement_ok kv =
     (case kv of (key, value) \<Rightarrow>
        if \<not> is_lower_name 63 key then Inl (BehaviorContractError ''behavior requirement name is invalid'')
        else case value of
               VFloat _ \<Rightarrow> Inl (BehaviorContractError ''behavior requirement value is invalid'')
             | VList _ \<Rightarrow> Inl (BehaviorContractError ''behavior requirement value is invalid'')
             | VDict _ \<Rightarrow> Inl (BehaviorContractError ''behavior requirement value is invalid'')
             | _ \<Rightarrow> Inr ())"

definition make_advisory :: "string \<Rightarrow> string \<Rightarrow> string \<Rightarrow> bool \<Rightarrow> bool \<Rightarrow> string list \<Rightarrow> pydict \<Rightarrow> pyval
    \<Rightarrow> exn + advisory" where
  "make_advisory behavior state advice manual_ready edge_ready reasons requirements updated_at =
     sbind (guard (behavior \<in> set BEHAVIORS) (BehaviorContractError ''behavior is invalid'')) (\<lambda>_.
     sbind (token_of (VStr state) ''behavior state'') (\<lambda>state.
     sbind (guard (advice \<in> set ADVISORIES) (BehaviorContractError ''advisory is invalid'')) (\<lambda>_.
     sbind (guard (length reasons \<le> 16) (BehaviorContractError ''reason code list is invalid'')) (\<lambda>_.
     sbind (map_exn (\<lambda>r. token_of (VStr r) ''reason code'') reasons) (\<lambda>reasons.
     sbind (guard (length requirements \<le> 16) (BehaviorContractError ''behavior requirements are invalid'')) (\<lambda>_.
     sbind (map_exn requirement_ok requirements) (\<lambda>_.
     sbind (uint64 updated_at ''updated_at_ns'') (\<lambda>updated.
       Inr \<lparr>a_behavior = behavior, a_state = state, a_advisory = advice,
            a_manual_ready = manual_ready, a_edge_ready = edge_ready, a_reasons = from_keys reasons,
            a_requirements = requirements, a_updated_at_ns = updated\<rparr>))))))))"

definition opt_str :: "string option \<Rightarrow> pyval" where
  "opt_str z = (case z of None \<Rightarrow> VNone | Some t \<Rightarrow> VStr t)"

subsection \<open>Evidence\<close>

record perception =
  p_sequence :: pyval
  p_fresh :: pyval
  p_traffic :: "pydict list"
  p_people :: "pydict list"
  p_crosswalks :: "pydict list"
  p_aruco :: "pydict list"
  p_underpass_blocked :: pyval

text \<open>The arguments the three segment behaviors share; \<open>seg\<close> is \<open>None\<close> where the caller passes
  no mapping.\<close>

record evidence =
  seg :: "pydict option"
  perceived :: perception
  now_ns :: pyval
  distance_m :: pyval
  pose_fresh :: bool
  revisions_current :: bool

definition seg_is :: "pydict option \<Rightarrow> string \<Rightarrow> bool" where
  "seg_is s kind = (case s of None \<Rightarrow> False | Some d \<Rightarrow> dget d ''type'' = VStr kind)"

definition optional_distance :: "pyval \<Rightarrow> string \<Rightarrow> exn + rat option" where
  "optional_distance v field =
     (if v = VNone then Inr None else sbind (finite_in v field 0 1000) (\<lambda>x. Inr (Some x)))"

subsection \<open>What the checks guarantee\<close>

lemma uint64_iff: "uint64 v field = Inr n \<longleftrightarrow> v = VInt n \<and> 0 \<le> n \<and> n \<le> MAX_UINT64"
  by (cases v) (auto simp: uint64_def)

lemma finite_in_bounds: "finite_in v field low high = Inr x \<Longrightarrow> low \<le> x \<and> x \<le> high"
  by (auto simp: finite_in_def sbind_Inr_iff split: if_splits)

lemma make_advisory_fields:
  assumes "make_advisory behavior state advice manual edge reasons reqs updated = Inr a"
  shows "a_behavior a = behavior" "a_state a = state" "a_advisory a = advice" "a_manual_ready a = manual"
    "a_edge_ready a = edge" "a_requirements a = reqs" "updated = VInt (a_updated_at_ns a)"
    "behavior \<in> set BEHAVIORS" "advice \<in> set ADVISORIES"
  using assms
  by (auto simp: make_advisory_def sbind_Inr_iff token_of_def uint64_iff split: if_splits)

end
