(* ===== verification/Evidence_Gate.thy ===== *)
theory Evidence_Gate
  imports Prelude
begin

text \<open>
  The contract the route planner's behaviors share about evidence. A behavior looks at
  numbered observations. Doubt (a sequence that runs backwards, a stale pose or perception, a
  changed revision) makes it demand evidence newer than all it has seen, and that demand only
  grows. The laws speak of one evaluation; the lemma speaks of any later one.
\<close>

text \<open>The result of a call as an output; a raised exception is none.\<close>

fun result_option :: "('s, 'a) outcome \<Rightarrow> 's \<times> 'a option" where
  "result_option (Inr a, s) = (s, Some a)"
| "result_option (Inl e, s) = (s, None)"

lemma fst_result_option: "fst (result_option r) = snd r"
  by (cases r; cases "fst r") auto

lemma snd_result_option: "snd (result_option r) = Some a \<longleftrightarrow> fst r = Inr a"
  by (cases r; cases "fst r") auto

definition settle :: "('s \<Rightarrow> 'i \<Rightarrow> 's \<times> 'a option) \<Rightarrow> 'i list \<Rightarrow> 's \<Rightarrow> 's" where
  "settle step is s = fold (\<lambda>i s. fst (step s i)) is s"

locale evidence_gate =
  fixes step :: "'s \<Rightarrow> 'i \<Rightarrow> 's \<times> 'a option"
    and newest :: "'s \<Rightarrow> int"
    and demand :: "'s \<Rightarrow> int"
    and number :: "'i \<Rightarrow> int"
    and ready :: "'a \<Rightarrow> bool"
    and doubtful :: "'s \<Rightarrow> 'i \<Rightarrow> bool"
  assumes newest_mono: "newest s \<le> newest (fst (step s i))"
    and demand_mono: "demand s \<le> demand (fst (step s i))"
    and ready_new: "snd (step s i) = Some a \<Longrightarrow> ready a \<Longrightarrow> newest s \<le> number i \<and> demand s < number i"
    and doubt_demands: "doubtful s i \<Longrightarrow> newest s \<le> demand (fst (step s i)) \<and> number i \<le> demand (fst (step s i))"
begin

lemma newest_settle: "newest s \<le> newest (settle step is s)"
  unfolding settle_def
proof (induction "is" arbitrary: s)
  case (Cons i "is")
  from Cons.IH [of "fst (step s i)"] newest_mono [of s i] show ?case by simp
qed simp

lemma demand_settle: "demand s \<le> demand (settle step is s)"
  unfolding settle_def
proof (induction "is" arbitrary: s)
  case (Cons i "is")
  from Cons.IH [of "fst (step s i)"] demand_mono [of s i] show ?case by simp
qed simp

lemma ready_after_doubt:
  assumes "doubtful s i" "snd (step (settle step is (fst (step s i))) j) = Some a" "ready a"
  shows "number i < number j \<and> newest s < number j"
  using doubt_demands [OF assms(1)] demand_settle [of "fst (step s i)" "is"] ready_new [OF assms(2,3)]
  by linarith

lemma ready_not_older:
  assumes "snd (step (settle step is s) j) = Some a" "ready a"
  shows "newest s \<le> number j"
  using newest_settle [of s "is"] ready_new [OF assms] by linarith

end

end
