(* ===== verification/Crosswalk.thy ===== *)
theory Crosswalk
  imports Advisory_Models Evidence_Gate
begin

text \<open>
  \<^verbatim>\<open>CrosswalkAdvisor\<close> of \<^verbatim>\<open>route_planner/behaviors/crosswalk.py\<close>. The record \<open>crosswalk\<close> holds its
  attributes; \<open>crosswalk_evaluate\<close> is \<^verbatim>\<open>evaluate\<close>: the checks on the inputs, the gate on the
  sequence and freshness of the evidence (\<open>crosswalk_gate\<close>), the reading of the observations
  (\<open>read_crosswalk\<close>) and the decision (\<open>crosswalk_decide\<close>).
\<close>

record crosswalk =
  lateral_limit_m :: rat
  heading_limit_rad :: rat
  cw_last_sequence :: int
  cw_recovery :: int
  was_ready :: bool

definition crosswalk_init :: "pyval \<Rightarrow> pyval \<Rightarrow> exn + crosswalk" where
  "crosswalk_init lateral heading =
     sbind (finite_in lateral ''lateral limit'' (fl (1/100)) 1) (\<lambda>lat.
     sbind (finite_in heading ''heading limit'' (fl (1/100)) 1) (\<lambda>head.
       Inr \<lparr>lateral_limit_m = lat, heading_limit_rad = head, cw_last_sequence = - 1, cw_recovery = - 1,
            was_ready = False\<rparr>))"

record crosswalk_input = evidence +
  deviation_m :: pyval
  crossing :: bool
  exit_confirmed :: bool
  feet_outside :: pyval
  expected_crosswalk :: "string option"

text \<open>\<^verbatim>\<open>_result\<close>\<close>

definition crosswalk_result :: "string \<Rightarrow> string \<Rightarrow> int \<Rightarrow> string list \<Rightarrow> pydict \<Rightarrow> bool \<Rightarrow> crosswalk
    \<Rightarrow> (crosswalk, advisory) outcome" where
  "crosswalk_result state advice now reasons reqs ready s =
     (make_advisory ''CROSSWALK'' state advice ready ready reasons reqs (VInt now),
      s\<lparr>was_ready := state \<in> {''READY'', ''CROSSING_OBSERVE''}\<rparr>)"

text \<open>The observations of the expected crosswalk, and what the decision reads from them.\<close>

definition of_crosswalk :: "string option \<Rightarrow> pydict list \<Rightarrow> pydict list" where
  "of_crosswalk expected items =
     filter (\<lambda>item. case expected of None \<Rightarrow> True | Some c \<Rightarrow> dget item ''crosswalk_id'' = VStr c) items"

definition signal_stable :: "pydict \<Rightarrow> exn + bool" where
  "signal_stable item =
     and_exn (Inr (dget item ''signal'' = VStr ''GREEN''))
       (sbind (py_int (dget_or item ''consecutive_frames'' (VInt 1))) (\<lambda>n. Inr (2 \<le> n)))"

definition float_field :: "pydict \<Rightarrow> string \<Rightarrow> rat \<Rightarrow> exn + pyfloat" where
  "float_field item key missing = py_float (dget_or item key (VFloat (Fin missing)))"

definition abs_within :: "pyfloat \<Rightarrow> rat \<Rightarrow> bool" where
  "abs_within f limit \<longleftrightarrow> is_finite f \<and> \<bar>fin_val f\<bar> \<le> limit"

definition aligned :: "crosswalk \<Rightarrow> pydict \<Rightarrow> exn + bool" where
  "aligned s item =
     and_exn (Inr (dget item ''visible'' = VBool True))
    (and_exn (sbind (float_field item ''lateral_offset_m'' 99) (\<lambda>f. Inr (abs_within f (lateral_limit_m s))))
       (sbind (float_field item ''heading_error_rad'' 99) (\<lambda>f. Inr (abs_within f (heading_limit_rad s)))))"

definition bounded_by_lines :: "pydict \<Rightarrow> exn + bool" where
  "bounded_by_lines item =
     and_exn (sbind (float_field item ''left_boundary_distance_m'' (- 1)) (\<lambda>f. Inr (pf_le (Fin 0) f)))
             (sbind (float_field item ''right_boundary_distance_m'' (- 1)) (\<lambda>f. Inr (pf_le (Fin 0) f)))"

record crosswalk_reading =
  any_traffic :: bool
  traffic_green :: bool
  traffic_red :: bool
  person_clear :: bool
  person_occupied :: bool
  alignment_ready :: bool
  boundaries_ready :: bool

definition nonempty_all :: "('a \<Rightarrow> exn + bool) \<Rightarrow> 'a list \<Rightarrow> exn + bool" where
  \<comment> \<open>\<^verbatim>\<open>bool(xs) and all(...)\<close>\<close>
  "nonempty_all f xs = and_exn (Inr (xs \<noteq> [])) (all_exn f xs)"

definition read_crosswalk :: "crosswalk \<Rightarrow> crosswalk_input \<Rightarrow> exn + crosswalk_reading" where
  "read_crosswalk s i =
     (let traffic = of_crosswalk (expected_crosswalk i) (p_traffic (perceived i));
          people = of_crosswalk (expected_crosswalk i) (p_people (perceived i));
          crosswalks = of_crosswalk (expected_crosswalk i) (p_crosswalks (perceived i))
      in sbind (nonempty_all signal_stable traffic) (\<lambda>green.
         sbind (nonempty_all (\<lambda>item. Inr (dget item ''occupancy'' = VStr ''CLEAR'')) people) (\<lambda>clear.
         sbind (nonempty_all (aligned s) crosswalks) (\<lambda>align.
         sbind (nonempty_all bounded_by_lines crosswalks) (\<lambda>bounds.
           Inr \<lparr>any_traffic = (traffic \<noteq> []), traffic_green = green,
                traffic_red = list_ex (\<lambda>item. dget item ''signal'' = VStr ''RED'') traffic,
                person_clear = clear,
                person_occupied = list_ex (\<lambda>item. dget item ''occupancy'' = VStr ''OCCUPIED'') people,
                alignment_ready = align, boundaries_ready = bounds\<rparr>)))))"

definition feet_invalid :: "pyval \<Rightarrow> bool" where
  "feet_invalid v \<longleftrightarrow> v \<noteq> VNone \<and> (\<not> is_plain_int v \<or> int_val v < 0 \<or> 4 < int_val v)"

definition crosswalk_requirements :: "crosswalk_reading \<Rightarrow> pyval \<Rightarrow> pydict" where
  "crosswalk_requirements r feet =
     [(''traffic_green'', VBool (traffic_green r)), (''person_clear'', VBool (person_clear r)),
      (''alignment_ready'', VBool (alignment_ready r)), (''boundaries_ready'', VBool (boundaries_ready r)),
      (''feet_boundary'', if feet = VNone then VNone else VBool (int_val feet < 3))]"

definition crosswalk_decide :: "crosswalk_input \<Rightarrow> int \<Rightarrow> int \<Rightarrow> rat \<Rightarrow> rat option \<Rightarrow> crosswalk_reading
    \<Rightarrow> crosswalk \<Rightarrow> (crosswalk, advisory) outcome" where
  "crosswalk_decide i now sequence deviation distance r s =
     (let reqs = crosswalk_requirements r (feet_outside i);
          hold = (\<lambda>state advice reasons. crosswalk_result state advice now reasons reqs False s);
          proceed = (\<lambda>state reasons. crosswalk_result state ''PROCEED_RECOMMENDED'' now reasons reqs True s)
      in if 3/2 < deviation then hold ''HOLD'' ''REPLAN_RECOMMENDED'' [''ROUTE_DEVIATION'']
      else if feet_outside i \<noteq> VNone \<and> \<not> int_val (feet_outside i) < 3
      then hold ''HOLD'' ''HOLD'' [''FOOT_BOUNDARY_VIOLATION'']
      else if was_ready s \<and> (\<not> alignment_ready r \<or> \<not> boundaries_ready r)
      then crosswalk_result ''HOLD'' ''HOLD'' now [''ALIGNMENT_LOST_AFTER_READY''] reqs False
             (s\<lparr>cw_recovery := sequence\<rparr>)
      else if \<not> traffic_green r
      then hold (if (case distance of None \<Rightarrow> False | Some d \<Rightarrow> d \<le> fl (3/10)) \<and> \<not> any_traffic r
                 then ''STOP_LINE'' else ''WAIT_SIGNAL'') ''WAIT''
             [if traffic_red r then ''TRAFFIC_RED'' else ''TRAFFIC_UNKNOWN_OR_UNSTABLE'']
      else if \<not> person_clear r
      then hold ''WAIT_PERSON'' ''WAIT'' [if person_occupied r then ''PERSON_OCCUPIED'' else ''PERSON_UNKNOWN'']
      else if \<not> alignment_ready r \<or> \<not> boundaries_ready r
      then hold ''ALIGN'' ''ALIGN'' [''CROSSWALK_ALIGNMENT_REQUIRED'']
      else if exit_confirmed i then hold ''EXIT_CONFIRMED'' ''COMPLETE'' []
      else if crossing i then proceed ''CROSSING_OBSERVE'' [''OBSERVE_WHILE_CROSSING'']
      else if (case distance of None \<Rightarrow> False | Some d \<Rightarrow> 2 < d)
      then hold ''APPROACH'' ''HOLD'' [''APPROACHING_CROSSWALK'']
      else proceed ''READY'' [])"

definition crosswalk_observe :: "crosswalk_input \<Rightarrow> int \<Rightarrow> int \<Rightarrow> rat \<Rightarrow> rat option
    \<Rightarrow> crosswalk \<Rightarrow> (crosswalk, advisory) outcome" where
  "crosswalk_observe i now sequence deviation distance s =
     obind (lift_exn (read_crosswalk s i) s) (\<lambda>r s.
       if feet_invalid (feet_outside i)
       then crosswalk_result ''FAULT'' ''FAULT'' now [''FEET_COUNT_INVALID''] [] False s
       else crosswalk_decide i now sequence deviation distance r s)"

text \<open>Rollback of the sequence, stale pose, changed revisions and stale perception each demand
  evidence newer than what was seen.\<close>

definition crosswalk_gate :: "crosswalk_input \<Rightarrow> int \<Rightarrow> int \<Rightarrow> rat \<Rightarrow> rat option
    \<Rightarrow> crosswalk \<Rightarrow> (crosswalk, advisory) outcome" where
  "crosswalk_gate i now sequence deviation distance s =
     (if sequence < cw_last_sequence s
      then crosswalk_result ''FAULT'' ''FAULT'' now [''SEQUENCE_ROLLBACK''] [] False
             (s\<lparr>cw_recovery := max (cw_recovery s) (cw_last_sequence s)\<rparr>)
      else let s = s\<lparr>cw_last_sequence := max (cw_last_sequence s) sequence\<rparr>;
               invalid = (if \<not> revisions_current i then [''REVISION_CHANGED''] else [])
                       @ (if \<not> pose_fresh i then [''POSE_STALE''] else []);
               newer = s\<lparr>cw_recovery := max (cw_recovery s) sequence\<rparr>
      in if invalid \<noteq> [] then crosswalk_result ''FAULT'' ''FAULT'' now invalid [] False newer
      else if p_fresh (perceived i) \<noteq> VBool True
      then crosswalk_result ''HOLD'' ''HOLD'' now [''PERCEPTION_STALE''] [] False newer
      else if sequence \<le> cw_recovery s
      then crosswalk_result ''HOLD'' ''HOLD'' now [''NEW_EVIDENCE_REQUIRED''] [] False s
      else crosswalk_observe i now sequence deviation distance s)"

definition crosswalk_inputs :: "crosswalk_input \<Rightarrow> exn + rat \<times> rat option \<times> int" where
  "crosswalk_inputs i =
     sbind (finite_in (deviation_m i) ''route deviation'' 0 1000) (\<lambda>deviation.
     sbind (optional_distance (distance_m i) ''entry distance'') (\<lambda>distance.
     sbind (uint64 (p_sequence (perceived i)) ''perception sequence'') (\<lambda>sequence.
       Inr (deviation, distance, sequence))))"

definition crosswalk_evaluate :: "crosswalk_input \<Rightarrow> crosswalk \<Rightarrow> (crosswalk, advisory) outcome" where
  "crosswalk_evaluate i s =
     obind (lift_exn (uint64 (now_ns i) ''now_ns'') s) (\<lambda>now s.
     if \<not> seg_is (seg i) ''CROSSWALK'' then crosswalk_result ''IDLE'' ''HOLD'' now [] [] False s
     else
     obind (lift_exn (contract_checked (crosswalk_inputs i)) s) (\<lambda>checked s.
     case checked of
       None \<Rightarrow> crosswalk_result ''FAULT'' ''FAULT'' now [''INPUT_INVALID''] [] False s
     | Some (deviation, distance, sequence) \<Rightarrow> crosswalk_gate i now sequence deviation distance s))"

subsection \<open>What a ready crosswalk rests on\<close>

lemma crosswalk_result_ready:
  "crosswalk_result state advice now reasons reqs ready s = (Inr a, s') \<Longrightarrow> a_manual_ready a = ready"
  by (auto simp: crosswalk_result_def dest: make_advisory_fields)

lemma crosswalk_decide_ready:
  assumes "crosswalk_decide i now sequence deviation distance r s = (Inr a, s')" "a_manual_ready a"
  shows "deviation \<le> 3/2 \<and> traffic_green r \<and> person_clear r \<and> alignment_ready r \<and> boundaries_ready r
    \<and> (feet_outside i = VNone \<or> int_val (feet_outside i) < 3) \<and> \<not> exit_confirmed i
    \<and> s' = s\<lparr>was_ready := True\<rparr>"
  using assms
  by (auto simp: crosswalk_decide_def Let_def crosswalk_result_def split: if_splits
      dest!: make_advisory_fields(4))


lemma crosswalk_gate_ready:
  assumes "crosswalk_gate i now sequence deviation distance s = (Inr a, s')" "a_manual_ready a"
  shows "cw_last_sequence s \<le> sequence \<and> cw_recovery s < sequence \<and> revisions_current i \<and> pose_fresh i
    \<and> p_fresh (perceived i) = VBool True \<and> \<not> feet_invalid (feet_outside i)
    \<and> (\<exists>r s1. read_crosswalk s1 i = Inr r \<and> lateral_limit_m s1 = lateral_limit_m s
         \<and> heading_limit_rad s1 = heading_limit_rad s
         \<and> crosswalk_decide i now sequence deviation distance r s1 = (Inr a, s'))"
proof -
  have no: False if "crosswalk_result state advice now reasons reqs False u = (Inr a, s')"
    for state advice reasons reqs u
    using crosswalk_result_ready [OF that] assms(2) by simp
  define s1 where "s1 = s\<lparr>cw_last_sequence := max (cw_last_sequence s) sequence\<rparr>"
  have g: "\<not> sequence < cw_last_sequence s" "revisions_current i" "pose_fresh i"
    "p_fresh (perceived i) = VBool True" "\<not> sequence \<le> cw_recovery s"
    "crosswalk_observe i now sequence deviation distance s1 = (Inr a, s')"
    using assms(1) unfolding crosswalk_gate_def Let_def s1_def
    by (auto dest: no split: if_splits)
  obtain r where r: "read_crosswalk s1 i = Inr r"
    using g(6) by (cases "read_crosswalk s1 i") (auto simp: crosswalk_observe_def)
  with g(6) have "\<not> feet_invalid (feet_outside i)"
    "crosswalk_decide i now sequence deviation distance r s1 = (Inr a, s')"
    by (auto simp: crosswalk_observe_def dest: no split: if_splits)
  moreover have "lateral_limit_m s1 = lateral_limit_m s" "heading_limit_rad s1 = heading_limit_rad s"
    by (simp_all add: s1_def)
  ultimately show ?thesis using g r by fastforce
qed

text \<open>What the reading says when every part of it is positive.\<close>

lemma nonempty_all_True: "nonempty_all f xs = Inr True \<longleftrightarrow> xs \<noteq> [] \<and> (\<forall>x\<in>set xs. f x = Inr True)"
  by (auto simp: nonempty_all_def and_exn_True all_exn_True list_all_iff)

lemma signal_stable_True:
  "signal_stable t = Inr True \<longleftrightarrow> dget t ''signal'' = VStr ''GREEN''
     \<and> (\<exists>k\<ge>2. py_int (dget_or t ''consecutive_frames'' (VInt 1)) = Inr k)"
  by (auto simp: signal_stable_def and_exn_True sbind_Inr_iff)

lemma within_True:
  "sbind f (\<lambda>x. Inr (abs_within x b)) = Inr True \<longleftrightarrow> (\<exists>x. f = Inr (Fin x) \<and> \<bar>x\<bar> \<le> b)"
  by (auto simp: abs_within_def sbind_Inr_iff is_finite_iff)

lemma aligned_True:
  "aligned s c = Inr True \<longleftrightarrow> dget c ''visible'' = VBool True
     \<and> (\<exists>x. float_field c ''lateral_offset_m'' 99 = Inr (Fin x) \<and> \<bar>x\<bar> \<le> lateral_limit_m s)
     \<and> (\<exists>x. float_field c ''heading_error_rad'' 99 = Inr (Fin x) \<and> \<bar>x\<bar> \<le> heading_limit_rad s)"
  by (auto simp: aligned_def and_exn_True within_True)

lemma bounded_by_lines_True:
  "bounded_by_lines c = Inr True \<longleftrightarrow>
     (\<exists>l. float_field c ''left_boundary_distance_m'' (- 1) = Inr l \<and> pf_le (Fin 0) l)
     \<and> (\<exists>r. float_field c ''right_boundary_distance_m'' (- 1) = Inr r \<and> pf_le (Fin 0) r)"
  by (auto simp: bounded_by_lines_def and_exn_True sbind_Inr_iff)

lemma crosswalk_read_ready:
  assumes "read_crosswalk s i = Inr r" "traffic_green r" "person_clear r" "alignment_ready r" "boundaries_ready r"
  shows "let traffic = of_crosswalk (expected_crosswalk i) (p_traffic (perceived i));
           people = of_crosswalk (expected_crosswalk i) (p_people (perceived i));
           crosswalks = of_crosswalk (expected_crosswalk i) (p_crosswalks (perceived i))
       in traffic \<noteq> [] \<and> people \<noteq> [] \<and> crosswalks \<noteq> []
        \<and> (\<forall>t\<in>set traffic. dget t ''signal'' = VStr ''GREEN''
             \<and> (\<exists>k\<ge>2. py_int (dget_or t ''consecutive_frames'' (VInt 1)) = Inr k))
        \<and> (\<forall>p\<in>set people. dget p ''occupancy'' = VStr ''CLEAR'')
        \<and> (\<forall>c\<in>set crosswalks. dget c ''visible'' = VBool True
             \<and> (\<exists>x. float_field c ''lateral_offset_m'' 99 = Inr (Fin x) \<and> \<bar>x\<bar> \<le> lateral_limit_m s)
             \<and> (\<exists>x. float_field c ''heading_error_rad'' 99 = Inr (Fin x) \<and> \<bar>x\<bar> \<le> heading_limit_rad s)
             \<and> (\<exists>l. float_field c ''left_boundary_distance_m'' (- 1) = Inr l \<and> pf_le (Fin 0) l)
             \<and> (\<exists>r. float_field c ''right_boundary_distance_m'' (- 1) = Inr r \<and> pf_le (Fin 0) r))"
  using assms
  by (auto simp: read_crosswalk_def Let_def sbind_Inr_iff nonempty_all_True signal_stable_True
      aligned_True bounded_by_lines_True)

lemma crosswalk_evaluate_cases:
  assumes "crosswalk_evaluate i s = (r, s')"
  obtains (gate) now d far n where "seg_is (seg i) ''CROSSWALK''" "now_ns i = VInt now"
      "crosswalk_inputs i = Inr (d, far, n)" "p_sequence (perceived i) = VInt n"
      "crosswalk_gate i now n d far s = (r, s')"
  | (other) "\<not> (\<exists>a. r = Inr a \<and> a_manual_ready a)" "s' = s \<or> s' = s\<lparr>was_ready := False\<rparr>"
      "\<not> seg_is (seg i) ''CROSSWALK'' \<or> (\<nexists>x. crosswalk_inputs i = Inr x) \<or> (\<nexists>t. uint64 (now_ns i) ''now_ns'' = Inr t)"
proof -
  have res: "(\<nexists>a. r = Inr a \<and> a_manual_ready a) \<and> (s' = s \<or> s' = s\<lparr>was_ready := False\<rparr>)"
    if "crosswalk_result state advice now reasons reqs False s = (r, s')" "state \<in> {''IDLE'', ''FAULT''}"
    for state advice now reasons reqs
    using that crosswalk_result_ready [of state advice now reasons reqs False s _ s']
    by (auto simp: crosswalk_result_def)
  show thesis
  proof (cases "uint64 (now_ns i) ''now_ns''")
    case (Inl e)
    then show ?thesis using assms other by (auto simp: crosswalk_evaluate_def)
  next
    case now: (Inr now)
    show ?thesis
    proof (cases "seg_is (seg i) ''CROSSWALK''")
      case False
      then show ?thesis using assms other now res by (auto simp: crosswalk_evaluate_def)
    next
      case seg: True
      show ?thesis
      proof (cases "crosswalk_inputs i")
        case (Inl e)
        then show ?thesis using assms other now seg res
          by (cases e) (auto simp: crosswalk_evaluate_def contract_checked_def)
      next
        case (Inr x)
        obtain d far n where x: "x = (d, far, n)" by (cases x)
        with Inr have "p_sequence (perceived i) = VInt n"
          by (auto simp: crosswalk_inputs_def sbind_Inr_iff uint64_iff)
        with Inr x show ?thesis using assms gate now seg
          by (auto simp: crosswalk_evaluate_def contract_checked_def uint64_iff)
      qed
    qed
  qed
qed

definition crosswalk_number :: "crosswalk_input \<Rightarrow> int" where
  "crosswalk_number i = int_val (p_sequence (perceived i))"

definition crosswalk_doubtful :: "crosswalk \<Rightarrow> crosswalk_input \<Rightarrow> bool" where
  "crosswalk_doubtful s i \<longleftrightarrow> seg_is (seg i) ''CROSSWALK'' \<and> (\<exists>x. crosswalk_inputs i = Inr x)
     \<and> (\<exists>t. uint64 (now_ns i) ''now_ns'' = Inr t)
     \<and> (crosswalk_number i < cw_last_sequence s \<or> \<not> revisions_current i \<or> \<not> pose_fresh i
        \<or> p_fresh (perceived i) \<noteq> VBool True)"

definition crosswalk_step :: "crosswalk \<Rightarrow> crosswalk_input \<Rightarrow> crosswalk \<times> advisory option" where
  "crosswalk_step s i = result_option (crosswalk_evaluate i s)"

lemma crosswalk_result_keeps:
  "cw_last_sequence (snd (crosswalk_result state advice now reasons reqs ready s)) = cw_last_sequence s"
  "cw_recovery (snd (crosswalk_result state advice now reasons reqs ready s)) = cw_recovery s"
  by (simp_all add: crosswalk_result_def)

lemma crosswalk_decide_keeps:
  "cw_last_sequence (snd (crosswalk_decide i now n d far r s)) = cw_last_sequence s"
  "cw_recovery (snd (crosswalk_decide i now n d far r s)) \<in> {cw_recovery s, n}"
  by (simp_all add: crosswalk_decide_def Let_def crosswalk_result_keeps)

lemma crosswalk_gate_state:
  assumes "crosswalk_gate i now n d far s = (r, s')"
  shows "cw_last_sequence s' = max (cw_last_sequence s) n" "cw_recovery s \<le> cw_recovery s'"
    "n < cw_last_sequence s \<or> \<not> revisions_current i \<or> \<not> pose_fresh i \<or> p_fresh (perceived i) \<noteq> VBool True
      \<Longrightarrow> max (cw_last_sequence s) n \<le> cw_recovery s'"
proof -
  have s': "s' = snd (crosswalk_gate i now n d far s)" using assms by simp
  have obs: "cw_last_sequence (snd (crosswalk_observe i now n d far u)) = cw_last_sequence u
    \<and> cw_recovery (snd (crosswalk_observe i now n d far u)) \<in> {cw_recovery u, n}" for u
    using crosswalk_decide_keeps [of i now n d far _ u]
    by (cases "read_crosswalk u i") (auto simp: crosswalk_observe_def crosswalk_result_keeps)
  show "cw_last_sequence s' = max (cw_last_sequence s) n"
    unfolding s' by (simp add: crosswalk_gate_def Let_def crosswalk_result_keeps obs)
  show "cw_recovery s \<le> cw_recovery s'"
    unfolding s' using obs [of "s\<lparr>cw_last_sequence := max (cw_last_sequence s) n\<rparr>"]
    by (auto simp: crosswalk_gate_def Let_def crosswalk_result_keeps)
  show "n < cw_last_sequence s \<or> \<not> revisions_current i \<or> \<not> pose_fresh i \<or> p_fresh (perceived i) \<noteq> VBool True
      \<Longrightarrow> max (cw_last_sequence s) n \<le> cw_recovery s'"
    unfolding s' by (auto simp: crosswalk_gate_def Let_def crosswalk_result_keeps)
qed

interpretation crosswalk: evidence_gate crosswalk_step cw_last_sequence cw_recovery crosswalk_number
  a_manual_ready crosswalk_doubtful
proof unfold_locales
  fix s i a
  obtain r s' where e: "crosswalk_evaluate i s = (r, s')" by fastforce
  have st: "fst (crosswalk_step s i) = s'" "snd (crosswalk_step s i) = Some a \<longleftrightarrow> r = Inr a" for a
    by (simp_all add: crosswalk_step_def e fst_result_option snd_result_option)
  show "cw_last_sequence s \<le> cw_last_sequence (fst (crosswalk_step s i))"
    using e by (cases rule: crosswalk_evaluate_cases) (auto simp: st dest: crosswalk_gate_state(1))
  show "cw_recovery s \<le> cw_recovery (fst (crosswalk_step s i))"
    using e by (cases rule: crosswalk_evaluate_cases) (auto simp: st dest: crosswalk_gate_state(2))
  show "cw_last_sequence s \<le> crosswalk_number i \<and> cw_recovery s < crosswalk_number i"
    if "snd (crosswalk_step s i) = Some a" "a_manual_ready a"
    using e that by (cases rule: crosswalk_evaluate_cases)
      (auto simp: st crosswalk_number_def dest: crosswalk_gate_ready)
  show "cw_last_sequence s \<le> cw_recovery (fst (crosswalk_step s i)) \<and> crosswalk_number i \<le> cw_recovery (fst (crosswalk_step s i))"
    if d: "crosswalk_doubtful s i"
    using e
  proof (cases rule: crosswalk_evaluate_cases)
    case (gate now d far n)
    with d crosswalk_gate_state(3) [OF gate(5)] show ?thesis
      by (auto simp: st crosswalk_doubtful_def crosswalk_number_def)
  next
    case other
    with d show ?thesis by (auto simp: crosswalk_doubtful_def)
  qed
qed

end
