(* ===== verification/Docking.thy ===== *)
theory Docking
  imports Advisory_Models Evidence_Gate
begin

text \<open>
  \<^verbatim>\<open>DockingAdvisor\<close> of \<^verbatim>\<open>route_planner/behaviors/docking.py\<close>. The functions of the C math library
  it calls (\<^verbatim>\<open>hypot\<close>, \<^verbatim>\<open>atan2\<close>, \<^verbatim>\<open>sin\<close>, \<^verbatim>\<open>cos\<close>) are the fields of the parameter \<open>libm\<close>; no
  property depends on their values.
\<close>

record libm =
  hypot :: "rat \<Rightarrow> rat \<Rightarrow> rat"
  atan2 :: "rat \<Rightarrow> rat \<Rightarrow> rat"
  sin_of :: "rat \<Rightarrow> rat"
  cos_of :: "rat \<Rightarrow> rat"

text \<open>\<^verbatim>\<open>math.pi\<close>\<close>

definition math_pi :: rat where
  "math_pi = 884279719003555 / 281474976710656"

record docking =
  confidence_threshold :: rat
  target_jump_limit_m :: rat
  yaw_jump_limit_rad :: rat
  dk_last_sequence :: int
  last_target :: "(rat \<times> rat \<times> rat) option"
  last_target_sequence :: int
  dk_recovery :: int

definition docking_init :: "pyval \<Rightarrow> pyval \<Rightarrow> pyval \<Rightarrow> exn + docking" where
  "docking_init confidence jump yaw =
     sbind (finite_in confidence ''confidence threshold'' 0 1) (\<lambda>c.
     sbind (finite_in jump ''target jump limit'' (fl (1/100)) 5) (\<lambda>j.
     sbind (finite_in yaw ''yaw jump limit'' (fl (1/100)) math_pi) (\<lambda>y.
       Inr \<lparr>confidence_threshold = c, target_jump_limit_m = j, yaw_jump_limit_rad = y,
            dk_last_sequence = - 1, last_target = None, last_target_sequence = - 1, dk_recovery = - 1\<rparr>)))"

record docking_input = evidence +
  expected_venue :: pyval
  expected_zone :: pyval
  dock_contact_confirmed :: bool

definition docking_result :: "string \<Rightarrow> string \<Rightarrow> int \<Rightarrow> string list \<Rightarrow> pydict \<Rightarrow> bool \<Rightarrow> docking
    \<Rightarrow> (docking, advisory) outcome" where
  "docking_result state advice now reasons reqs ready s =
     (make_advisory ''DOCKING'' state advice ready ready reasons reqs (VInt now), s)"

definition target_of :: "pydict \<Rightarrow> exn + (rat \<times> rat \<times> rat) option" where
  "target_of observation =
     (case dget observation ''target_pose'' of
        VDict d \<Rightarrow>
          if keys_are d [''x'', ''y'', ''z'', ''yaw'']
          then contract_checked (
                 sbind (finite_in (dget d ''x'') ''target x'' (- 1000) 1000) (\<lambda>x.
                 sbind (finite_in (dget d ''y'') ''target y'' (- 1000) 1000) (\<lambda>y.
                 sbind (finite_in (dget d ''yaw'') ''target yaw'' (- math_pi) math_pi) (\<lambda>yaw.
                   Inr (x, y, yaw)))))
          else Inr None
      | _ \<Rightarrow> Inr None)"

definition confidence_of :: "pydict \<Rightarrow> exn + rat" where
  "confidence_of observation =
     sbind (contract_checked (finite_in (dget observation ''confidence'') ''ArUco confidence'' 0 1))
       (\<lambda>c. Inr (case c of Some x \<Rightarrow> x | None \<Rightarrow> 0))"

definition marker_count :: "pydict \<Rightarrow> nat" where
  "marker_count observation =
     (case dget_or observation ''marker_ids'' (VList []) of VList ids \<Rightarrow> length ids | _ \<Rightarrow> 0)"

definition target_jumped :: "libm \<Rightarrow> docking \<Rightarrow> (rat \<times> rat \<times> rat) option \<Rightarrow> int \<Rightarrow> bool" where
  "target_jumped L s target sequence =
     (case (target, last_target s) of
        (Some (x, y, yaw), Some (x0, y0, yaw0)) \<Rightarrow>
          last_target_sequence s < sequence
          \<and> (target_jump_limit_m s < hypot L (fl (x - x0)) (fl (y - y0))
             \<or> yaw_jump_limit_rad s
               < \<bar>atan2 L (sin_of L (fl (yaw - yaw0))) (cos_of L (fl (yaw - yaw0)))\<bar>)
      | _ \<Rightarrow> False)"

text \<open>The decision for the observation of the expected marker.\<close>

definition docking_track :: "libm \<Rightarrow> docking_input \<Rightarrow> int \<Rightarrow> int \<Rightarrow> string \<Rightarrow> string option \<Rightarrow> rat option
    \<Rightarrow> pydict \<Rightarrow> docking \<Rightarrow> (docking, advisory) outcome" where
  "docking_track L i now sequence venue zone distance observation s =
     obind (lift_exn (confidence_of observation) s) (\<lambda>confidence s.
     obind (lift_exn (target_of observation) s) (\<lambda>target s.
     let reqs = [(''expected_venue'', VStr venue), (''expected_zone'', opt_str zone),
                 (''marker_count'', VInt (int (marker_count observation))),
                 (''confidence_ready'', VBool (confidence_threshold s \<le> confidence)),
                 (''target_pose_ready'', VBool (target \<noteq> None)),
                 (''docking_ready'', VBool (dget observation ''docking_ready'' = VBool True))]
     in if target_jumped L s target sequence
     then docking_result ''FAULT'' ''FAULT'' now [''TARGET_JUMP''] reqs False (s\<lparr>dk_recovery := sequence\<rparr>)
     else let s = (if target \<noteq> None then s\<lparr>last_target := target, last_target_sequence := sequence\<rparr> else s)
     in if (case distance of None \<Rightarrow> False | Some d \<Rightarrow> 1 < d)
     then docking_result ''COARSE_APPROACH'' ''HOLD'' now [''DOCK_APPROACH_DISTANCE''] reqs False s
     else if marker_count observation < 1
     then docking_result ''SEARCH_MARKER'' ''SEARCH_MARKER'' now [''MARKER_NOT_VISIBLE''] reqs False s
     else case target of
       None \<Rightarrow> docking_result ''TRACK_MARKER'' ''SEARCH_MARKER'' now [''MARKER_EVIDENCE_INSUFFICIENT''] reqs False s
     | Some (x, y, yaw) \<Rightarrow>
         if confidence < confidence_threshold s
         then docking_result ''TRACK_MARKER'' ''SEARCH_MARKER'' now [''MARKER_EVIDENCE_INSUFFICIENT''] reqs False s
         else if dget observation ''docking_ready'' \<noteq> VBool True \<or> fl (15/100) < \<bar>y\<bar> \<or> fl (2/10) < \<bar>yaw\<bar>
         then docking_result ''ALIGN'' ''ALIGN'' now [''DOCK_ALIGNMENT_REQUIRED''] reqs False s
         else if dock_contact_confirmed i
         then docking_result ''DOCKED_CANDIDATE'' ''HOLD'' now [''OPERATOR_CONFIRMATION_REQUIRED''] reqs False s
         else docking_result ''READY'' ''DOCKING_READY'' now [] reqs True s))"

definition zone_conflict :: "string option \<Rightarrow> pydict \<Rightarrow> exn + bool" where
  \<comment> \<open>\<^verbatim>\<open>zone is not None and observation.get("zone_id") not in {None, zone}\<close>\<close>
  "zone_conflict zone observation =
     (case zone of
        None \<Rightarrow> Inr False
      | Some z \<Rightarrow> if \<not> hashable (dget observation ''zone_id'') then Inl TypeError
                  else Inr (dget observation ''zone_id'' \<notin> {VNone, VStr z}))"

definition docking_observe :: "libm \<Rightarrow> docking_input \<Rightarrow> int \<Rightarrow> int \<Rightarrow> string \<Rightarrow> string option \<Rightarrow> rat option
    \<Rightarrow> docking \<Rightarrow> (docking, advisory) outcome" where
  "docking_observe L i now sequence venue zone distance s =
     (let observations = p_aruco (perceived i);
          candidates = filter (\<lambda>item. dget item ''venue_id'' = VStr venue) observations;
          newer = s\<lparr>dk_recovery := max (dk_recovery s) sequence\<rparr>
      in case candidates of
           [] \<Rightarrow>
             if observations \<noteq> []
             then docking_result ''FAULT'' ''FAULT'' now [''VENUE_MISMATCH''] [(''expected_venue'', VStr venue)] False newer
             else docking_result (if last_target s \<noteq> None then ''LOST'' else ''SEARCH_MARKER'') ''SEARCH_MARKER'' now
                    [''MARKER_NOT_VISIBLE'']
                    [(''expected_venue'', VStr venue), (''marker_visible'', VBool False)] False s
         | observation # _ \<Rightarrow>
             obind (lift_exn (zone_conflict zone observation) s) (\<lambda>conflict s.
             if conflict
             then docking_result ''FAULT'' ''FAULT'' now [''ZONE_MISMATCH'']
                    [(''expected_venue'', VStr venue), (''expected_zone'', opt_str zone)] False newer
             else docking_track L i now sequence venue zone distance observation s))"

definition docking_gate :: "libm \<Rightarrow> docking_input \<Rightarrow> int \<Rightarrow> int \<Rightarrow> string \<Rightarrow> string option \<Rightarrow> rat option
    \<Rightarrow> docking \<Rightarrow> (docking, advisory) outcome" where
  "docking_gate L i now sequence venue zone distance s =
     (if sequence < dk_last_sequence s
      then docking_result ''FAULT'' ''FAULT'' now [''SEQUENCE_ROLLBACK''] [] False
             (s\<lparr>dk_recovery := max (dk_recovery s) (dk_last_sequence s)\<rparr>)
      else let s = s\<lparr>dk_last_sequence := max (dk_last_sequence s) sequence\<rparr>;
               newer = s\<lparr>dk_recovery := max (dk_recovery s) sequence\<rparr>
      in if \<not> revisions_current i \<or> \<not> pose_fresh i
      then docking_result ''FAULT'' ''FAULT'' now
             [if \<not> revisions_current i then ''REVISION_CHANGED'' else ''POSE_STALE''] [] False newer
      else if p_fresh (perceived i) \<noteq> VBool True
      then docking_result ''LOST'' ''HOLD'' now [''PERCEPTION_STALE''] [] False newer
      else if sequence \<le> dk_recovery s
      then docking_result ''LOST'' ''HOLD'' now [''NEW_EVIDENCE_REQUIRED''] [] False s
      else docking_observe L i now sequence venue zone distance s)"

definition docking_inputs :: "docking_input \<Rightarrow> exn + string \<times> string option \<times> rat option \<times> int" where
  "docking_inputs i =
     sbind (token_of (expected_venue i) ''expected venue'') (\<lambda>venue.
     sbind (if expected_zone i = VNone then Inr None
            else sbind (token_of (expected_zone i) ''expected zone'') (\<lambda>z. Inr (Some z))) (\<lambda>zone.
     sbind (optional_distance (distance_m i) ''dock distance'') (\<lambda>distance.
     sbind (uint64 (p_sequence (perceived i)) ''perception sequence'') (\<lambda>sequence.
       Inr (venue, zone, distance, sequence)))))"

definition docking_evaluate :: "libm \<Rightarrow> docking_input \<Rightarrow> docking \<Rightarrow> (docking, advisory) outcome" where
  "docking_evaluate L i s =
     obind (lift_exn (uint64 (now_ns i) ''now_ns'') s) (\<lambda>now s.
     if \<not> seg_is (seg i) ''DOCKING_APPROACH'' then docking_result ''IDLE'' ''HOLD'' now [] [] False s
     else
     obind (lift_exn (contract_checked (docking_inputs i)) s) (\<lambda>checked s.
     case checked of
       None \<Rightarrow> docking_result ''FAULT'' ''FAULT'' now [''INPUT_INVALID''] [] False s
     | Some (venue, zone, distance, sequence) \<Rightarrow> docking_gate L i now sequence venue zone distance s))"

subsection \<open>What a ready dock rests on\<close>

lemma docking_result_ready:
  "docking_result state advice now reasons reqs ready s = (Inr a, s') \<Longrightarrow> a_manual_ready a = ready"
  by (auto simp: docking_result_def dest: make_advisory_fields)

lemma docking_result_keeps [simp]:
  "snd (docking_result state advice now reasons reqs ready s) = s"
  by (simp add: docking_result_def)

lemma docking_not_ready:
  "docking_result state advice now reasons reqs False s = (Inr a, s') \<Longrightarrow> \<not> a_manual_ready a"
  using docking_result_ready by blast

lemma docking_track_ready:
  assumes "docking_track L i now n venue zone d observation s = (Inr a, s')" "a_manual_ready a"
  shows "\<exists>x y yaw c. target_of observation = Inr (Some (x, y, yaw)) \<and> confidence_of observation = Inr c
    \<and> confidence_threshold s \<le> c \<and> \<bar>y\<bar> \<le> fl (15/100) \<and> \<bar>yaw\<bar> \<le> fl (2/10)
    \<and> dget observation ''docking_ready'' = VBool True \<and> 1 \<le> marker_count observation
    \<and> \<not> target_jumped L s (Some (x, y, yaw)) n \<and> \<not> dock_contact_confirmed i"
proof -
  obtain c t where ct: "confidence_of observation = Inr c" "target_of observation = Inr t"
    using assms(1)
    by (cases "confidence_of observation"; cases "target_of observation") (auto simp: docking_track_def)
  with assms show ?thesis
    by (cases t) (auto simp: docking_track_def Let_def dest!: docking_not_ready
      split: if_splits option.splits)
qed

lemma docking_track_state:
  "dk_last_sequence (snd (docking_track L i now n venue zone d observation s)) = dk_last_sequence s"
  "dk_recovery (snd (docking_track L i now n venue zone d observation s)) \<in> {dk_recovery s, n}"
  by (auto simp: docking_track_def obind_def Let_def split: sum.split option.split)

lemma docking_observe_state:
  "dk_last_sequence (snd (docking_observe L i now n venue zone d s)) = dk_last_sequence s"
  "dk_recovery (snd (docking_observe L i now n venue zone d s)) \<in> {dk_recovery s, n, max (dk_recovery s) n}"
  using docking_track_state [of L i now n venue zone d _ s]
  by (auto simp: docking_observe_def obind_def Let_def split: sum.split list.split)

lemma docking_gate_state:
  assumes "docking_gate L i now n venue zone d s = (r, s')"
  shows "dk_last_sequence s' = max (dk_last_sequence s) n" "dk_recovery s \<le> dk_recovery s'"
    "n < dk_last_sequence s \<or> \<not> revisions_current i \<or> \<not> pose_fresh i \<or> p_fresh (perceived i) \<noteq> VBool True
      \<Longrightarrow> max (dk_last_sequence s) n \<le> dk_recovery s'"
proof -
  have s': "s' = snd (docking_gate L i now n venue zone d s)" using assms by simp
  note obs = docking_observe_state [of L i now n venue zone d]
  show "dk_last_sequence s' = max (dk_last_sequence s) n"
    unfolding s' by (simp add: docking_gate_def Let_def obs)
  show "dk_recovery s \<le> dk_recovery s'"
    unfolding s' using obs(2) [of "s\<lparr>dk_last_sequence := max (dk_last_sequence s) n\<rparr>"]
    by (auto simp: docking_gate_def Let_def)
  show "n < dk_last_sequence s \<or> \<not> revisions_current i \<or> \<not> pose_fresh i \<or> p_fresh (perceived i) \<noteq> VBool True
      \<Longrightarrow> max (dk_last_sequence s) n \<le> dk_recovery s'"
    unfolding s' by (auto simp: docking_gate_def Let_def)
qed


lemma docking_gate_ready:
  assumes "docking_gate L i now n venue zone d s = (Inr a, s')" "a_manual_ready a"
  shows "dk_last_sequence s \<le> n \<and> dk_recovery s < n \<and> revisions_current i \<and> pose_fresh i
    \<and> p_fresh (perceived i) = VBool True
    \<and> (\<exists>observation x y yaw c. observation \<in> set (p_aruco (perceived i))
         \<and> dget observation ''venue_id'' = VStr venue
         \<and> target_of observation = Inr (Some (x, y, yaw)) \<and> confidence_of observation = Inr c
         \<and> confidence_threshold s \<le> c \<and> \<bar>y\<bar> \<le> fl (15/100) \<and> \<bar>yaw\<bar> \<le> fl (2/10)
         \<and> dget observation ''docking_ready'' = VBool True \<and> 1 \<le> marker_count observation
         \<and> \<not> target_jumped L s (Some (x, y, yaw)) n \<and> \<not> dock_contact_confirmed i)"
proof -
  define s1 where "s1 = s\<lparr>dk_last_sequence := max (dk_last_sequence s) n\<rparr>"
  have g: "\<not> n < dk_last_sequence s" "revisions_current i" "pose_fresh i"
    "p_fresh (perceived i) = VBool True" "\<not> n \<le> dk_recovery s"
    "docking_observe L i now n venue zone d s1 = (Inr a, s')"
    using assms unfolding docking_gate_def Let_def s1_def
    by (auto dest: docking_not_ready split: if_splits)
  obtain ob obs where ob: "filter (\<lambda>item. dget item ''venue_id'' = VStr venue) (p_aruco (perceived i)) = ob # obs"
    using g(6) assms(2)
    by (cases "filter (\<lambda>item. dget item ''venue_id'' = VStr venue) (p_aruco (perceived i))")
       (auto simp: docking_observe_def Let_def dest: docking_not_ready split: if_splits)
  then have "ob \<in> set (filter (\<lambda>item. dget item ''venue_id'' = VStr venue) (p_aruco (perceived i)))"
    by simp
  then have "ob \<in> set (p_aruco (perceived i))" "dget ob ''venue_id'' = VStr venue"
    by simp_all
  moreover have "docking_track L i now n venue zone d ob s1 = (Inr a, s')"
    using g(6) ob assms(2)
    by (cases "zone_conflict zone ob") (auto simp: docking_observe_def Let_def dest: docking_not_ready split: if_splits)
  moreover have "target_jumped L s1 t m = target_jumped L s t m" for t m
    by (auto simp: target_jumped_def s1_def split: option.split)
  moreover have "confidence_threshold s1 = confidence_threshold s"
    by (simp add: s1_def)
  ultimately show ?thesis
    using g(1-5) docking_track_ready [of L i now n venue zone d ob s1 a s'] assms(2) by fastforce
qed

lemma docking_evaluate_cases:
  assumes "docking_evaluate L i s = (r, s')"
  obtains (gate) now venue zone d n where "seg_is (seg i) ''DOCKING_APPROACH''" "now_ns i = VInt now"
      "docking_inputs i = Inr (venue, zone, d, n)" "p_sequence (perceived i) = VInt n"
      "expected_venue i = VStr venue"
      "docking_gate L i now n venue zone d s = (r, s')"
  | (other) "\<not> (\<exists>a. r = Inr a \<and> a_manual_ready a)" "s' = s"
      "\<not> seg_is (seg i) ''DOCKING_APPROACH'' \<or> (\<nexists>x. docking_inputs i = Inr x) \<or> (\<nexists>t. uint64 (now_ns i) ''now_ns'' = Inr t)"
proof -
  have res: "(\<nexists>a. r = Inr a \<and> a_manual_ready a) \<and> s' = s"
    if "docking_result state advice now reasons reqs False s = (r, s')" for state advice now reasons reqs
    using that docking_not_ready [of state advice now reasons reqs s _ s']
    by (auto simp: docking_result_def)
  show thesis
  proof (cases "uint64 (now_ns i) ''now_ns''")
    case (Inl e)
    then show ?thesis using assms other by (auto simp: docking_evaluate_def)
  next
    case now: (Inr now)
    show ?thesis
    proof (cases "seg_is (seg i) ''DOCKING_APPROACH''")
      case False
      with assms now have "docking_result ''IDLE'' ''HOLD'' now [] [] False s = (r, s')"
        by (simp add: docking_evaluate_def)
      with False res show ?thesis using other by blast
    next
      case seg: True
      show ?thesis
      proof (cases "docking_inputs i")
        case (Inl e)
        have "docking_result ''FAULT'' ''FAULT'' now [''INPUT_INVALID''] [] False s = (r, s') \<or> (r = Inl e \<and> s' = s)"
          using assms now seg Inl by (cases e) (auto simp: docking_evaluate_def contract_checked_def)
        with Inl res show ?thesis using other by fastforce
      next
        case (Inr x)
        obtain venue zone d n where x: "x = (venue, zone, d, n)" by (cases x)
        with Inr have "p_sequence (perceived i) = VInt n" "expected_venue i = VStr venue"
          by (auto simp: docking_inputs_def sbind_Inr_iff uint64_iff token_of_def is_str_iff split: if_splits)
        with Inr x show ?thesis using assms gate now seg
          by (auto simp: docking_evaluate_def contract_checked_def uint64_iff)
      qed
    qed
  qed
qed

definition docking_number :: "docking_input \<Rightarrow> int" where
  "docking_number i = int_val (p_sequence (perceived i))"

definition docking_doubtful :: "docking \<Rightarrow> docking_input \<Rightarrow> bool" where
  "docking_doubtful s i \<longleftrightarrow> seg_is (seg i) ''DOCKING_APPROACH'' \<and> (\<exists>x. docking_inputs i = Inr x)
     \<and> (\<exists>t. uint64 (now_ns i) ''now_ns'' = Inr t)
     \<and> (docking_number i < dk_last_sequence s \<or> \<not> revisions_current i \<or> \<not> pose_fresh i
        \<or> p_fresh (perceived i) \<noteq> VBool True)"

definition docking_step :: "libm \<Rightarrow> docking \<Rightarrow> docking_input \<Rightarrow> docking \<times> advisory option" where
  "docking_step L s i = result_option (docking_evaluate L i s)"

interpretation docking: evidence_gate "docking_step L" dk_last_sequence dk_recovery docking_number
  a_manual_ready docking_doubtful
proof unfold_locales
  fix s i a
  obtain r s' where e: "docking_evaluate L i s = (r, s')" by fastforce
  have st: "fst (docking_step L s i) = s'" "snd (docking_step L s i) = Some a \<longleftrightarrow> r = Inr a" for a
    by (simp_all add: docking_step_def e fst_result_option snd_result_option)
  show "dk_last_sequence s \<le> dk_last_sequence (fst (docking_step L s i))"
    using e by (cases rule: docking_evaluate_cases) (auto simp: st dest: docking_gate_state(1))
  show "dk_recovery s \<le> dk_recovery (fst (docking_step L s i))"
    using e by (cases rule: docking_evaluate_cases) (auto simp: st dest: docking_gate_state(2))
  show "dk_last_sequence s \<le> docking_number i \<and> dk_recovery s < docking_number i"
    if "snd (docking_step L s i) = Some a" "a_manual_ready a"
    using e that by (cases rule: docking_evaluate_cases)
      (auto simp: st docking_number_def dest: docking_gate_ready)
  show "dk_last_sequence s \<le> dk_recovery (fst (docking_step L s i)) \<and> docking_number i \<le> dk_recovery (fst (docking_step L s i))"
    if d: "docking_doubtful s i"
    using e
  proof (cases rule: docking_evaluate_cases)
    case (gate now venue zone di n)
    with d docking_gate_state(3) [OF gate(6)] show ?thesis
      by (auto simp: st docking_doubtful_def docking_number_def)
  next
    case other
    with d show ?thesis by (auto simp: docking_doubtful_def)
  qed
qed

end
