(* ===== verification/Underpass.thy ===== *)
theory Underpass
  imports Advisory_Models Evidence_Gate
begin

text \<open>
  \<^verbatim>\<open>UnderpassAdvisor\<close> of \<^verbatim>\<open>route_planner/behaviors/underpass.py\<close>. Beside the evidence gate it keeps
  an epoch: each doubt ends the epoch, and an operator's confirmation counts only for the epoch
  it was given in.
\<close>

record underpass =
  up_last_sequence :: int
  up_recovery :: int
  confirmation_epoch :: int

definition underpass_init :: underpass where
  "underpass_init = \<lparr>up_last_sequence = - 1, up_recovery = - 1, confirmation_epoch = 0\<rparr>"

definition invalidate_confirmation :: "underpass \<Rightarrow> underpass" where
  "invalidate_confirmation s = s\<lparr>confirmation_epoch := confirmation_epoch s + 1\<rparr>"

record underpass_input = evidence +
  operator_confirmed :: bool
  service_robot_clear :: pyval
  traversing :: bool
  exit_observed :: bool
  confirmed_epoch :: int

definition underpass_result :: "string \<Rightarrow> string \<Rightarrow> int \<Rightarrow> string list \<Rightarrow> pydict \<Rightarrow> bool \<Rightarrow> underpass
    \<Rightarrow> (underpass, advisory) outcome" where
  "underpass_result state advice now reasons reqs ready s =
     (make_advisory ''UNDERPASS'' state advice ready False reasons reqs (VInt now), s)"

definition confirmed_now :: "underpass_input \<Rightarrow> underpass \<Rightarrow> bool" where
  "confirmed_now i s \<longleftrightarrow> operator_confirmed i \<and> confirmed_epoch i = confirmation_epoch s"

definition underpass_observe :: "underpass_input \<Rightarrow> int \<Rightarrow> rat option \<Rightarrow> underpass
    \<Rightarrow> (underpass, advisory) outcome" where
  "underpass_observe i now distance s =
     (if service_robot_clear i \<noteq> VNone \<and> \<not> is_bool (service_robot_clear i)
      then underpass_result ''FAULT'' ''FAULT'' now [''SERVICE_ROBOT_STATE_INVALID''] [] False s
      else let blocked = p_underpass_blocked (perceived i);
               people = map (\<lambda>item. dget item ''occupancy'') (p_people (perceived i));
               person_clear = (people \<noteq> [] \<and> list_all (\<lambda>v. v = VStr ''CLEAR'') people);
               person_blocked = list_ex (\<lambda>v. v = VStr ''OCCUPIED'') people;
               reqs = [(''underpass_clear'', VBool (blocked = VBool False)),
                       (''person_clear'', VBool person_clear),
                       (''service_robot_clear'', service_robot_clear i),
                       (''operator_confirmed'', VBool (confirmed_now i s)),
                       (''special_gait_operator_owned'', VBool True)]
      in if blocked = VBool True \<or> person_blocked \<or> service_robot_clear i = VBool False
      then underpass_result ''BLOCKED'' ''HOLD'' now
             ((if blocked = VBool True then [''UNDERPASS_BLOCKED''] else [])
              @ (if person_blocked then [''PERSON_OCCUPIED''] else [])
              @ (if service_robot_clear i = VBool False then [''SERVICE_ROBOT_BLOCKED''] else [])) reqs False s
      else if blocked \<noteq> VBool False \<or> \<not> person_clear \<or> service_robot_clear i = VNone
      then underpass_result ''WAIT_CLEAR'' ''WAIT'' now [''CLEARANCE_UNKNOWN''] reqs False s
      else if (case distance of None \<Rightarrow> False | Some d \<Rightarrow> 1 < d)
      then underpass_result ''APPROACH'' ''HOLD'' now [''APPROACHING_UNDERPASS''] reqs False s
      else if exit_observed i then underpass_result ''EXIT'' ''COMPLETE'' now [] reqs False s
      else if traversing i
      then underpass_result ''TRAVERSING_OBSERVE'' ''PROCEED_RECOMMENDED'' now [''OBSERVE_WHILE_TRAVERSING''] reqs True s
      else if \<not> confirmed_now i s
      then underpass_result ''WAIT_CLEAR'' ''WAIT'' now [''OPERATOR_CONFIRMATION_REQUIRED''] reqs False s
      else underpass_result ''READY'' ''PROCEED_RECOMMENDED'' now [''SPECIAL_GAIT_OPERATOR_OWNED''] reqs True s)"

definition underpass_gate :: "underpass_input \<Rightarrow> int \<Rightarrow> int \<Rightarrow> rat option \<Rightarrow> underpass
    \<Rightarrow> (underpass, advisory) outcome" where
  "underpass_gate i now sequence distance s =
     (if sequence < up_last_sequence s
      then underpass_result ''FAULT'' ''FAULT'' now [''SEQUENCE_ROLLBACK''] [] False
             (invalidate_confirmation (s\<lparr>up_recovery := max (up_recovery s) (up_last_sequence s)\<rparr>))
      else let s = s\<lparr>up_last_sequence := max (up_last_sequence s) sequence\<rparr>;
               doubted = invalidate_confirmation (s\<lparr>up_recovery := max (up_recovery s) sequence\<rparr>)
      in if \<not> revisions_current i \<or> \<not> pose_fresh i
      then underpass_result ''FAULT'' ''FAULT'' now
             [if \<not> revisions_current i then ''REVISION_CHANGED'' else ''POSE_STALE''] [] False doubted
      else if p_fresh (perceived i) \<noteq> VBool True
      then underpass_result ''WAIT_CLEAR'' ''HOLD'' now [''PERCEPTION_STALE''] [] False doubted
      else if sequence \<le> up_recovery s
      then underpass_result ''WAIT_CLEAR'' ''HOLD'' now [''NEW_EVIDENCE_REQUIRED''] [] False s
      else underpass_observe i now distance s)"

definition underpass_inputs :: "underpass_input \<Rightarrow> exn + int \<times> rat option" where
  "underpass_inputs i =
     sbind (uint64 (p_sequence (perceived i)) ''perception sequence'') (\<lambda>sequence.
     sbind (optional_distance (distance_m i) ''entry distance'') (\<lambda>distance. Inr (sequence, distance)))"

definition underpass_evaluate :: "underpass_input \<Rightarrow> underpass \<Rightarrow> (underpass, advisory) outcome" where
  "underpass_evaluate i s =
     obind (lift_exn (uint64 (now_ns i) ''now_ns'') s) (\<lambda>now s.
     if \<not> seg_is (seg i) ''UNDERPASS'' then underpass_result ''IDLE'' ''HOLD'' now [] [] False s
     else
     obind (lift_exn (contract_checked (underpass_inputs i)) s) (\<lambda>checked s.
     case checked of
       None \<Rightarrow> underpass_result ''FAULT'' ''FAULT'' now [''INPUT_INVALID''] [] False s
     | Some (sequence, distance) \<Rightarrow> underpass_gate i now sequence distance s))"

subsection \<open>What a ready underpass rests on\<close>

lemma underpass_not_ready:
  "underpass_result state advice now reasons reqs False s = (Inr a, s') \<Longrightarrow> \<not> a_manual_ready a"
  by (auto simp: underpass_result_def dest: make_advisory_fields)

lemma underpass_never_edge_ready:
  "underpass_result state advice now reasons reqs ready s = (Inr a, s') \<Longrightarrow> \<not> a_edge_ready a"
  by (auto simp: underpass_result_def dest: make_advisory_fields)

lemma underpass_result_keeps [simp]: "snd (underpass_result state advice now reasons reqs ready s) = s"
  by (simp add: underpass_result_def)

lemma underpass_observe_keeps [simp]: "snd (underpass_observe i now d s) = s"
  by (simp add: underpass_observe_def Let_def)

lemma underpass_observe_ready:
  assumes "underpass_observe i now d s = (Inr a, s')" "a_manual_ready a"
  shows "p_underpass_blocked (perceived i) = VBool False \<and> p_people (perceived i) \<noteq> []
    \<and> list_all (\<lambda>item. dget item ''occupancy'' = VStr ''CLEAR'') (p_people (perceived i))
    \<and> service_robot_clear i = VBool True \<and> \<not> exit_observed i
    \<and> (traversing i \<or> operator_confirmed i \<and> confirmed_epoch i = confirmation_epoch s)"
proof -
  have sr: "service_robot_clear i \<in> {VNone, VBool False, VBool True} \<or> \<not> is_bool (service_robot_clear i)"
    by (cases "service_robot_clear i") auto
  show ?thesis using assms sr
    by (auto simp: underpass_observe_def Let_def confirmed_now_def list_all_iff
        dest!: underpass_not_ready split: if_splits)
qed

lemma underpass_gate_state:
  assumes "underpass_gate i now n d s = (r, s')"
  shows "up_last_sequence s' = max (up_last_sequence s) n" "up_recovery s \<le> up_recovery s'"
    "n < up_last_sequence s \<or> \<not> revisions_current i \<or> \<not> pose_fresh i \<or> p_fresh (perceived i) \<noteq> VBool True
      \<Longrightarrow> max (up_last_sequence s) n \<le> up_recovery s' \<and> confirmation_epoch s' = confirmation_epoch s + 1"
proof -
  have s': "s' = snd (underpass_gate i now n d s)" using assms by simp
  show "up_last_sequence s' = max (up_last_sequence s) n" "up_recovery s \<le> up_recovery s'"
    "n < up_last_sequence s \<or> \<not> revisions_current i \<or> \<not> pose_fresh i \<or> p_fresh (perceived i) \<noteq> VBool True
      \<Longrightarrow> max (up_last_sequence s) n \<le> up_recovery s' \<and> confirmation_epoch s' = confirmation_epoch s + 1"
    unfolding s' by (auto simp: underpass_gate_def Let_def invalidate_confirmation_def)
qed

lemma underpass_gate_ready:
  assumes "underpass_gate i now n d s = (Inr a, s')" "a_manual_ready a"
  shows "up_last_sequence s \<le> n \<and> up_recovery s < n \<and> revisions_current i \<and> pose_fresh i
    \<and> p_fresh (perceived i) = VBool True
    \<and> underpass_observe i now d (s\<lparr>up_last_sequence := max (up_last_sequence s) n\<rparr>) = (Inr a, s')"
  using assms unfolding underpass_gate_def Let_def
  by (auto dest: underpass_not_ready split: if_splits)

lemma underpass_evaluate_cases:
  assumes "underpass_evaluate i s = (r, s')"
  obtains (gate) now d n where "seg_is (seg i) ''UNDERPASS''" "now_ns i = VInt now"
      "underpass_inputs i = Inr (n, d)" "p_sequence (perceived i) = VInt n"
      "underpass_gate i now n d s = (r, s')"
  | (other) "\<not> (\<exists>a. r = Inr a \<and> a_manual_ready a)" "s' = s"
      "\<not> seg_is (seg i) ''UNDERPASS'' \<or> (\<nexists>x. underpass_inputs i = Inr x) \<or> (\<nexists>t. uint64 (now_ns i) ''now_ns'' = Inr t)"
proof -
  have res: "(\<nexists>a. r = Inr a \<and> a_manual_ready a) \<and> s' = s"
    if "underpass_result state advice now reasons reqs False s = (r, s')" for state advice now reasons reqs
    using that underpass_not_ready [of state advice now reasons reqs s _ s']
    by (auto simp: underpass_result_def)
  show thesis
  proof (cases "uint64 (now_ns i) ''now_ns''")
    case (Inl e)
    then show ?thesis using assms other by (auto simp: underpass_evaluate_def)
  next
    case now: (Inr now)
    show ?thesis
    proof (cases "seg_is (seg i) ''UNDERPASS''")
      case False
      with assms now have "underpass_result ''IDLE'' ''HOLD'' now [] [] False s = (r, s')"
        by (simp add: underpass_evaluate_def)
      with False res show ?thesis using other by blast
    next
      case seg: True
      show ?thesis
      proof (cases "underpass_inputs i")
        case (Inl e)
        have "underpass_result ''FAULT'' ''FAULT'' now [''INPUT_INVALID''] [] False s = (r, s') \<or> (r = Inl e \<and> s' = s)"
          using assms now seg Inl by (cases e) (auto simp: underpass_evaluate_def contract_checked_def)
        with Inl res show ?thesis using other by fastforce
      next
        case (Inr x)
        obtain n d where x: "x = (n, d)" by (cases x)
        with Inr have "p_sequence (perceived i) = VInt n"
          by (auto simp: underpass_inputs_def sbind_Inr_iff uint64_iff)
        with Inr x show ?thesis using assms gate now seg
          by (auto simp: underpass_evaluate_def contract_checked_def uint64_iff)
      qed
    qed
  qed
qed

definition underpass_number :: "underpass_input \<Rightarrow> int" where
  "underpass_number i = int_val (p_sequence (perceived i))"

definition underpass_doubtful :: "underpass \<Rightarrow> underpass_input \<Rightarrow> bool" where
  "underpass_doubtful s i \<longleftrightarrow> seg_is (seg i) ''UNDERPASS'' \<and> (\<exists>x. underpass_inputs i = Inr x)
     \<and> (\<exists>t. uint64 (now_ns i) ''now_ns'' = Inr t)
     \<and> (underpass_number i < up_last_sequence s \<or> \<not> revisions_current i \<or> \<not> pose_fresh i
        \<or> p_fresh (perceived i) \<noteq> VBool True)"

definition underpass_step :: "underpass \<Rightarrow> underpass_input \<Rightarrow> underpass \<times> advisory option" where
  "underpass_step s i = result_option (underpass_evaluate i s)"

interpretation underpass: evidence_gate underpass_step up_last_sequence up_recovery underpass_number
  a_manual_ready underpass_doubtful
proof unfold_locales
  fix s i a
  obtain r s' where e: "underpass_evaluate i s = (r, s')" by fastforce
  have st: "fst (underpass_step s i) = s'" "snd (underpass_step s i) = Some a \<longleftrightarrow> r = Inr a" for a
    by (simp_all add: underpass_step_def e fst_result_option snd_result_option)
  show "up_last_sequence s \<le> up_last_sequence (fst (underpass_step s i))"
    using e by (cases rule: underpass_evaluate_cases) (auto simp: st dest: underpass_gate_state(1))
  show "up_recovery s \<le> up_recovery (fst (underpass_step s i))"
    using e by (cases rule: underpass_evaluate_cases) (auto simp: st dest: underpass_gate_state(2))
  show "up_last_sequence s \<le> underpass_number i \<and> up_recovery s < underpass_number i"
    if "snd (underpass_step s i) = Some a" "a_manual_ready a"
    using e that by (cases rule: underpass_evaluate_cases)
      (auto simp: st underpass_number_def dest: underpass_gate_ready)
  show "up_last_sequence s \<le> up_recovery (fst (underpass_step s i)) \<and> underpass_number i \<le> up_recovery (fst (underpass_step s i))"
    if d: "underpass_doubtful s i"
    using e
  proof (cases rule: underpass_evaluate_cases)
    case (gate now di n)
    with d underpass_gate_state(3) [OF gate(5)] show ?thesis
      by (auto simp: st underpass_doubtful_def underpass_number_def)
  next
    case other
    with d show ?thesis by (auto simp: underpass_doubtful_def)
  qed
qed

subsection \<open>The epoch of confirmations\<close>

lemma underpass_evaluate_edge:
  assumes "underpass_evaluate i s = (Inr a, s')"
  shows "\<not> a_edge_ready a"
proof -
  have gate: "\<not> a_edge_ready a" if "underpass_gate i now n d s = (Inr a, s')" for now n d
    using that unfolding underpass_gate_def underpass_observe_def Let_def
    by (auto dest: underpass_never_edge_ready split: if_splits)
  show ?thesis
    using assms unfolding underpass_evaluate_def
    by (auto dest: underpass_never_edge_ready gate split: if_splits option.splits simp: obind_def lift_exn_def split: sum.splits)
qed

lemma underpass_ready_confirmed:
  assumes "fst (underpass_evaluate i s) = Inr a" "a_manual_ready a"
  shows "traversing i \<or> operator_confirmed i \<and> confirmed_epoch i = confirmation_epoch s"
proof -
  obtain s' where "underpass_evaluate i s = (Inr a, s')" using assms(1) by (metis prod.collapse)
  then show ?thesis
  proof (cases rule: underpass_evaluate_cases)
    case (gate now d n)
    show ?thesis
      using underpass_observe_ready [OF conjunct2 [OF conjunct2 [OF conjunct2 [OF conjunct2 [OF conjunct2
        [OF underpass_gate_ready [OF gate(5) assms(2)]]]]]] assms(2)] by simp
  qed (use assms in auto)
qed

lemma underpass_doubt_epoch:
  assumes "underpass_doubtful s i"
  shows "confirmation_epoch s < confirmation_epoch (snd (underpass_evaluate i s))"
proof -
  obtain r s' where e: "underpass_evaluate i s = (r, s')" by fastforce
  then show ?thesis
  proof (cases rule: underpass_evaluate_cases)
    case (gate now d n)
    with assms underpass_gate_state(3) [OF gate(5)] show ?thesis
      by (auto simp: e underpass_doubtful_def underpass_number_def)
  next
    case other
    with assms show ?thesis by (auto simp: underpass_doubtful_def)
  qed
qed

lemma underpass_epoch_mono: "confirmation_epoch s \<le> confirmation_epoch (snd (underpass_evaluate i s))"
proof -
  obtain r s' where e: "underpass_evaluate i s = (r, s')" by fastforce
  then show ?thesis
  proof (cases rule: underpass_evaluate_cases)
    case (gate now d n)
    then have "s' = snd (underpass_gate i now n d s)" by simp
    then show ?thesis by (simp add: e underpass_gate_def Let_def invalidate_confirmation_def)
  next
    case other
    then show ?thesis by (simp add: e)
  qed
qed

lemma underpass_epoch_settle: "confirmation_epoch s \<le> confirmation_epoch (settle underpass_step is s)"
  unfolding settle_def
proof (induction "is" arbitrary: s)
  case (Cons i "is")
  from Cons.IH [of "fst (underpass_step s i)"] underpass_epoch_mono [of s i] show ?case
    by (simp add: underpass_step_def fst_result_option)
qed simp

end
