(* ===== verification/Advisory_Claims.thy ===== *)
theory Advisory_Claims
  imports Crosswalk Docking Underpass
begin

text \<open>
  The properties of the three segment advisors: what a recommendation to proceed rests on, and
  that evidence doubted once is never used again.
\<close>

subsection \<open>Concrete evidence\<close>

definition demo_perception :: "int \<Rightarrow> perception" where
  "demo_perception n =
     \<lparr>p_sequence = VInt n, p_fresh = VBool True,
      p_traffic = [[(''crosswalk_id'', VStr ''cw-1''), (''signal'', VStr ''GREEN''), (''consecutive_frames'', VInt 2)]],
      p_people = [[(''crosswalk_id'', VStr ''cw-1''), (''occupancy'', VStr ''CLEAR'')]],
      p_crosswalks = [[(''crosswalk_id'', VStr ''cw-1''), (''visible'', VBool True),
        (''lateral_offset_m'', VFloat (Fin (1/8))), (''heading_error_rad'', VFloat (Fin 0)),
        (''left_boundary_distance_m'', VFloat (Fin (1/2))), (''right_boundary_distance_m'', VFloat (Fin (1/2)))]],
      p_aruco = [[(''venue_id'', VStr ''CAFE''), (''zone_id'', VNone), (''marker_ids'', VList [VInt 7]),
        (''confidence'', VFloat (Fin 1)), (''docking_ready'', VBool True),
        (''target_pose'', VDict [(''x'', VFloat (Fin 1)), (''y'', VFloat (Fin 0)), (''z'', VFloat (Fin 0)), (''yaw'', VFloat (Fin 0))])]],
      p_underpass_blocked = VBool False\<rparr>"

definition demo_crossing :: "bool \<Rightarrow> int \<Rightarrow> crosswalk_input" where
  "demo_crossing posed n =
     \<lparr>seg = Some [(''type'', VStr ''CROSSWALK'')], perceived = demo_perception n, now_ns = VInt 1000,
      distance_m = VFloat (Fin (1/2)), pose_fresh = posed, revisions_current = True,
      deviation_m = VFloat (Fin (1/4)), crossing = False, exit_confirmed = False, feet_outside = VInt 1,
      expected_crosswalk = Some ''cw-1''\<rparr>"

definition demo_docking :: "bool \<Rightarrow> int \<Rightarrow> docking_input" where
  "demo_docking posed n =
     \<lparr>seg = Some [(''type'', VStr ''DOCKING_APPROACH'')], perceived = demo_perception n, now_ns = VInt 1000,
      distance_m = VFloat (Fin (1/2)), pose_fresh = posed, revisions_current = True,
      expected_venue = VStr ''CAFE'', expected_zone = VNone, dock_contact_confirmed = False\<rparr>"

definition demo_underpass :: "bool \<Rightarrow> int \<Rightarrow> int \<Rightarrow> underpass_input" where
  "demo_underpass posed n epoch =
     \<lparr>seg = Some [(''type'', VStr ''UNDERPASS'')], perceived = demo_perception n, now_ns = VInt 1000,
      distance_m = VFloat (Fin (1/2)), pose_fresh = posed, revisions_current = True,
      operator_confirmed = True, service_robot_clear = VBool True, traversing = False,
      exit_observed = False, confirmed_epoch = epoch\<rparr>"

definition demo_crosswalk :: crosswalk where
  "demo_crosswalk = \<lparr>lateral_limit_m = 1/4, heading_limit_rad = 1/4, cw_last_sequence = - 1,
     cw_recovery = - 1, was_ready = False\<rparr>"

definition demo_dock :: docking where
  "demo_dock = \<lparr>confidence_threshold = 3/4, target_jump_limit_m = 1/2, yaw_jump_limit_rad = 1/2,
     dk_last_sequence = - 1, last_target = None, last_target_sequence = - 1, dk_recovery = - 1\<rparr>"

text \<open>A math library that returns zeros; no decision of the examples reads it.\<close>

definition zero_libm :: libm where
  "zero_libm = \<lparr>hypot = \<lambda>x y. 0, atan2 = \<lambda>x y. 0, sin_of = \<lambda>x. 0, cos_of = \<lambda>x. 0\<rparr>"

lemma fl_not_neg [simp]: "0 \<le> x \<Longrightarrow> \<not> fl x < 0"
  by (simp add: not_less fl_nonneg)

lemmas demo_defs = demo_perception_def demo_crossing_def demo_docking_def demo_underpass_def
  demo_crosswalk_def demo_dock_def zero_libm_def underpass_init_def
  dget_def dget_or_def seg_is_def Let_def MAX_UINT64_def uint64_def finite_in_def is_token_def ord_def
  optional_distance_def contract_checked_def

lemmas advisory_defs = make_advisory_def token_of_def BEHAVIORS_def ADVISORIES_def requirement_ok_def
  is_lower_name_def is_token_def ord_def is_digit_def is_upper_def is_lower_def
  uint64_def MAX_UINT64_def

lemmas crosswalk_run = crosswalk_evaluate_def crosswalk_inputs_def crosswalk_gate_def crosswalk_observe_def
  crosswalk_decide_def read_crosswalk_def of_crosswalk_def signal_stable_def aligned_def
  bounded_by_lines_def float_field_def abs_within_def nonempty_all_def and_exn_def feet_invalid_def
  crosswalk_requirements_def crosswalk_result_def

lemmas docking_run = docking_evaluate_def docking_inputs_def docking_gate_def docking_observe_def
  docking_track_def confidence_of_def target_of_def keys_are_def marker_count_def target_jumped_def
  zone_conflict_def opt_str_def docking_result_def math_pi_def

lemmas underpass_run = underpass_evaluate_def underpass_inputs_def underpass_gate_def
  underpass_observe_def underpass_result_def invalidate_confirmation_def confirmed_now_def

subsection \<open>Ready means evidenced\<close>



text \<open>The docking advisor reports ready only for an observation of the expected venue, on fresh
  evidence newer than any it doubted, with the pose fresh and the revisions current, when the
  marker's confidence reaches the threshold, its pose is within the ranges of the contract, at most
  0.15 m off the axis and 0.2 rad turned, has not jumped from the last one, and at least one marker
  is seen; whatever the C math library returns.\<close>

theorem docking_ready_evidence:
  assumes run: "docking_evaluate L i s = (Inr a, s')" and ready: "a_manual_ready a"
  shows "\<exists>n venue. p_sequence (perceived i) = VInt n \<and> expected_venue i = VStr venue
    \<and> dk_last_sequence s \<le> n \<and> dk_recovery s < n
    \<and> p_fresh (perceived i) = VBool True \<and> pose_fresh i \<and> revisions_current i \<and> \<not> dock_contact_confirmed i
    \<and> (\<exists>observation\<in>set (p_aruco (perceived i)). \<exists>x y yaw c.
         dget observation ''venue_id'' = VStr venue \<and> dget observation ''docking_ready'' = VBool True
         \<and> target_of observation = Inr (Some (x, y, yaw)) \<and> confidence_of observation = Inr c
         \<and> confidence_threshold s \<le> c \<and> \<bar>y\<bar> \<le> fl (15/100) \<and> \<bar>yaw\<bar> \<le> fl (2/10)
         \<and> 1 \<le> marker_count observation \<and> \<not> target_jumped L s (Some (x, y, yaw)) n)"
  using run
proof (cases rule: docking_evaluate_cases)
  case (gate now venue zone d n)
  from docking_gate_ready [OF gate(6) ready] gate(4,5) show ?thesis by blast
qed (use ready in auto)

lemma docking_ready_evidence_witness:
  "\<exists>a s'. docking_evaluate zero_libm (demo_docking True 5) demo_dock = (Inr a, s') \<and> a_manual_ready a
     \<and> (\<exists>n. p_sequence (perceived (demo_docking True 5)) = VInt n \<and> dk_recovery demo_dock < n)"
proof -
  obtain a s' where r: "docking_evaluate zero_libm (demo_docking True 5) demo_dock = (Inr a, s')" "a_manual_ready a"
    by (simp add: docking_run demo_defs advisory_defs)
  from docking_ready_evidence [OF r] r show ?thesis by blast
qed

text \<open>The underpass advisor recommends to proceed only on fresh evidence newer than any it
  doubted, with the underpass reported free, people reported and all clear, the service robot reported
  clear, and, unless the robot is already inside, a confirmation of the operator given in the present
  epoch. It never marks the edge ready for autonomous traversal.\<close>

theorem underpass_ready_evidence:
  assumes run: "underpass_evaluate i s = (Inr a, s')"
  shows "\<not> a_edge_ready a \<and> (a_manual_ready a \<longrightarrow> (\<exists>n. p_sequence (perceived i) = VInt n \<and> up_last_sequence s \<le> n \<and> up_recovery s < n
       \<and> p_fresh (perceived i) = VBool True \<and> pose_fresh i \<and> revisions_current i
       \<and> p_underpass_blocked (perceived i) = VBool False \<and> p_people (perceived i) \<noteq> []
       \<and> (\<forall>p\<in>set (p_people (perceived i)). dget p ''occupancy'' = VStr ''CLEAR'')
       \<and> service_robot_clear i = VBool True \<and> \<not> exit_observed i
       \<and> (traversing i \<or> operator_confirmed i \<and> confirmed_epoch i = confirmation_epoch s)))"
proof (intro conjI impI)
  show "\<not> a_edge_ready a"
    using run by (rule underpass_evaluate_edge)
  assume ready: "a_manual_ready a"
  show "\<exists>n. p_sequence (perceived i) = VInt n \<and> up_last_sequence s \<le> n \<and> up_recovery s < n
       \<and> p_fresh (perceived i) = VBool True \<and> pose_fresh i \<and> revisions_current i
       \<and> p_underpass_blocked (perceived i) = VBool False \<and> p_people (perceived i) \<noteq> []
       \<and> (\<forall>p\<in>set (p_people (perceived i)). dget p ''occupancy'' = VStr ''CLEAR'')
       \<and> service_robot_clear i = VBool True \<and> \<not> exit_observed i
       \<and> (traversing i \<or> operator_confirmed i \<and> confirmed_epoch i = confirmation_epoch s)"
    using run
  proof (cases rule: underpass_evaluate_cases)
    case (gate now d n)
    with underpass_gate_ready [OF gate(5) ready] underpass_observe_ready [OF _ ready]
    show ?thesis by (fastforce simp: list_all_iff)
  qed (use ready in auto)
qed

lemma underpass_ready_evidence_witness:
  "\<exists>a s'. underpass_evaluate (demo_underpass True 5 0) underpass_init = (Inr a, s') \<and> a_manual_ready a
     \<and> \<not> a_edge_ready a \<and> service_robot_clear (demo_underpass True 5 0) = VBool True"
proof -
  obtain a s' where r: "underpass_evaluate (demo_underpass True 5 0) underpass_init = (Inr a, s')" "a_manual_ready a"
    by (simp add: underpass_run demo_defs advisory_defs)
  from underpass_ready_evidence [OF r(1)] r show ?thesis by blast
qed

subsection \<open>Doubted evidence is not used again\<close>

text \<open>After an evaluation at a crosswalk whose evidence was doubtful (its sequence ran backwards,
  the pose or the perception was stale, a revision had changed), and any evaluations after it, the
  advisor recommends to proceed only on evidence whose sequence is newer than the doubted one and newer
  than any seen before.\<close>

lemma crosswalk_doubt_needs_newer:
  assumes "crosswalk_doubtful s i"
    and "fst (crosswalk_evaluate j (settle crosswalk_step is (snd (crosswalk_evaluate i s)))) = Inr a"
    and "a_manual_ready a"
  shows "crosswalk_number i < crosswalk_number j \<and> cw_last_sequence s < crosswalk_number j"
  using crosswalk.ready_after_doubt [OF assms(1), of "is" j a] assms(2,3)
  by (simp add: crosswalk_step_def fst_result_option snd_result_option)

lemma crosswalk_doubt_needs_newer_witness:
  "crosswalk_number (demo_crossing False 5) < crosswalk_number (demo_crossing True 6)"
proof -
  have "crosswalk_inputs (demo_crossing False 5) = Inr (1/4, Some (1/2), 5)"
    by (simp add: crosswalk_inputs_def demo_defs)
  then have "\<exists>x. crosswalk_inputs (demo_crossing False 5) = Inr x" ..
  then have d: "crosswalk_doubtful demo_crosswalk (demo_crossing False 5)"
    unfolding crosswalk_doubtful_def by (intro conjI) (assumption | simp add: demo_defs)+
  obtain a where a: "fst (crosswalk_evaluate (demo_crossing True 6)
      (settle crosswalk_step [demo_crossing True 5] (snd (crosswalk_evaluate (demo_crossing False 5) demo_crosswalk)))) = Inr a"
    "a_manual_ready a"
    by (simp add: settle_def crosswalk_step_def crosswalk_run demo_defs advisory_defs)
  from crosswalk_doubt_needs_newer [OF d a] show ?thesis by simp
qed

text \<open>The same for a dock: doubted evidence is not used again.\<close>

lemma docking_doubt_needs_newer:
  assumes "docking_doubtful s i"
    and "fst (docking_evaluate L j (settle (docking_step L) is (snd (docking_evaluate L i s)))) = Inr a"
    and "a_manual_ready a"
  shows "docking_number i < docking_number j \<and> dk_last_sequence s < docking_number j"
  using docking.ready_after_doubt [OF assms(1), of L "is" j a] assms(2,3)
  by (simp add: docking_step_def fst_result_option snd_result_option)

lemma docking_doubt_needs_newer_witness:
  "docking_number (demo_docking False 5) < docking_number (demo_docking True 6)"
proof -
  have "docking_inputs (demo_docking False 5) = Inr (''CAFE'', None, Some (1/2), 5)"
    by (simp add: docking_inputs_def demo_defs advisory_defs)
  then have d: "docking_doubtful demo_dock (demo_docking False 5)"
    by (simp add: docking_doubtful_def demo_defs)
  obtain a where a: "fst (docking_evaluate zero_libm (demo_docking True 6)
      (settle (docking_step zero_libm) [demo_docking True 5]
        (snd (docking_evaluate zero_libm (demo_docking False 5) demo_dock)))) = Inr a"
    "a_manual_ready a"
    by (simp add: settle_def docking_step_def docking_run demo_defs advisory_defs)
  from docking_doubt_needs_newer [OF d a] show ?thesis by simp
qed

text \<open>The same for an underpass, where the doubt also ends the epoch: a confirmation given before
  it does not count afterwards.\<close>

theorem underpass_doubt_needs_newer:
  assumes "underpass_doubtful s i"
    and "fst (underpass_evaluate j (settle underpass_step is (snd (underpass_evaluate i s)))) = Inr a"
    and "a_manual_ready a"
  shows "underpass_number i < underpass_number j \<and> up_last_sequence s < underpass_number j
    \<and> (traversing j \<or> operator_confirmed j \<and> confirmation_epoch s < confirmed_epoch j)"
proof -
  note st = underpass_step_def fst_result_option snd_result_option
  define t where "t = settle underpass_step is (snd (underpass_evaluate i s))"
  have "confirmation_epoch s < confirmation_epoch (snd (underpass_evaluate i s))"
    using assms(1) by (rule underpass_doubt_epoch)
  then have "confirmation_epoch s < confirmation_epoch t"
    unfolding t_def using underpass_epoch_settle by (rule less_le_trans)
  moreover have "traversing j \<or> operator_confirmed j \<and> confirmed_epoch j = confirmation_epoch t"
    using underpass_ready_confirmed [of j t a] assms(2,3) by (simp add: t_def)
  ultimately show ?thesis
    using underpass.ready_after_doubt [OF assms(1), of "is" j a] assms(2,3) by (auto simp: st)
qed

lemma underpass_doubt_needs_newer_witness:
  "underpass_number (demo_underpass False 5 0) < underpass_number (demo_underpass True 6 1)"
proof -
  have d: "underpass_doubtful underpass_init (demo_underpass False 5 0)"
    by (simp add: underpass_doubtful_def underpass_number_def underpass_inputs_def demo_defs)
  obtain a where a: "fst (underpass_evaluate (demo_underpass True 6 1)
      (settle underpass_step [demo_underpass True 5 0] (snd (underpass_evaluate (demo_underpass False 5 0) underpass_init)))) = Inr a"
    "a_manual_ready a"
    by (simp add: settle_def underpass_step_def underpass_run demo_defs advisory_defs)
  from underpass_doubt_needs_newer [OF d a] show ?thesis by simp
qed

end
