(* ===== verification/Delivery.thy ===== *)
theory Delivery
  imports Advisory_Models
begin

text \<open>
  \<^verbatim>\<open>DeliveryWorkflow\<close> of \<^verbatim>\<open>route_planner/behaviors/delivery.py\<close>: the pickups and drop-offs of one
  order as a state machine. \<open>delivery_state\<close> is \<^verbatim>\<open>DELIVERY_STATES\<close>, \<open>delivery\<close> the attributes,
  \<open>transition\<close> the only method that changes them.
\<close>

datatype delivery_state =
    Order_Ready | En_Route_Pickup | Pickup_Dock_Required | Pickup_Confirmation_Required | Cargo_Updated
  | En_Route_Destination | Dropoff_Dock_Required | Dropoff_Confirmation_Required | Order_Complete
  | Paused | Failed

fun state_name :: "delivery_state \<Rightarrow> string" where
  "state_name Order_Ready = ''ORDER_READY''"
| "state_name En_Route_Pickup = ''EN_ROUTE_PICKUP''"
| "state_name Pickup_Dock_Required = ''PICKUP_DOCK_REQUIRED''"
| "state_name Pickup_Confirmation_Required = ''PICKUP_CONFIRMATION_REQUIRED''"
| "state_name Cargo_Updated = ''CARGO_UPDATED''"
| "state_name En_Route_Destination = ''EN_ROUTE_DESTINATION''"
| "state_name Dropoff_Dock_Required = ''DROPOFF_DOCK_REQUIRED''"
| "state_name Dropoff_Confirmation_Required = ''DROPOFF_CONFIRMATION_REQUIRED''"
| "state_name Order_Complete = ''ORDER_COMPLETE''"
| "state_name Paused = ''PAUSED''"
| "state_name Failed = ''FAILED''"

record audit_entry =
  au_event :: pyval
  au_state :: delivery_state
  au_at :: int
  au_venue :: "string option"

record delivery =
  quantities :: "(string \<times> int) list"
  destination_quantities :: "(string \<times> int) list"
  remaining :: "string list"
  remaining_destinations :: "string list"
  completed_destinations :: "string list"
  picked :: "string list"
  cargo_count :: int
  d_state :: delivery_state
  d_reasons :: "string list"
  audit :: "audit_entry list"
  last_updated_ns :: int
  state_before_pause :: delivery_state
  resume_requires_evidence :: bool

subsection \<open>The order\<close>

definition plain_within :: "pyval \<Rightarrow> int \<Rightarrow> int \<Rightarrow> bool" where
  "plain_within v low high \<longleftrightarrow> is_plain_int v \<and> low \<le> int_val v \<and> int_val v \<le> high"

definition add_quantity :: "string \<Rightarrow> int \<Rightarrow> (string \<times> int) list \<Rightarrow> (string \<times> int) list" where
  "add_quantity k q d = dput k ((case map_of d k of None \<Rightarrow> 0 | Some n \<Rightarrow> n) + q) d"

text \<open>The sort key of a line; the dictionary methods fail on other values.\<close>

definition line_key :: "pyval \<Rightarrow> exn + int" where
  "line_key item = (case item of VDict d \<Rightarrow> py_int (dget_or d ''sequence'' (VInt 0)) | _ \<Rightarrow> Inl AttributeError)"

definition line_entry :: "pydict \<Rightarrow> pyval \<Rightarrow> exn + string \<times> string \<times> int" where
  "line_entry order item =
     (case item of
        VDict line \<Rightarrow>
          sbind (token_of (dget line ''restaurant_id'') ''restaurant'') (\<lambda>venue.
          sbind (token_of (dget_or line ''destination_id'' (dget order ''destination_id'')) ''destination'') (\<lambda>destination.
          sbind (guard (plain_within (dget line ''quantity'') 1 5)
                   (BehaviorContractError ''order quantity is invalid'')) (\<lambda>_.
            Inr (venue, destination, int_val (dget line ''quantity'')))))
      | _ \<Rightarrow> Inl AttributeError)"

definition order_totals :: "(string \<times> string \<times> int) list \<Rightarrow> (string \<times> int) list \<times> (string \<times> int) list" where
  "order_totals entries =
     fold (\<lambda>(venue, destination, q) (qs, ds). (add_quantity venue q qs, add_quantity destination q ds))
       entries ([], [])"

text \<open>\<^verbatim>\<open>__init__\<close>\<close>

definition delivery_init :: "pyval \<Rightarrow> exn + delivery" where
  "delivery_init order =
     (case order of
        VDict d \<Rightarrow>
          (case dget d ''lines'' of
             VList lines \<Rightarrow>
               sbind (guard (lines \<noteq> [] \<and> plain_within (dget d ''total_quantity'') 1 5)
                        (BehaviorContractError ''normalized order is invalid'')) (\<lambda>_.
               sbind (map_exn line_key lines) (\<lambda>keys.
               sbind (map_exn (line_entry d) (map snd (sort_key fst (zip keys lines)))) (\<lambda>entries.
               let (qs, ds) = order_totals entries
               in sbind (guard (sum_list (map snd qs) = int_val (dget d ''total_quantity'')
                                \<and> 1 \<le> length qs \<and> length qs \<le> 5)
                           (BehaviorContractError ''order totals are inconsistent'')) (\<lambda>_.
                  Inr \<lparr>quantities = qs, destination_quantities = ds, remaining = map fst qs,
                       remaining_destinations = map fst ds, completed_destinations = [], picked = [],
                       cargo_count = 0, d_state = Order_Ready, d_reasons = [], audit = [],
                       last_updated_ns = 0, state_before_pause = Order_Ready,
                       resume_requires_evidence = False\<rparr>))))
           | _ \<Rightarrow> Inl (BehaviorContractError ''normalized order is invalid''))
      | _ \<Rightarrow> Inl (BehaviorContractError ''normalized order is invalid''))"

subsection \<open>Snapshots and the audit\<close>

definition head_option :: "'a list \<Rightarrow> 'a option" where
  "head_option xs = (case xs of [] \<Rightarrow> None | x # _ \<Rightarrow> Some x)"

definition next_venue_id :: "delivery \<Rightarrow> string option" where
  "next_venue_id s = head_option (remaining s)"

definition next_destination_id :: "delivery \<Rightarrow> string option" where
  "next_destination_id s = head_option (remaining_destinations s)"

definition delivery_advice :: "delivery_state \<Rightarrow> string" where
  "delivery_advice st = (case st of
     Pickup_Confirmation_Required \<Rightarrow> ''PICKUP_CONFIRMATION_REQUIRED''
   | Dropoff_Confirmation_Required \<Rightarrow> ''DROPOFF_CONFIRMATION_REQUIRED''
   | Order_Complete \<Rightarrow> ''COMPLETE''
   | Failed \<Rightarrow> ''FAULT''
   | En_Route_Pickup \<Rightarrow> ''PROCEED_RECOMMENDED''
   | En_Route_Destination \<Rightarrow> ''PROCEED_RECOMMENDED''
   | _ \<Rightarrow> ''HOLD'')"

text \<open>\<^verbatim>\<open>snapshot(now)\<close> at a checked time; \<^verbatim>\<open>snapshot()\<close> is at the last update.\<close>

definition delivery_snapshot :: "pyval \<Rightarrow> delivery \<Rightarrow> exn + advisory" where
  "delivery_snapshot at_ns s =
     sbind (if at_ns = VNone then Inr (last_updated_ns s) else uint64 at_ns ''now_ns'') (\<lambda>now.
     make_advisory ''DELIVERY'' (state_name (d_state s)) (delivery_advice (d_state s)) False False (d_reasons s)
       [(''cargo_count'', VInt (cargo_count s)), (''cargo_capacity'', VInt 5),
        (''remaining_restaurants'', VInt (int (length (remaining s)))),
        (''next_venue'', opt_str (next_venue_id s)), (''destination'', opt_str (next_destination_id s)),
        (''remaining_destinations'', VInt (int (length (remaining_destinations s)))),
        (''resume_requires_evidence'', VBool (resume_requires_evidence s))] (VInt now))"

definition keep_last :: "nat \<Rightarrow> 'a list \<Rightarrow> 'a list" where
  \<comment> \<open>\<^verbatim>\<open>xs[-n:]\<close>\<close>
  "keep_last n xs = drop (length xs - n) xs"

text \<open>\<^verbatim>\<open>_record\<close>\<close>

definition record_event :: "pyval \<Rightarrow> int \<Rightarrow> string option \<Rightarrow> delivery \<Rightarrow> delivery" where
  "record_event event now venue s =
     s\<lparr>audit := keep_last 32 (audit s @ [\<lparr>au_event = event, au_state = d_state s, au_at = now, au_venue = venue\<rparr>])\<rparr>"

text \<open>The end of every branch of \<^verbatim>\<open>transition\<close>: \<^verbatim>\<open>_record\<close>, then \<^verbatim>\<open>snapshot\<close>.\<close>

definition noted :: "pyval \<Rightarrow> int \<Rightarrow> string option \<Rightarrow> delivery \<Rightarrow> (delivery, advisory) outcome" where
  "noted event now venue s =
     (let s = record_event event now venue s in (delivery_snapshot (VInt now) s, s))"

definition fail :: "string \<Rightarrow> int \<Rightarrow> pyval \<Rightarrow> delivery \<Rightarrow> (delivery, advisory) outcome" where
  "fail reason now event s = noted event now None (s\<lparr>d_state := Failed, d_reasons := [reason]\<rparr>)"

subsection \<open>Transitions\<close>

definition payload_venue :: "pydict \<Rightarrow> exn + string" where
  "payload_venue payload =
     sbind (guard (keys_are payload [''venue_id'']) (BehaviorContractError ''pickup payload schema is invalid'')) (\<lambda>_.
       token_of (dget payload ''venue_id'') ''pickup venue'')"

definition names_destination :: "pydict \<Rightarrow> string option \<Rightarrow> bool" where
  \<comment> \<open>\<^verbatim>\<open>data in ({}, {"destination_id": destination})\<close>\<close>
  "names_destination data destination \<longleftrightarrow>
     data = [] \<or> py_eq (VDict data) (VDict [(''destination_id'', opt_str destination)])"

definition text_option :: "pyval \<Rightarrow> string option" where
  "text_option v = (if is_str v then Some (str_val v) else None)"

text \<open>A step of the plan succeeds and is recorded with the venue of its payload.\<close>

definition advance :: "string \<Rightarrow> int \<Rightarrow> pydict \<Rightarrow> delivery \<Rightarrow> (delivery, advisory) outcome" where
  "advance event now data s = noted (VStr event) now (text_option (dget data ''venue_id'')) s"

definition confirm_pickup :: "int \<Rightarrow> pydict \<Rightarrow> delivery \<Rightarrow> (delivery, advisory) outcome" where
  "confirm_pickup now data s =
     obind (lift_exn (contract_checked (payload_venue data)) s) (\<lambda>checked s.
     case checked of
       None \<Rightarrow> fail ''PICKUP_PAYLOAD_INVALID'' now (VStr ''CONFIRM_PICKUP'') s
     | Some venue \<Rightarrow>
         if venue \<in> set (picked s)
         then noted (VStr ''CONFIRM_PICKUP'') now (Some venue) (s\<lparr>d_reasons := [''DUPLICATE_PICKUP_CONFIRMATION'']\<rparr>)
         else if d_state s \<noteq> Pickup_Confirmation_Required \<or> Some venue \<noteq> next_venue_id s
         then fail ''PICKUP_CONFIRMATION_INVALID'' now (VStr ''CONFIRM_PICKUP'') s
         else case map_of (quantities s) venue of
                None \<Rightarrow> (Inl KeyError, s)
              | Some quantity \<Rightarrow>
                  if 5 < cargo_count s + quantity
                  then fail ''CARGO_CAPACITY_EXCEEDED'' now (VStr ''CONFIRM_PICKUP'') s
                  else advance ''CONFIRM_PICKUP'' now data
                         (s\<lparr>cargo_count := cargo_count s + quantity, picked := picked s @ [venue],
                            remaining := tl (remaining s), d_state := Cargo_Updated\<rparr>))"

definition confirm_dropoff :: "int \<Rightarrow> pydict \<Rightarrow> delivery \<Rightarrow> (delivery, advisory) outcome" where
  "confirm_dropoff now data s =
     (case next_destination_id s of
        None \<Rightarrow> fail ''DESTINATION_MISMATCH'' now (VStr ''CONFIRM_DROPOFF'') s
      | Some destination \<Rightarrow>
          if \<not> names_destination data (Some destination)
          then fail ''DESTINATION_MISMATCH'' now (VStr ''CONFIRM_DROPOFF'') s
          else case map_of (destination_quantities s) destination of
                 None \<Rightarrow> (Inl KeyError, s)
               | Some quantity \<Rightarrow>
                   advance ''CONFIRM_DROPOFF'' now data
                     (s\<lparr>cargo_count := max 0 (cargo_count s - quantity),
                        completed_destinations := completed_destinations s @ [destination],
                        remaining_destinations := tl (remaining_destinations s),
                        d_state := (if tl (remaining_destinations s) \<noteq> [] then En_Route_Destination
                                    else Order_Complete)\<rparr>))"

text \<open>The events of the plan, in the order of the source's tests.\<close>

definition plan_step :: "string \<Rightarrow> int \<Rightarrow> pydict \<Rightarrow> delivery \<Rightarrow> (delivery, advisory) outcome" where
  "plan_step event now data s =
     (if (starts_with ''DROPOFF'' event \<or> event = ''ARRIVE_DESTINATION'') \<and> remaining s \<noteq> []
      then fail ''DROPOFF_BEFORE_PICKUP'' now (VStr event) s
      else if event = ''START'' \<and> d_state s = Order_Ready
      then advance event now data (s\<lparr>d_state := En_Route_Pickup\<rparr>)
      else if event = ''ARRIVE_PICKUP'' \<and> d_state s = En_Route_Pickup
      then obind (lift_exn (contract_checked (payload_venue data)) s) (\<lambda>checked s.
           case checked of
             None \<Rightarrow> fail ''PICKUP_PAYLOAD_INVALID'' now (VStr event) s
           | Some venue \<Rightarrow>
               if Some venue \<noteq> next_venue_id s then fail ''PICKUP_SEQUENCE_MISMATCH'' now (VStr event) s
               else advance event now data (s\<lparr>d_state := Pickup_Dock_Required\<rparr>))
      else if event = ''PICKUP_DOCKED'' \<and> d_state s = Pickup_Dock_Required
      then advance event now data (s\<lparr>d_state := Pickup_Confirmation_Required\<rparr>)
      else if event = ''CONFIRM_PICKUP'' then confirm_pickup now data s
      else if event = ''DEPART_PICKUP'' \<and> d_state s = Cargo_Updated
      then advance event now data (s\<lparr>d_state := (if remaining s \<noteq> [] then En_Route_Pickup else En_Route_Destination)\<rparr>)
      else if event = ''ARRIVE_DESTINATION'' \<and> d_state s = En_Route_Destination
      then (if \<not> names_destination data (next_destination_id s) then fail ''DESTINATION_MISMATCH'' now (VStr event) s
            else advance event now data (s\<lparr>d_state := Dropoff_Dock_Required\<rparr>))
      else if event = ''DROPOFF_DOCKED'' \<and> d_state s = Dropoff_Dock_Required
      then advance event now data (s\<lparr>d_state := Dropoff_Confirmation_Required\<rparr>)
      else if event = ''CONFIRM_DROPOFF'' \<and> d_state s = Dropoff_Confirmation_Required
      then confirm_dropoff now data s
      else if event = ''FAIL'' then fail ''EXTERNAL_ACTION_FAILED'' now (VStr event) s
      else fail ''INVALID_TRANSITION'' now (VStr event) s)"

definition resume_evidence :: pydict where
  "resume_evidence = [(''fresh_evidence'', VBool True), (''operator_confirmed'', VBool True)]"

text \<open>The events that suspend and resume the plan come first.\<close>

definition named_transition :: "string \<Rightarrow> int \<Rightarrow> pydict \<Rightarrow> delivery \<Rightarrow> (delivery, advisory) outcome" where
  "named_transition event now data s =
     (if event = ''RESTART''
      then noted (VStr event) now None
             (if d_state s \<in> {Order_Complete, Failed} then s
              else s\<lparr>state_before_pause := d_state s, d_state := Paused, resume_requires_evidence := True,
                     d_reasons := [''SERVER_RESTART'']\<rparr>)
      else if event = ''PAUSE''
      then noted (VStr event) now None
             (if d_state s \<in> {Order_Complete, Failed, Paused} then s
              else s\<lparr>state_before_pause := d_state s, d_state := Paused, d_reasons := [''OPERATOR_PAUSED'']\<rparr>)
      else if event = ''RESUME''
      then (if d_state s \<noteq> Paused then fail ''INVALID_TRANSITION'' now (VStr event) s
            else if \<not> py_eq (VDict data) (VDict resume_evidence)
            then noted (VStr event) now None (s\<lparr>d_reasons := [''EXPLICIT_RESUME_REQUIRED'']\<rparr>)
            else noted (VStr event) now None
                   (s\<lparr>d_state := state_before_pause s, resume_requires_evidence := False\<rparr>))
      else if d_state s \<in> {Failed, Order_Complete, Paused}
      then fail ''INVALID_TRANSITION'' now (VStr event) s
      else plan_step event now data s)"

definition transition :: "pyval \<Rightarrow> pyval \<Rightarrow> pydict option \<Rightarrow> delivery \<Rightarrow> (delivery, advisory) outcome" where
  "transition event at_ns payload s =
     obind (lift_exn (uint64 at_ns ''now_ns'') s) (\<lambda>now s.
     let data = (case payload of None \<Rightarrow> [] | Some d \<Rightarrow> d)
     in if now < last_updated_ns s then fail ''TIME_ROLLBACK'' (last_updated_ns s) event s
     else let s = s\<lparr>last_updated_ns := now\<rparr>
     in case token_of event ''delivery event'' of
          Inl _ \<Rightarrow> fail ''EVENT_INVALID'' now (VStr ''EVENT_INVALID'') s
        | Inr name \<Rightarrow> named_transition name now data (s\<lparr>d_reasons := []\<rparr>))"

subsection \<open>Quantities\<close>

definition amount :: "(string \<times> int) list \<Rightarrow> string list \<Rightarrow> int" where
  "amount d ks = sum_list (map (\<lambda>k. case map_of d k of None \<Rightarrow> 0 | Some q \<Rightarrow> q) ks)"

definition quantities_ok :: "(string \<times> int) list \<Rightarrow> bool" where
  "quantities_ok d \<longleftrightarrow> distinct (map fst d) \<and> list_all (\<lambda>kq. 1 \<le> snd kq) d"

lemma amount_simps [simp]:
  "amount d [] = 0" "amount d (k # ks) = (case map_of d k of None \<Rightarrow> 0 | Some q \<Rightarrow> q) + amount d ks"
  "amount d (ks @ ls) = amount d ks + amount d ls"
  by (simp_all add: amount_def)

lemma amount_other: "k \<notin> set ks \<Longrightarrow> amount ((k, q) # d) ks = amount d ks"
  by (induction ks) auto

lemma amount_total: "distinct (map fst d) \<Longrightarrow> amount d (map fst d) = sum_list (map snd d)"
proof (induction d)
  case (Cons kq d)
  then show ?case by (cases kq) (auto simp: amount_other)
qed simp

lemma quantities_ok_find: "quantities_ok d \<Longrightarrow> map_of d k = Some q \<Longrightarrow> 1 \<le> q"
  by (auto simp: quantities_ok_def list_all_iff dest!: map_of_SomeD)

lemma amount_nonneg: "quantities_ok d \<Longrightarrow> 0 \<le> amount d ks"
  by (induction ks) (auto split: option.split dest: quantities_ok_find)

lemma amount_pos: "quantities_ok d \<Longrightarrow> ks \<noteq> [] \<Longrightarrow> set ks \<subseteq> set (map fst d) \<Longrightarrow> 1 \<le> amount d ks"
proof (cases ks)
  case (Cons k ks')
  assume d: "quantities_ok d" and "set ks \<subseteq> set (map fst d)"
  then obtain q where "map_of d k = Some q" by (cases "map_of d k") (auto simp: Cons map_of_eq_None_iff)
  with quantities_ok_find [OF d this] amount_nonneg [OF d, of ks'] show ?thesis by (simp add: Cons)
qed simp

lemma add_quantity_ok:
  assumes "quantities_ok d" "1 \<le> q"
  shows "quantities_ok (add_quantity k q d)"
    "sum_list (map snd (add_quantity k q d)) = sum_list (map snd d) + q"
proof -
  have put: "quantities_ok (dput k (n + q) d) \<and> sum_list (map snd (dput k (n + q) d)) = sum_list (map snd d) + q"
    if "quantities_ok d" "n = (case map_of d k of None \<Rightarrow> 0 | Some n \<Rightarrow> n)" "0 \<le> n" for n d
    using that
  proof (induction d)
    case Nil
    with assms(2) show ?case by (simp add: quantities_ok_def)
  next
    case (Cons kq d)
    obtain k' q' where kq: "kq = (k', q')" by (cases kq)
    show ?case
    proof (cases "k' = k")
      case True
      with Cons.prems assms(2) show ?thesis by (auto simp: kq quantities_ok_def)
    next
      case False
      have "quantities_ok d" using Cons.prems(1) by (simp add: quantities_ok_def kq)
      then have "quantities_ok (dput k (n + q) d) \<and> sum_list (map snd (dput k (n + q) d)) = sum_list (map snd d) + q"
        using Cons False by (simp add: kq)
      with False Cons.prems(1) keys_dput [of k "n + q" d] show ?thesis
        by (auto simp: kq quantities_ok_def)
    qed
  qed
  have "0 \<le> (case map_of d k of None \<Rightarrow> 0 | Some n \<Rightarrow> n)"
    using quantities_ok_find [OF assms(1), of k] by (auto split: option.split)
  with put [OF assms(1) refl] show "quantities_ok (add_quantity k q d)"
    "sum_list (map snd (add_quantity k q d)) = sum_list (map snd d) + q"
    by (simp_all add: add_quantity_def)
qed

lemma order_totals_ok:
  assumes "list_all (\<lambda>e. 1 \<le> snd (snd e)) entries" "order_totals entries = (qs, ds)"
  shows "quantities_ok qs" "quantities_ok ds" "sum_list (map snd qs) = sum_list (map snd ds)"
proof -
  have "quantities_ok (fst r) \<and> quantities_ok (snd r) \<and> sum_list (map snd (fst r)) = sum_list (map snd (snd r))"
    if "r = fold (\<lambda>(venue, destination, q) (qs, ds). (add_quantity venue q qs, add_quantity destination q ds)) entries p"
       "quantities_ok (fst p) \<and> quantities_ok (snd p) \<and> sum_list (map snd (fst p)) = sum_list (map snd (snd p))"
    for r p
    using that assms(1)
    by (induction entries arbitrary: p) (auto simp: add_quantity_ok split: prod.splits)
  from this [of "(qs, ds)" "([], [])"] assms(2)
  show "quantities_ok qs" "quantities_ok ds" "sum_list (map snd qs) = sum_list (map snd ds)"
    by (simp_all add: order_totals_def quantities_ok_def)
qed

lemma list_all_add_quantity:
  "P k \<Longrightarrow> list_all P (map fst d) \<Longrightarrow> list_all P (map fst (add_quantity k q d))"
  using keys_dput [of k _ d] by (simp add: add_quantity_def list_all_iff)

lemma order_totals_venues:
  assumes "list_all (\<lambda>e. P (fst e)) entries" "order_totals entries = (qs, ds)"
  shows "list_all P (map fst qs)"
proof -
  have "list_all P (map fst (fst r))"
    if "r = fold (\<lambda>(venue, destination, q) (qs, ds). (add_quantity venue q qs, add_quantity destination q ds)) entries p"
       "list_all P (map fst (fst p))" for r p
    using that assms(1)
  proof (induction entries arbitrary: p)
    case (Cons e entries)
    obtain v d q qs ds where "e = (v, d, q)" "p = (qs, ds)" by (metis prod.exhaust)
    with Cons show ?case by (simp add: list_all_add_quantity)
  qed simp
  from this [of "(qs, ds)" "([], [])"] assms(2) show ?thesis by (simp add: order_totals_def)
qed

subsection \<open>The invariant\<close>

fun phase_ok :: "delivery_state \<Rightarrow> delivery \<Rightarrow> bool" where
  "phase_ok Order_Ready s \<longleftrightarrow> picked s = [] \<and> completed_destinations s = []"
| "phase_ok En_Route_Pickup s \<longleftrightarrow> remaining s \<noteq> [] \<and> completed_destinations s = []"
| "phase_ok Pickup_Dock_Required s \<longleftrightarrow> remaining s \<noteq> [] \<and> completed_destinations s = []"
| "phase_ok Pickup_Confirmation_Required s \<longleftrightarrow> remaining s \<noteq> [] \<and> completed_destinations s = []"
| "phase_ok Cargo_Updated s \<longleftrightarrow> picked s \<noteq> [] \<and> completed_destinations s = []"
| "phase_ok En_Route_Destination s \<longleftrightarrow> remaining s = [] \<and> remaining_destinations s \<noteq> []"
| "phase_ok Dropoff_Dock_Required s \<longleftrightarrow> remaining s = [] \<and> remaining_destinations s \<noteq> []"
| "phase_ok Dropoff_Confirmation_Required s \<longleftrightarrow> remaining s = [] \<and> remaining_destinations s \<noteq> []"
| "phase_ok Order_Complete s \<longleftrightarrow> remaining s = [] \<and> remaining_destinations s = []"
| "phase_ok Paused s \<longleftrightarrow> True"
| "phase_ok Failed s \<longleftrightarrow> True"

definition goods_ok :: "delivery \<Rightarrow> bool" where
  "goods_ok s \<longleftrightarrow> quantities_ok (quantities s) \<and> quantities_ok (destination_quantities s)
     \<and> quantities s \<noteq> [] \<and> sum_list (map snd (quantities s)) \<le> 5
     \<and> list_all (is_token 63) (map fst (quantities s))
     \<and> sum_list (map snd (quantities s)) = sum_list (map snd (destination_quantities s))
     \<and> picked s @ remaining s = map fst (quantities s)
     \<and> completed_destinations s @ remaining_destinations s = map fst (destination_quantities s)
     \<and> cargo_count s = amount (quantities s) (picked s) - amount (destination_quantities s) (completed_destinations s)
     \<and> (completed_destinations s \<noteq> [] \<longrightarrow> remaining s = [])"

definition reasons_ok :: "string list \<Rightarrow> bool" where
  "reasons_ok rs \<longleftrightarrow> length rs \<le> 1 \<and> list_all (is_token 63) rs"

definition delivery_inv :: "delivery \<Rightarrow> bool" where
  "delivery_inv s \<longleftrightarrow> goods_ok s \<and> phase_ok (d_state s) s
     \<and> (d_state s = Paused \<longrightarrow> phase_ok (state_before_pause s) s \<and> state_before_pause s \<notin> {Order_Complete, Failed})
     \<and> length (audit s) \<le> 32 \<and> reasons_ok (d_reasons s) \<and> 0 \<le> last_updated_ns s \<and> last_updated_ns s \<le> MAX_UINT64"

lemma goods_bounds:
  assumes "goods_ok s"
  shows "0 \<le> cargo_count s" "cargo_count s \<le> 5"
    "remaining s = [] \<Longrightarrow> cargo_count s = amount (destination_quantities s) (remaining_destinations s)"
    "cargo_count s + amount (quantities s) (remaining s) \<le> 5"
proof -
  have q: "amount (quantities s) (picked s) + amount (quantities s) (remaining s) = sum_list (map snd (quantities s))"
    using assms amount_total [of "quantities s"] unfolding goods_ok_def quantities_ok_def
    by (metis amount_simps(3))
  have d: "amount (destination_quantities s) (completed_destinations s)
      + amount (destination_quantities s) (remaining_destinations s) = sum_list (map snd (quantities s))"
    using assms amount_total [of "destination_quantities s"] unfolding goods_ok_def quantities_ok_def
    by (metis amount_simps(3))
  have nn: "0 \<le> amount (quantities s) ks" "0 \<le> amount (destination_quantities s) ks" for ks
    using assms by (simp_all add: goods_ok_def amount_nonneg)
  show "remaining s = [] \<Longrightarrow> cargo_count s = amount (destination_quantities s) (remaining_destinations s)"
    using q d assms by (simp add: goods_ok_def)
  show "cargo_count s + amount (quantities s) (remaining s) \<le> 5"
    using q nn(2) [of "completed_destinations s"] assms by (simp add: goods_ok_def)
  then show "cargo_count s \<le> 5" using nn(1) [of "remaining s"] by linarith
  show "0 \<le> cargo_count s"
  proof (cases "remaining s = []")
    case True
    with q d nn(2) [of "remaining_destinations s"] assms show ?thesis by (simp add: goods_ok_def)
  next
    case False
    then show ?thesis using assms nn(1) [of "picked s"] by (auto simp: goods_ok_def)
  qed
qed

lemma head_option_Some: "head_option xs = Some x \<longleftrightarrow> (\<exists>ys. xs = x # ys)"
  by (cases xs) (auto simp: head_option_def)

lemma goods_pickup:
  assumes "goods_ok s" "next_venue_id s = Some v" "completed_destinations s = []"
  obtains q where "map_of (quantities s) v = Some q" "cargo_count s + q \<le> 5" "v \<notin> set (picked s)"
    "goods_ok (s\<lparr>cargo_count := cargo_count s + q, picked := picked s @ [v], remaining := tl (remaining s)\<rparr>)"
proof -
  obtain vs where vs: "remaining s = v # vs" using assms(2) by (auto simp: next_venue_id_def head_option_Some)
  have keys: "picked s @ v # vs = map fst (quantities s)" using assms(1) vs by (simp add: goods_ok_def)
  then have "v \<in> fst ` set (quantities s)" by (metis in_set_conv_decomp list.set_map)
  then obtain q where q: "map_of (quantities s) v = Some q"
    by (cases "map_of (quantities s) v") (auto simp: map_of_eq_None_iff)
  have nn: "0 \<le> amount (quantities s) vs" using assms(1) by (simp add: goods_ok_def amount_nonneg)
  have "cargo_count s + q \<le> 5" using goods_bounds(4) [OF assms(1)] nn by (simp add: vs q)
  moreover have "v \<notin> set (picked s)"
    using keys assms(1) unfolding goods_ok_def quantities_ok_def by (metis distinct_append disjoint_iff list.set_intros(1))
  ultimately show thesis using that [OF q] assms q vs by (simp add: goods_ok_def)
qed

lemma goods_dropoff:
  assumes "goods_ok s" "next_destination_id s = Some v" "remaining s = []"
  obtains q where "map_of (destination_quantities s) v = Some q"
    "goods_ok (s\<lparr>cargo_count := max 0 (cargo_count s - q), completed_destinations := completed_destinations s @ [v],
       remaining_destinations := tl (remaining_destinations s)\<rparr>)"
proof -
  obtain vs where vs: "remaining_destinations s = v # vs"
    using assms(2) by (auto simp: next_destination_id_def head_option_Some)
  have keys: "completed_destinations s @ v # vs = map fst (destination_quantities s)"
    using assms(1) vs by (simp add: goods_ok_def)
  then have "v \<in> fst ` set (destination_quantities s)" by (metis in_set_conv_decomp list.set_map)
  then obtain q where q: "map_of (destination_quantities s) v = Some q"
    by (cases "map_of (destination_quantities s) v") (auto simp: map_of_eq_None_iff)
  have nn: "0 \<le> amount (destination_quantities s) vs" using assms(1) by (simp add: goods_ok_def amount_nonneg)
  have "q \<le> cargo_count s" using goods_bounds(3) [OF assms(1,3)] nn by (simp add: vs q)
  then show thesis using that [OF q] assms q vs by (simp add: goods_ok_def)
qed

subsection \<open>Every transition keeps it\<close>

lemma delivery_snapshot_returns:
  assumes "reasons_ok (d_reasons s)" "0 \<le> now" "now \<le> MAX_UINT64"
  shows "\<exists>a. delivery_snapshot (VInt now) s = Inr a"
proof -
  have st: "token_of (VStr (state_name (d_state s))) f = Inr (state_name (d_state s))" for f
    by (cases "d_state s") (simp_all add: token_of_def is_token_def is_upper_def is_digit_def ord_def)
  have adv: "delivery_advice (d_state s) \<in> set ADVISORIES"
    by (cases "d_state s") (simp_all add: delivery_advice_def ADVISORIES_def)
  have rs: "map_exn (\<lambda>r. token_of (VStr r) ''reason code'') (d_reasons s) = Inr (d_reasons s)"
    using assms(1) by (cases "d_reasons s") (auto simp: reasons_ok_def token_of_def)
  have u: "uint64 (VInt now) f = Inr now" for f using assms by (simp add: uint64_def)
  have opt: "requirement_ok (''next_venue'', opt_str z) = Inr ()" "requirement_ok (''destination'', opt_str z) = Inr ()" for z
    by (cases z; simp add: requirement_ok_def opt_str_def is_lower_name_def is_lower_def is_digit_def ord_def)+
  show ?thesis
    using assms(1)
    by (simp add: delivery_snapshot_def make_advisory_def u rs adv st BEHAVIORS_def reasons_ok_def opt)
       (simp add: requirement_ok_def is_lower_name_def is_lower_def is_digit_def ord_def)
qed

lemma goods_departing:
  assumes "goods_ok s" "remaining s = []" "completed_destinations s = []"
  shows "remaining_destinations s \<noteq> []"
proof
  assume "remaining_destinations s = []"
  with goods_bounds(3) [OF assms(1,2)] have "cargo_count s = 0" by simp
  moreover have "1 \<le> amount (quantities s) (picked s)"
    using assms by (intro amount_pos) (auto simp: goods_ok_def)
  ultimately show False using assms by (simp add: goods_ok_def)
qed

text \<open>\<open>settled r\<close>: the call returned, and its object satisfies the invariant.\<close>

definition settled :: "(delivery, advisory) outcome \<Rightarrow> bool" where
  "settled r \<longleftrightarrow> (\<exists>a s. r = (Inr a, s) \<and> delivery_inv s)"

lemma settled_if: "(c \<Longrightarrow> settled x) \<Longrightarrow> settled y \<Longrightarrow> settled (if c then x else y)"
  by simp

lemma noted_settled:
  assumes "delivery_inv s" "0 \<le> now" "now \<le> MAX_UINT64"
  shows "settled (noted event now venue s)"
proof -
  have "phase_ok st (s\<lparr>audit := x\<rparr>) = phase_ok st s" for st x by (cases st) auto
  then have inv: "delivery_inv (record_event event now venue s)"
    using assms(1) by (auto simp: delivery_inv_def goods_ok_def record_event_def keep_last_def)
  then show ?thesis
    using delivery_snapshot_returns [of "record_event event now venue s" now] assms(2,3)
    by (auto simp: settled_def noted_def Let_def delivery_inv_def)
qed

lemma fail_settled:
  assumes "delivery_inv s" "0 \<le> now" "now \<le> MAX_UINT64" "is_token 63 reason"
  shows "settled (fail reason now event s)"
  unfolding fail_def
proof (rule noted_settled)
  show "delivery_inv (s\<lparr>d_state := Failed, d_reasons := [reason]\<rparr>)"
    using assms by (auto simp: delivery_inv_def goods_ok_def reasons_ok_def)
qed (use assms in auto)

lemma reason_tokens [simp]:
  "is_token 63 ''DROPOFF_BEFORE_PICKUP''" "is_token 63 ''PICKUP_PAYLOAD_INVALID''"
  "is_token 63 ''PICKUP_SEQUENCE_MISMATCH''" "is_token 63 ''PICKUP_CONFIRMATION_INVALID''"
  "is_token 63 ''CARGO_CAPACITY_EXCEEDED''" "is_token 63 ''DESTINATION_MISMATCH''"
  "is_token 63 ''EXTERNAL_ACTION_FAILED''" "is_token 63 ''INVALID_TRANSITION''" "is_token 63 ''TIME_ROLLBACK''"
  "is_token 63 ''EVENT_INVALID''" "is_token 63 ''DUPLICATE_PICKUP_CONFIRMATION''"
  "is_token 63 ''SERVER_RESTART''" "is_token 63 ''OPERATOR_PAUSED''" "is_token 63 ''EXPLICIT_RESUME_REQUIRED''"
  by (simp_all add: is_token_def is_upper_def is_digit_def ord_def)

text \<open>A change of phase alone.\<close>

lemma phase_frame [simp]:
  "phase_ok st (s\<lparr>d_state := x\<rparr>) = phase_ok st s" "phase_ok st (s\<lparr>d_reasons := rs\<rparr>) = phase_ok st s"
  "phase_ok st (s\<lparr>state_before_pause := x\<rparr>) = phase_ok st s" "phase_ok st (s\<lparr>last_updated_ns := n\<rparr>) = phase_ok st s"
  "phase_ok st (s\<lparr>resume_requires_evidence := b\<rparr>) = phase_ok st s" "phase_ok st (s\<lparr>cargo_count := n\<rparr>) = phase_ok st s"
  by (cases st; simp)+

lemma goods_frame [simp]:
  "goods_ok (s\<lparr>d_state := x\<rparr>) = goods_ok s" "goods_ok (s\<lparr>d_reasons := rs\<rparr>) = goods_ok s"
  "goods_ok (s\<lparr>state_before_pause := x\<rparr>) = goods_ok s" "goods_ok (s\<lparr>last_updated_ns := n\<rparr>) = goods_ok s"
  "goods_ok (s\<lparr>resume_requires_evidence := b\<rparr>) = goods_ok s"
  by (simp_all add: goods_ok_def)

lemma contract_checked_venue: "contract_checked (payload_venue data) = Inr None \<or> (\<exists>v. contract_checked (payload_venue data) = Inr (Some v))"
  by (simp add: payload_venue_def contract_checked_def token_of_def guard_def)

lemma advance_settled:
  "delivery_inv s \<Longrightarrow> 0 \<le> now \<Longrightarrow> now \<le> MAX_UINT64 \<Longrightarrow> settled (advance event now data s)"
  unfolding advance_def by (rule noted_settled)

lemma inv_phase:
  assumes "delivery_inv s" "phase_ok st s" "st \<noteq> Paused"
  shows "delivery_inv (s\<lparr>d_state := st\<rparr>)"
  using assms by (auto simp: delivery_inv_def)

lemma confirm_pickup_settled:
  assumes inv: "delivery_inv s" and "d_state s \<noteq> Paused" "0 \<le> now" "now \<le> MAX_UINT64"
  shows "settled (confirm_pickup now data s)"
proof -
  note F = fail_settled [OF inv assms(3,4)]
  show ?thesis
  proof (cases "contract_checked (payload_venue data)")
    case (Inr checked)
    show ?thesis
    proof (cases checked)
      case None
      with Inr F show ?thesis by (simp add: confirm_pickup_def)
    next
      case (Some v)
      consider "v \<in> set (picked s)"
        | "v \<notin> set (picked s)" "d_state s \<noteq> Pickup_Confirmation_Required \<or> Some v \<noteq> next_venue_id s"
        | "d_state s = Pickup_Confirmation_Required" "next_venue_id s = Some v" "v \<notin> set (picked s)"
        by metis
      then show ?thesis
      proof cases
        case 1
        have "delivery_inv (s\<lparr>d_reasons := [''DUPLICATE_PICKUP_CONFIRMATION'']\<rparr>)"
          using inv by (simp add: delivery_inv_def reasons_ok_def)
        with 1 Inr Some noted_settled assms(3,4) show ?thesis by (simp add: confirm_pickup_def)
      next
        case 2
        with Inr Some F show ?thesis by (simp add: confirm_pickup_def)
      next
        case 3
        have g: "goods_ok s" "completed_destinations s = []" using inv 3(1) by (auto simp: delivery_inv_def)
        from goods_pickup [OF g(1) 3(2) g(2)] obtain q where q: "map_of (quantities s) v = Some q"
          "cargo_count s + q \<le> 5"
          "goods_ok (s\<lparr>cargo_count := cargo_count s + q, picked := picked s @ [v], remaining := tl (remaining s)\<rparr>)" .
        let ?t = "s\<lparr>cargo_count := cargo_count s + q, picked := picked s @ [v], remaining := tl (remaining s), d_state := Cargo_Updated\<rparr>"
        have "delivery_inv ?t"
          using inv q(3) g(2) by (auto simp: delivery_inv_def goods_ok_def)
        then have "settled (advance ''CONFIRM_PICKUP'' now data ?t)" using assms(3,4) by (rule advance_settled)
        with Inr Some 3 q(1,2) show ?thesis by (simp add: confirm_pickup_def)
      qed
    qed
  qed (use contract_checked_venue [of data] in auto)
qed

lemma confirm_dropoff_settled:
  assumes inv: "delivery_inv s" and st: "d_state s = Dropoff_Confirmation_Required" and "0 \<le> now" "now \<le> MAX_UINT64"
  shows "settled (confirm_dropoff now data s)"
proof -
  note F = fail_settled [OF inv assms(3,4)]
  have g: "goods_ok s" "remaining s = []" using inv st by (auto simp: delivery_inv_def)
  show ?thesis
  proof (cases "next_destination_id s")
    case None
    with F show ?thesis by (simp add: confirm_dropoff_def)
  next
    case (Some v)
    from goods_dropoff [OF g(1) Some g(2)] obtain q where q: "map_of (destination_quantities s) v = Some q"
      "goods_ok (s\<lparr>cargo_count := max 0 (cargo_count s - q), completed_destinations := completed_destinations s @ [v],
         remaining_destinations := tl (remaining_destinations s)\<rparr>)" .
    let ?t = "s\<lparr>cargo_count := max 0 (cargo_count s - q), completed_destinations := completed_destinations s @ [v],
      remaining_destinations := tl (remaining_destinations s),
      d_state := (if tl (remaining_destinations s) \<noteq> [] then En_Route_Destination else Order_Complete)\<rparr>"
    have "delivery_inv ?t" using inv q(2) g(2) by (auto simp: delivery_inv_def goods_ok_def)
    then have "settled (advance ''CONFIRM_DROPOFF'' now data ?t)" using assms(3,4) by (rule advance_settled)
    with Some q(1) F show ?thesis by (simp add: confirm_dropoff_def)
  qed
qed

lemma plan_step_settled:
  assumes inv: "delivery_inv s" and st: "d_state s \<noteq> Paused" and now: "0 \<le> now" "now \<le> MAX_UINT64"
  shows "settled (plan_step event now data s)"
proof -
  note F = fail_settled [OF inv now]
  have A: "settled (advance event now data (s\<lparr>d_state := x\<rparr>))" if "phase_ok x s" "x \<noteq> Paused" for x event
    using advance_settled [OF inv_phase [OF inv that] now] .
  have g: "goods_ok s" "phase_ok (d_state s) s" using inv by (simp_all add: delivery_inv_def)
  have rd: "remaining_destinations s \<noteq> []" if "remaining s = []" "d_state s = Cargo_Updated"
    by (rule goods_departing [OF g(1) that(1)]) (use g(2) that in simp)
  have ra: "remaining s \<noteq> []" if "d_state s = Order_Ready"
    using g that by (auto simp: goods_ok_def)
  have arrive: "settled (obind (lift_exn (contract_checked (payload_venue data)) s) (\<lambda>checked s.
      case checked of
        None \<Rightarrow> fail ''PICKUP_PAYLOAD_INVALID'' now (VStr event) s
      | Some venue \<Rightarrow>
          if Some venue \<noteq> next_venue_id s then fail ''PICKUP_SEQUENCE_MISMATCH'' now (VStr event) s
          else advance event now data (s\<lparr>d_state := Pickup_Dock_Required\<rparr>)))"
    if "d_state s = En_Route_Pickup"
    using contract_checked_venue [of data] F A [of Pickup_Dock_Required] g(2) that by auto
  show ?thesis
    unfolding plan_step_def
  proof (intro settled_if)
    assume "event = ''START'' \<and> d_state s = Order_Ready"
    with A [of En_Route_Pickup] ra g(2) show "settled (advance event now data (s\<lparr>d_state := En_Route_Pickup\<rparr>))"
      by simp
  next
    assume "event = ''PICKUP_DOCKED'' \<and> d_state s = Pickup_Dock_Required"
    with A [of Pickup_Confirmation_Required] g(2)
    show "settled (advance event now data (s\<lparr>d_state := Pickup_Confirmation_Required\<rparr>))" by simp
  next
    assume "event = ''DEPART_PICKUP'' \<and> d_state s = Cargo_Updated"
    with A [of En_Route_Pickup] A [of En_Route_Destination] rd g(2)
    show "settled (advance event now data
        (s\<lparr>d_state := (if remaining s \<noteq> [] then En_Route_Pickup else En_Route_Destination)\<rparr>))" by simp
  next
    assume "event = ''ARRIVE_DESTINATION'' \<and> d_state s = En_Route_Destination"
    with A [of Dropoff_Dock_Required] g(2)
    show "settled (advance event now data (s\<lparr>d_state := Dropoff_Dock_Required\<rparr>))" by simp
  next
    assume "event = ''DROPOFF_DOCKED'' \<and> d_state s = Dropoff_Dock_Required"
    with A [of Dropoff_Confirmation_Required] g(2)
    show "settled (advance event now data (s\<lparr>d_state := Dropoff_Confirmation_Required\<rparr>))" by simp
  qed (use F arrive confirm_pickup_settled [OF inv st now] confirm_dropoff_settled [OF inv _ now] in simp_all)
qed

lemma named_transition_settled:
  assumes inv: "delivery_inv s" and now: "0 \<le> now" "now \<le> MAX_UINT64"
  shows "settled (named_transition event now data s)"
proof -
  note F = fail_settled [OF inv now]
  have N: "settled (noted (VStr event) now None t)" if "delivery_inv t" for t
    using that now by (rule noted_settled)
  have P: "delivery_inv (s\<lparr>state_before_pause := d_state s, d_state := Paused, resume_requires_evidence := b, d_reasons := [r]\<rparr>)"
    if "d_state s \<notin> {Order_Complete, Failed}" "is_token 63 r" for b r
    using inv that by (auto simp: delivery_inv_def reasons_ok_def)
  have "settled (noted (VStr event) now None
     (if d_state s \<in> {Order_Complete, Failed} then s
      else s\<lparr>state_before_pause := d_state s, d_state := Paused, resume_requires_evidence := True,
             d_reasons := [''SERVER_RESTART'']\<rparr>))"
    using inv P [of "''SERVER_RESTART''" True] by (intro N) auto
  moreover have "settled (noted (VStr event) now None
     (if d_state s \<in> {Order_Complete, Failed, Paused} then s
      else s\<lparr>state_before_pause := d_state s, d_state := Paused, d_reasons := [''OPERATOR_PAUSED'']\<rparr>))"
    using inv by (intro N) (auto simp: delivery_inv_def reasons_ok_def)
  moreover have "settled (noted (VStr event) now None (s\<lparr>d_state := state_before_pause s, resume_requires_evidence := False\<rparr>))"
    if "d_state s = Paused"
    using inv that by (intro N) (auto simp: delivery_inv_def)
  moreover have "settled (noted (VStr event) now None (s\<lparr>d_reasons := [''EXPLICIT_RESUME_REQUIRED'']\<rparr>))"
    using inv by (intro N) (simp add: delivery_inv_def reasons_ok_def)
  moreover have "settled (if d_state s \<in> {Failed, Order_Complete, Paused}
      then fail ''INVALID_TRANSITION'' now (VStr event) s else plan_step event now data s)"
    using F plan_step_settled [OF inv _ now] by simp
  ultimately show ?thesis
    unfolding named_transition_def using F by (simp only: if_split) (auto split del: if_split)
qed

theorem transition_settled:
  assumes inv: "delivery_inv s" and now: "uint64 at_ns ''now_ns'' = Inr now"
  shows "settled (transition event at_ns payload s)"
proof -
  have n: "0 \<le> now" "now \<le> MAX_UINT64" using now by (auto simp: uint64_iff)
  have u: "0 \<le> last_updated_ns s" "last_updated_ns s \<le> MAX_UINT64" using inv by (simp_all add: delivery_inv_def)
  have i: "delivery_inv (s\<lparr>last_updated_ns := now\<rparr>)" "delivery_inv (s\<lparr>last_updated_ns := now, d_reasons := []\<rparr>)"
    using inv n by (auto simp: delivery_inv_def reasons_ok_def)
  have "settled (fail ''EVENT_INVALID'' now (VStr ''EVENT_INVALID'') (s\<lparr>last_updated_ns := now\<rparr>))"
    using fail_settled [OF i(1) n] by simp
  moreover have "settled (fail ''TIME_ROLLBACK'' (last_updated_ns s) event s)"
    using fail_settled [OF inv u] by simp
  moreover have "settled (named_transition name now data (s\<lparr>last_updated_ns := now, d_reasons := []\<rparr>))" for name data
    using named_transition_settled [OF i(2) n] .
  ultimately show ?thesis
    using now by (simp add: transition_def Let_def split: sum.split)
qed

lemma delivery_init_inv:
  assumes "delivery_init order = Inr s"
  shows "delivery_inv s" "d_state s = Order_Ready" "last_updated_ns s = 0"
proof -
  from assms obtain d lines where d: "order = VDict d" "dget d ''lines'' = VList lines"
    by (auto simp: delivery_init_def split: pyval.splits)
  with assms obtain keys entries where k: "map_exn line_key lines = Inr keys"
    "map_exn (line_entry d) (map snd (sort_key fst (zip keys lines))) = Inr entries"
    by (auto simp: delivery_init_def sbind_Inr_iff)
  obtain qs ds where o: "order_totals entries = (qs, ds)" by fastforce
  from assms d k o have s:
    "sum_list (map snd qs) = int_val (dget d ''total_quantity'')"
    "plain_within (dget d ''total_quantity'') 1 5" "length qs \<le> 5" "1 \<le> length qs"
    "s = \<lparr>quantities = qs, destination_quantities = ds, remaining = map fst qs,
       remaining_destinations = map fst ds, completed_destinations = [], picked = [],
       cargo_count = 0, d_state = Order_Ready, d_reasons = [], audit = [],
       last_updated_ns = 0, state_before_pause = Order_Ready, resume_requires_evidence = False\<rparr>"
    by (auto simp: delivery_init_def sbind_Inr_iff)
  have e: "1 \<le> snd (snd e)" "is_token 63 (fst e)" if "line_entry d item = Inr e" for item e
    using that
    by (auto simp: line_entry_def sbind_Inr_iff plain_within_def token_of_def split: pyval.splits if_splits)
  from e(1) have le: "list_all (\<lambda>e. 1 \<le> snd (snd e)) entries"
    using k(2) by (rule map_exn_all)
  from e(2) have "list_all (\<lambda>e. is_token 63 (fst e)) entries"
    using k(2) by (rule map_exn_all)
  from order_totals_venues [OF this o] order_totals_ok [OF le o] s
  show "delivery_inv s" "d_state s = Order_Ready" "last_updated_ns s = 0"
    by (auto simp: delivery_inv_def goods_ok_def plain_within_def reasons_ok_def MAX_UINT64_def)
qed

end
