(* ===== verification/Delivery_Claims.thy ===== *)
theory Delivery_Claims
  imports Delivery
begin

text \<open>
  The properties of \<^verbatim>\<open>DeliveryWorkflow\<close>: what holds in every state it reaches from an accepted order,
  and how a pause can end.
\<close>

type_synonym delivery_call = "pyval \<times> pyval \<times> pydict option"

definition delivery_run :: "delivery_call list \<Rightarrow> delivery \<Rightarrow> delivery" where
  "delivery_run calls s = fold (\<lambda>(event, at_ns, payload) s. snd (transition event at_ns payload s)) calls s"

lemma delivery_run_simps [simp]:
  "delivery_run [] s = s"
  "delivery_run ((event, at_ns, payload) # calls) s = delivery_run calls (snd (transition event at_ns payload s))"
  "delivery_run (calls @ later) s = delivery_run later (delivery_run calls s)"
  by (simp_all add: delivery_run_def)

lemma transition_inv: "delivery_inv s \<Longrightarrow> delivery_inv (snd (transition event at_ns payload s))"
proof (cases "uint64 at_ns ''now_ns''")
  case (Inr now)
  assume "delivery_inv s"
  from transition_settled [OF this Inr, of event payload] show ?thesis by (auto simp: settled_def)
qed (simp add: transition_def)

lemma delivery_run_inv: "delivery_inv s \<Longrightarrow> delivery_inv (delivery_run calls s)"
proof (induction calls arbitrary: s)
  case (Cons c calls)
  then show ?case by (cases c) (simp add: transition_inv)
qed simp

subsection \<open>The order itself never changes\<close>

definition same_order :: "delivery \<Rightarrow> delivery \<Rightarrow> bool" where
  "same_order s t \<longleftrightarrow> quantities t = quantities s \<and> destination_quantities t = destination_quantities s"

lemma noted_state [simp]: "snd (noted event now venue s) = record_event event now venue s"
  by (simp add: noted_def Let_def)

lemma fail_state [simp]: "snd (fail reason now event s) = record_event event now None (s\<lparr>d_state := Failed, d_reasons := [reason]\<rparr>)"
  by (simp add: fail_def)

lemma advance_state [simp]: "snd (advance event now data s) = record_event (VStr event) now (text_option (dget data ''venue_id'')) s"
  by (simp add: advance_def)

lemma record_event_fields [simp]:
  "quantities (record_event e n v s) = quantities s" "destination_quantities (record_event e n v s) = destination_quantities s"
  "d_state (record_event e n v s) = d_state s" "state_before_pause (record_event e n v s) = state_before_pause s"
  "remaining (record_event e n v s) = remaining s" "remaining_destinations (record_event e n v s) = remaining_destinations s"
  "picked (record_event e n v s) = picked s" "completed_destinations (record_event e n v s) = completed_destinations s"
  "cargo_count (record_event e n v s) = cargo_count s" "last_updated_ns (record_event e n v s) = last_updated_ns s"
  by (simp_all add: record_event_def)

lemma same_order_if: "same_order s (snd x) \<Longrightarrow> same_order s (snd y) \<Longrightarrow> same_order s (snd (if c then x else y))"
  by simp

lemma confirm_same_order:
  "same_order s (snd (confirm_pickup now data s))" "same_order s (snd (confirm_dropoff now data s))"
  by (auto simp: same_order_def confirm_pickup_def confirm_dropoff_def obind_def split: sum.split option.split)

lemma plan_step_same_order: "same_order s (snd (plan_step event now data s))"
  unfolding plan_step_def
  by (intro same_order_if confirm_same_order)
     (auto simp: same_order_def obind_def split: sum.split option.split)

lemma transition_same_order: "same_order s (snd (transition event at_ns payload s))"
  using plan_step_same_order [of "s\<lparr>last_updated_ns := now, d_reasons := []\<rparr>" for now]
  by (auto simp: transition_def named_transition_def obind_def Let_def same_order_def split: sum.split)

lemma delivery_run_same_order: "same_order s (delivery_run calls s)"
proof (induction calls arbitrary: s)
  case (Cons c calls)
  obtain e t p where c: "c = (e, t, p)" by (cases c)
  show ?case using Cons [of "snd (transition e t p s)"] transition_same_order [of s e t p]
    by (simp add: c same_order_def)
qed (simp add: same_order_def)

subsection \<open>Pauses\<close>

lemma transition_paused:
  assumes "d_state s = Paused" "t = snd (transition event at_ns payload s)"
  obtains "d_state t = Failed" | "d_state t = Paused" "state_before_pause t = state_before_pause s \<or> event = VStr ''RESTART''"
      "state_before_pause t = state_before_pause s \<or> state_before_pause t = Paused"
    | data where "event = VStr ''RESUME''" "payload = Some data" "py_eq (VDict data) (VDict resume_evidence)"
        "d_state t = state_before_pause s" "state_before_pause t = state_before_pause s"
proof -
  have no: "\<not> py_eq (VDict []) (VDict resume_evidence)" by (simp add: resume_evidence_def)
  have "d_state t = Failed \<or> (d_state t = Paused \<and> (state_before_pause t = state_before_pause s \<or> event = VStr ''RESTART'')
      \<and> (state_before_pause t = state_before_pause s \<or> state_before_pause t = Paused))
    \<or> (\<exists>data. event = VStr ''RESUME'' \<and> payload = Some data \<and> py_eq (VDict data) (VDict resume_evidence)
        \<and> d_state t = state_before_pause s \<and> state_before_pause t = state_before_pause s)"
    unfolding assms(2) transition_def obind_def lift_exn_def Let_def
    using assms(1) no
    by (auto simp: named_transition_def token_of_def is_str_iff simp del: py_eq.simps
        split: sum.split option.split)
  then show thesis using that by blast
qed

lemma transition_failed: "d_state s = Failed \<Longrightarrow> d_state (snd (transition event at_ns payload s)) = Failed"
  by (auto simp: transition_def named_transition_def obind_def Let_def split: sum.split)

subsection \<open>A plan that completes\<close>

definition pickup_calls :: "int \<Rightarrow> string \<Rightarrow> delivery_call list" where
  "pickup_calls n venue =
     [(VStr ''ARRIVE_PICKUP'', VInt n, Some [(''venue_id'', VStr venue)]), (VStr ''PICKUP_DOCKED'', VInt n, None),
      (VStr ''CONFIRM_PICKUP'', VInt n, Some [(''venue_id'', VStr venue)]), (VStr ''DEPART_PICKUP'', VInt n, None)]"

definition dropoff_calls :: "int \<Rightarrow> delivery_call list" where
  "dropoff_calls n =
     [(VStr ''ARRIVE_DESTINATION'', VInt n, None), (VStr ''DROPOFF_DOCKED'', VInt n, None),
      (VStr ''CONFIRM_DROPOFF'', VInt n, None)]"

definition plan_calls :: "int \<Rightarrow> string list \<Rightarrow> nat \<Rightarrow> delivery_call list" where
  "plan_calls n venues drops =
     (VStr ''START'', VInt n, None) # concat (map (pickup_calls n) venues) @ concat (replicate drops (dropoff_calls n))"

lemma event_tokens [simp]:
  "token_of (VStr ''START'') f = Inr ''START''" "token_of (VStr ''ARRIVE_PICKUP'') f = Inr ''ARRIVE_PICKUP''"
  "token_of (VStr ''PICKUP_DOCKED'') f = Inr ''PICKUP_DOCKED''" "token_of (VStr ''CONFIRM_PICKUP'') f = Inr ''CONFIRM_PICKUP''"
  "token_of (VStr ''DEPART_PICKUP'') f = Inr ''DEPART_PICKUP''"
  "token_of (VStr ''ARRIVE_DESTINATION'') f = Inr ''ARRIVE_DESTINATION''"
  "token_of (VStr ''DROPOFF_DOCKED'') f = Inr ''DROPOFF_DOCKED''"
  "token_of (VStr ''CONFIRM_DROPOFF'') f = Inr ''CONFIRM_DROPOFF''"
  "token_of (VStr ''PAUSE'') f = Inr ''PAUSE''" "token_of (VStr ''RESTART'') f = Inr ''RESTART''"
  "token_of (VStr ''RESUME'') f = Inr ''RESUME''"
  by (simp_all add: token_of_def is_token_def is_upper_def is_digit_def ord_def)

lemma payload_venue_known: "is_token 63 v \<Longrightarrow> payload_venue [(''venue_id'', VStr v)] = Inr v"
  by (simp add: payload_venue_def keys_are_def token_of_def dget_def dget_or_def)

definition on_time :: "int \<Rightarrow> delivery \<Rightarrow> bool" where
  "on_time n s \<longleftrightarrow> 0 \<le> n \<and> n \<le> MAX_UINT64 \<and> last_updated_ns s \<le> n"

text \<open>A step of the plan on time: the entry of the log, and the plan's own step.\<close>

definition at_time :: "int \<Rightarrow> delivery \<Rightarrow> delivery" where
  "at_time n s = s\<lparr>last_updated_ns := n, d_reasons := []\<rparr>"

lemma at_time_fields [simp]:
  "quantities (at_time n s) = quantities s" "destination_quantities (at_time n s) = destination_quantities s"
  "remaining (at_time n s) = remaining s" "remaining_destinations (at_time n s) = remaining_destinations s"
  "completed_destinations (at_time n s) = completed_destinations s"
  "picked (at_time n s) = picked s" "cargo_count (at_time n s) = cargo_count s" "d_state (at_time n s) = d_state s"
  "last_updated_ns (at_time n s) = n" "next_venue_id (at_time n s) = next_venue_id s"
  "next_destination_id (at_time n s) = next_destination_id s"
  by (simp_all add: at_time_def next_venue_id_def next_destination_id_def)

lemma transition_plan:
  assumes "on_time n s" "token_of (VStr event) ''delivery event'' = Inr event"
    "d_state s \<notin> {Failed, Order_Complete, Paused}" "event \<notin> {''RESTART'', ''PAUSE'', ''RESUME''}"
  shows "snd (transition (VStr event) (VInt n) payload s)
    = snd (plan_step event n (case payload of None \<Rightarrow> [] | Some d \<Rightarrow> d) (at_time n s))"
  using assms by (simp add: transition_def named_transition_def on_time_def uint64_def at_time_def)

lemma on_time_record [simp]:
  "on_time n (record_event e m v s) = on_time n s" "on_time n (s\<lparr>d_state := x\<rparr>) = on_time n s"
  "on_time n (s\<lparr>picked := p\<rparr>) = on_time n s" "on_time n (s\<lparr>cargo_count := c\<rparr>) = on_time n s"
  "on_time n (s\<lparr>remaining := r\<rparr>) = on_time n s" "on_time n (s\<lparr>remaining_destinations := r\<rparr>) = on_time n s"
  "on_time n (s\<lparr>completed_destinations := r\<rparr>) = on_time n s"
  by (simp_all add: on_time_def record_event_def)

lemma on_time_at [simp]: "on_time n (at_time n s) \<longleftrightarrow> 0 \<le> n \<and> n \<le> MAX_UINT64"
  by (simp add: on_time_def)

lemmas plan_rules = plan_step_def payload_venue_known names_destination_def contract_checked_def
  confirm_pickup_def confirm_dropoff_def

lemma step_start:
  assumes "on_time n s" "d_state s = Order_Ready"
  shows "\<exists>e v. snd (transition (VStr ''START'') (VInt n) None s)
    = record_event e n v ((at_time n s)\<lparr>d_state := En_Route_Pickup\<rparr>)"
  using assms(2) by (subst transition_plan [OF assms(1)]) (auto simp: plan_rules)

lemma step_arrive_pickup:
  assumes "on_time n s" "d_state s = En_Route_Pickup" "next_venue_id s = Some venue" "is_token 63 venue"
  shows "\<exists>e v. snd (transition (VStr ''ARRIVE_PICKUP'') (VInt n) (Some [(''venue_id'', VStr venue)]) s)
    = record_event e n v ((at_time n s)\<lparr>d_state := Pickup_Dock_Required\<rparr>)"
  using assms(2-4) by (subst transition_plan [OF assms(1)]) (auto simp: plan_rules)

lemma step_pickup_docked:
  assumes "on_time n s" "d_state s = Pickup_Dock_Required"
  shows "\<exists>e v. snd (transition (VStr ''PICKUP_DOCKED'') (VInt n) None s)
    = record_event e n v ((at_time n s)\<lparr>d_state := Pickup_Confirmation_Required\<rparr>)"
  using assms(2) by (subst transition_plan [OF assms(1)]) (auto simp: plan_rules)

lemma step_confirm_pickup:
  assumes "on_time n s" "d_state s = Pickup_Confirmation_Required" "next_venue_id s = Some venue"
    "is_token 63 venue" "venue \<notin> set (picked s)" "map_of (quantities s) venue = Some q" "cargo_count s + q \<le> 5"
  shows "\<exists>e v. snd (transition (VStr ''CONFIRM_PICKUP'') (VInt n) (Some [(''venue_id'', VStr venue)]) s)
    = record_event e n v ((at_time n s)\<lparr>cargo_count := cargo_count s + q, picked := picked s @ [venue],
        remaining := tl (remaining s), d_state := Cargo_Updated\<rparr>)"
  using assms(2-) by (subst transition_plan [OF assms(1)]) (auto simp: plan_rules)

lemma step_depart_pickup:
  assumes "on_time n s" "d_state s = Cargo_Updated"
  shows "\<exists>e v. snd (transition (VStr ''DEPART_PICKUP'') (VInt n) None s)
    = record_event e n v ((at_time n s)\<lparr>d_state := (if remaining s \<noteq> [] then En_Route_Pickup else En_Route_Destination)\<rparr>)"
  using assms(2) by (subst transition_plan [OF assms(1)]) (auto simp: plan_rules)

lemma step_arrive_destination:
  assumes "on_time n s" "d_state s = En_Route_Destination" "remaining s = []"
  shows "\<exists>e v. snd (transition (VStr ''ARRIVE_DESTINATION'') (VInt n) None s)
    = record_event e n v ((at_time n s)\<lparr>d_state := Dropoff_Dock_Required\<rparr>)"
  using assms(2-) by (subst transition_plan [OF assms(1)]) (auto simp: plan_rules)

lemma step_dropoff_docked:
  assumes "on_time n s" "d_state s = Dropoff_Dock_Required" "remaining s = []"
  shows "\<exists>e v. snd (transition (VStr ''DROPOFF_DOCKED'') (VInt n) None s)
    = record_event e n v ((at_time n s)\<lparr>d_state := Dropoff_Confirmation_Required\<rparr>)"
  using assms(2-) by (subst transition_plan [OF assms(1)]) (auto simp: plan_rules)

lemma step_confirm_dropoff:
  assumes "on_time n s" "d_state s = Dropoff_Confirmation_Required" "next_destination_id s = Some d"
    "map_of (destination_quantities s) d = Some q"
  shows "\<exists>e v. snd (transition (VStr ''CONFIRM_DROPOFF'') (VInt n) None s)
    = record_event e n v ((at_time n s)\<lparr>cargo_count := max 0 (cargo_count s - q),
        completed_destinations := completed_destinations s @ [d],
        remaining_destinations := tl (remaining_destinations s),
        d_state := (if tl (remaining_destinations s) \<noteq> [] then En_Route_Destination else Order_Complete)\<rparr>)"
  using assms(2-) by (subst transition_plan [OF assms(1)]) (auto simp: plan_rules)

text \<open>One pickup, and one drop-off, of the plan.\<close>

lemma next_fields [simp]:
  "next_venue_id (s\<lparr>d_state := x\<rparr>) = next_venue_id s" "next_destination_id (s\<lparr>d_state := x\<rparr>) = next_destination_id s"
  "next_venue_id (record_event e n v s) = next_venue_id s"
  "next_destination_id (record_event e n v s) = next_destination_id s"
  by (simp_all add: next_venue_id_def next_destination_id_def)

lemma pickup_run:
  assumes inv: "delivery_inv s" and ot: "on_time n s" and st: "d_state s = En_Route_Pickup" "remaining s = v # vs"
  shows "\<exists>t. delivery_run (pickup_calls n v) s = t \<and> on_time n t \<and> remaining t = vs
    \<and> remaining_destinations t = remaining_destinations s
    \<and> d_state t = (if vs \<noteq> [] then En_Route_Pickup else En_Route_Destination)"
proof -
  have g: "goods_ok s" "completed_destinations s = []" using inv st by (simp_all add: delivery_inv_def)
  have nv: "next_venue_id s = Some v" using st by (simp add: next_venue_id_def head_option_def)
  from goods_pickup [OF g(1) nv g(2)] obtain q
    where q: "map_of (quantities s) v = Some q" "cargo_count s + q \<le> 5" "v \<notin> set (picked s)" .
  have "v \<in> set (map fst (quantities s))" using g(1) st(2) unfolding goods_ok_def by (metis in_set_conv_decomp)
  with g(1) have v: "is_token 63 v" by (auto simp: goods_ok_def list_all_iff)
  have n: "0 \<le> n" "n \<le> MAX_UINT64" using ot by (simp_all add: on_time_def)
  define s1 where "s1 = snd (transition (VStr ''ARRIVE_PICKUP'') (VInt n) (Some [(''venue_id'', VStr v)]) s)"
  obtain e1 v1 where s1: "s1 = record_event e1 n v1 ((at_time n s)\<lparr>d_state := Pickup_Dock_Required\<rparr>)"
    using step_arrive_pickup [OF ot st(1) nv v] s1_def by auto
  define s2 where "s2 = snd (transition (VStr ''PICKUP_DOCKED'') (VInt n) None s1)"
  obtain e2 v2 where s2: "s2 = record_event e2 n v2 ((at_time n s1)\<lparr>d_state := Pickup_Confirmation_Required\<rparr>)"
    using step_pickup_docked [of n s1] s2_def by (auto simp: s1 n)
  define s3 where "s3 = snd (transition (VStr ''CONFIRM_PICKUP'') (VInt n) (Some [(''venue_id'', VStr v)]) s2)"
  obtain e3 v3 where s3: "s3 = record_event e3 n v3 ((at_time n s2)\<lparr>cargo_count := cargo_count s2 + q,
      picked := picked s2 @ [v], remaining := tl (remaining s2), d_state := Cargo_Updated\<rparr>)"
    using step_confirm_pickup [of n s2 v q] s3_def v q nv by (auto simp: s1 s2 n)
  define s4 where "s4 = snd (transition (VStr ''DEPART_PICKUP'') (VInt n) None s3)"
  obtain e4 v4 where s4: "s4 = record_event e4 n v4 ((at_time n s3)\<lparr>d_state := (if remaining s3 \<noteq> [] then En_Route_Pickup else En_Route_Destination)\<rparr>)"
    using step_depart_pickup [of n s3] s4_def by (auto simp: s3 n)
  have "delivery_run (pickup_calls n v) s = s4"
    by (simp add: pickup_calls_def s4_def s3_def s2_def s1_def)
  then show ?thesis using st by (simp add: s1 s2 s3 s4 n)
qed

lemma dropoff_run:
  assumes inv: "delivery_inv s" and ot: "on_time n s"
    and st: "d_state s = En_Route_Destination" "remaining_destinations s = d # ds"
  shows "\<exists>t. delivery_run (dropoff_calls n) s = t \<and> on_time n t \<and> remaining_destinations t = ds
    \<and> d_state t = (if ds \<noteq> [] then En_Route_Destination else Order_Complete)"
proof -
  have g: "goods_ok s" "remaining s = []" using inv st by (simp_all add: delivery_inv_def)
  have nd: "next_destination_id s = Some d" using st by (simp add: next_destination_id_def head_option_def)
  from goods_dropoff [OF g(1) nd g(2)] obtain q where q: "map_of (destination_quantities s) d = Some q" .
  have n: "0 \<le> n" "n \<le> MAX_UINT64" using ot by (simp_all add: on_time_def)
  define s1 where "s1 = snd (transition (VStr ''ARRIVE_DESTINATION'') (VInt n) None s)"
  obtain e1 v1 where s1: "s1 = record_event e1 n v1 ((at_time n s)\<lparr>d_state := Dropoff_Dock_Required\<rparr>)"
    using step_arrive_destination [OF ot st(1) g(2)] s1_def by auto
  define s2 where "s2 = snd (transition (VStr ''DROPOFF_DOCKED'') (VInt n) None s1)"
  obtain e2 v2 where s2: "s2 = record_event e2 n v2 ((at_time n s1)\<lparr>d_state := Dropoff_Confirmation_Required\<rparr>)"
    using step_dropoff_docked [of n s1] s2_def g(2) by (auto simp: s1 n)
  define s3 where "s3 = snd (transition (VStr ''CONFIRM_DROPOFF'') (VInt n) None s2)"
  obtain e3 v3 where s3: "s3 = record_event e3 n v3 ((at_time n s2)\<lparr>cargo_count := max 0 (cargo_count s2 - q),
      completed_destinations := completed_destinations s2 @ [d],
      remaining_destinations := tl (remaining_destinations s2),
      d_state := (if tl (remaining_destinations s2) \<noteq> [] then En_Route_Destination else Order_Complete)\<rparr>)"
    using step_confirm_dropoff [of n s2 d q] s3_def q nd by (auto simp: s1 s2 n)
  have "delivery_run (dropoff_calls n) s = s3"
    by (simp add: dropoff_calls_def s3_def s2_def s1_def)
  then show ?thesis using st by (simp add: s1 s2 s3 n)
qed

lemma pickups_run:
  assumes "delivery_inv s" "on_time n s" "remaining s = vs"
    "d_state s = (if vs \<noteq> [] then En_Route_Pickup else En_Route_Destination)"
  shows "\<exists>t. delivery_run (concat (map (pickup_calls n) vs)) s = t \<and> on_time n t \<and> delivery_inv t
    \<and> d_state t = En_Route_Destination \<and> remaining_destinations t = remaining_destinations s"
  using assms
proof (induction vs arbitrary: s)
  case (Cons v vs)
  from pickup_run [OF Cons.prems(1,2) _ Cons.prems(3)] Cons.prems(4) delivery_run_inv [OF Cons.prems(1)]
    Cons.IH [of "delivery_run (pickup_calls n v) s"]
  show ?case by simp
qed simp

lemma dropoffs_run:
  assumes "delivery_inv s" "on_time n s" "remaining_destinations s = ds"
    "d_state s = (if ds \<noteq> [] then En_Route_Destination else Order_Complete)"
  shows "d_state (delivery_run (concat (replicate (length ds) (dropoff_calls n))) s) = Order_Complete"
  using assms
proof (induction ds arbitrary: s)
  case (Cons d ds)
  from dropoff_run [OF Cons.prems(1,2) _ Cons.prems(3)] Cons.prems(4) delivery_run_inv [OF Cons.prems(1)]
    Cons.IH [of "delivery_run (dropoff_calls n) s"]
  show ?case by simp
qed simp

subsection \<open>The properties\<close>

definition demo_order :: pyval where
  "demo_order = VDict
     [(''destination_id'', VStr ''LOBBY''), (''total_quantity'', VInt 3),
      (''lines'', VList [
        VDict [(''sequence'', VInt 2), (''restaurant_id'', VStr ''CAFE''), (''quantity'', VInt 1)],
        VDict [(''sequence'', VInt 1), (''restaurant_id'', VStr ''BAKERY''), (''quantity'', VInt 2)]])]"

definition demo_workflow :: delivery where
  "demo_workflow =
     \<lparr>quantities = [(''BAKERY'', 2), (''CAFE'', 1)], destination_quantities = [(''LOBBY'', 3)],
      remaining = [''BAKERY'', ''CAFE''], remaining_destinations = [''LOBBY''], completed_destinations = [],
      picked = [], cargo_count = 0, d_state = Order_Ready, d_reasons = [], audit = [],
      last_updated_ns = 0, state_before_pause = Order_Ready, resume_requires_evidence = False\<rparr>"

lemma demo_workflow_init: "delivery_init demo_order = Inr demo_workflow"
  by (simp add: delivery_init_def demo_order_def demo_workflow_def dget_def dget_or_def plain_within_def
      line_key_def line_entry_def order_totals_def add_quantity_def token_of_def is_token_def is_upper_def
      is_digit_def ord_def guard_def)

lemma delivery_run_facts:
  assumes "delivery_init order = Inr s0"
  defines "s \<equiv> \<lambda>calls. delivery_run calls s0"
  shows "picked (s calls) @ remaining (s calls) = map fst (quantities s0)"
    "completed_destinations (s calls) @ remaining_destinations (s calls) = map fst (destination_quantities s0)"
    "cargo_count (s calls) = amount (quantities s0) (picked (s calls))
       - amount (destination_quantities s0) (completed_destinations (s calls))"
    "0 \<le> cargo_count (s calls)" "cargo_count (s calls) \<le> 5"
    "completed_destinations (s calls) \<noteq> [] \<Longrightarrow> remaining (s calls) = []"
    "d_state (s calls) \<in> {En_Route_Destination, Dropoff_Dock_Required, Dropoff_Confirmation_Required}
       \<Longrightarrow> remaining (s calls) = [] \<and> 0 < cargo_count (s calls)"
    "d_state (s calls) = Order_Complete
       \<Longrightarrow> remaining (s calls) = [] \<and> remaining_destinations (s calls) = [] \<and> cargo_count (s calls) = 0"
    "length (audit (s calls)) \<le> 32"
proof -
  have inv: "delivery_inv (s calls)" and same: "same_order s0 (s calls)"
    unfolding s_def using delivery_run_inv [OF delivery_init_inv(1) [OF assms(1)]] delivery_run_same_order by auto
  then have g: "goods_ok (s calls)" and ph: "phase_ok (d_state (s calls)) (s calls)" by (simp_all add: delivery_inv_def)
  show "picked (s calls) @ remaining (s calls) = map fst (quantities s0)"
    "completed_destinations (s calls) @ remaining_destinations (s calls) = map fst (destination_quantities s0)"
    "cargo_count (s calls) = amount (quantities s0) (picked (s calls))
       - amount (destination_quantities s0) (completed_destinations (s calls))"
    "completed_destinations (s calls) \<noteq> [] \<Longrightarrow> remaining (s calls) = []"
    using g same by (simp_all add: goods_ok_def same_order_def)
  show "0 \<le> cargo_count (s calls)" "cargo_count (s calls) \<le> 5" using goods_bounds [OF g] by auto
  show "length (audit (s calls)) \<le> 32" using inv by (simp add: delivery_inv_def)
  have ok: "quantities_ok (destination_quantities (s calls))"
    "set (remaining_destinations (s calls)) \<subseteq> set (map fst (destination_quantities (s calls)))"
    using g unfolding goods_ok_def by (simp, metis set_append Un_upper2)
  show "d_state (s calls) \<in> {En_Route_Destination, Dropoff_Dock_Required, Dropoff_Confirmation_Required}
       \<Longrightarrow> remaining (s calls) = [] \<and> 0 < cargo_count (s calls)"
    using ph goods_bounds(3) [OF g] amount_pos [OF ok(1) _ ok(2)] by auto
  show "d_state (s calls) = Order_Complete
       \<Longrightarrow> remaining (s calls) = [] \<and> remaining_destinations (s calls) = [] \<and> cargo_count (s calls) = 0"
    using ph goods_bounds(3) [OF g] by auto
qed

text \<open>C13. Whatever calls an accepted order's workflow receives, its restaurants are picked up in the
  order of the plan and its destinations served in theirs, the cargo is what was picked up less what
  was dropped off, never negative and never above five, nothing is dropped off before everything is
  picked up, and an order is complete only when every destination is served and the robot is empty.\<close>

theorem delivery_run_invariant:
  assumes "delivery_init order = Inr s0" and "s = delivery_run calls s0"
  shows "picked s @ remaining s = map fst (quantities s0)
    \<and> completed_destinations s @ remaining_destinations s = map fst (destination_quantities s0)
    \<and> cargo_count s = amount (quantities s0) (picked s) - amount (destination_quantities s0) (completed_destinations s)
    \<and> 0 \<le> cargo_count s \<and> cargo_count s \<le> 5
    \<and> (completed_destinations s \<noteq> [] \<longrightarrow> remaining s = [])
    \<and> (d_state s \<in> {En_Route_Destination, Dropoff_Dock_Required, Dropoff_Confirmation_Required}
         \<longrightarrow> remaining s = [] \<and> 0 < cargo_count s)
    \<and> (d_state s = Order_Complete \<longrightarrow> remaining s = [] \<and> remaining_destinations s = [] \<and> cargo_count s = 0)
    \<and> length (audit s) \<le> 32"
  unfolding assms(2) by (intro conjI impI delivery_run_facts [OF assms(1)])

lemma delivery_run_invariant_witness:
  "picked (delivery_run [] demo_workflow) @ remaining (delivery_run [] demo_workflow) = [''BAKERY'', ''CAFE'']
   \<and> cargo_count (delivery_run [] demo_workflow) \<le> 5"
  using delivery_run_invariant [OF demo_workflow_init refl, of "[]"] by (simp add: demo_workflow_def)

text \<open>C17. A call of the workflow returns an advisory, whatever the event and the payload, exactly when
  its time is a uint64: no other exception escapes it. A time before the last one fails the order.\<close>

theorem delivery_transition_returns:
  assumes "delivery_init order = Inr s0" and s: "s = delivery_run calls s0"
  shows "((\<exists>a. fst (transition event at_ns payload s) = Inr a) \<longleftrightarrow> (\<exists>n. at_ns = VInt n \<and> 0 \<le> n \<and> n \<le> MAX_UINT64))
    \<and> (\<forall>n. at_ns = VInt n \<and> 0 \<le> n \<and> n < last_updated_ns s \<longrightarrow> d_state (snd (transition event at_ns payload s)) = Failed)"
proof (intro conjI allI impI)
  have inv: "delivery_inv s"
    unfolding s by (rule delivery_run_inv [OF delivery_init_inv(1) [OF assms(1)]])
  show "(\<exists>a. fst (transition event at_ns payload s) = Inr a) \<longleftrightarrow> (\<exists>n. at_ns = VInt n \<and> 0 \<le> n \<and> n \<le> MAX_UINT64)"
  proof (cases "uint64 at_ns ''now_ns''")
    case (Inr now)
    with transition_settled [OF inv Inr, of event payload] show ?thesis by (auto simp: settled_def uint64_iff)
  next
    case (Inl e)
    then have "uint64 at_ns ''now_ns'' \<noteq> Inr n" for n by simp
    then have "\<not> (\<exists>n. at_ns = VInt n \<and> 0 \<le> n \<and> n \<le> MAX_UINT64)" unfolding uint64_iff by blast
    with Inl show ?thesis by (simp add: transition_def)
  qed
  fix n
  assume "at_ns = VInt n \<and> 0 \<le> n \<and> n < last_updated_ns s"
  with inv show "d_state (snd (transition event at_ns payload s)) = Failed"
    by (simp add: transition_def uint64_def delivery_inv_def Let_def)
qed

lemma delivery_transition_returns_witness:
  "\<exists>a. fst (transition (VInt 3) (VInt 7) None demo_workflow) = Inr a"
  using delivery_transition_returns [OF demo_workflow_init, of demo_workflow "[]" "VInt 3" "VInt 7" None]
  by (simp add: MAX_UINT64_def)

text \<open>C15. Every accepted order can be completed: following its plan at any fixed time, restaurant by
  restaurant and destination by destination, ends in the complete state.\<close>

theorem delivery_can_complete:
  assumes init: "delivery_init order = Inr s" and "0 \<le> n" "n \<le> MAX_UINT64"
  shows "d_state (delivery_run (plan_calls n (remaining s) (length (remaining_destinations s))) s) = Order_Complete"
proof -
  have inv: "delivery_inv s" and st: "d_state s = Order_Ready" and ot: "on_time n s"
    using delivery_init_inv [OF init] assms by (auto simp: on_time_def)
  have r: "remaining s \<noteq> []" using inv st by (auto simp: delivery_inv_def goods_ok_def)
  define t where "t = snd (transition (VStr ''START'') (VInt n) None s)"
  have "delivery_inv t" unfolding t_def by (rule transition_inv [OF inv])
  moreover obtain e v where "t = record_event e n v ((at_time n s)\<lparr>d_state := En_Route_Pickup\<rparr>)"
    using step_start [OF ot st] t_def by auto
  ultimately have t: "delivery_inv t" "on_time n t" "remaining t = remaining s" "d_state t = En_Route_Pickup"
    "remaining_destinations t = remaining_destinations s"
    using assms(2,3) by simp_all
  from pickups_run [OF t(1,2,3)] r t(4,5) obtain u where u:
    "delivery_run (concat (map (pickup_calls n) (remaining s))) t = u" "on_time n u" "delivery_inv u"
    "d_state u = En_Route_Destination" "remaining_destinations u = remaining_destinations s" by auto
  have "remaining_destinations u \<noteq> []" using u(3,4) by (simp add: delivery_inv_def)
  with dropoffs_run [OF u(3,2,5)] u(4,5)
  have "d_state (delivery_run (concat (replicate (length (remaining_destinations s)) (dropoff_calls n))) u) = Order_Complete"
    by simp
  then show ?thesis by (simp add: plan_calls_def u(1) flip: t_def)
qed

lemma delivery_can_complete_witness:
  "d_state (delivery_run (plan_calls 7 [''BAKERY'', ''CAFE''] 1) demo_workflow) = Order_Complete"
  using delivery_can_complete [OF demo_workflow_init, of 7] by (simp add: demo_workflow_def MAX_UINT64_def)

text \<open>A paused order goes on only by the event \<^verbatim>\<open>RESUME\<close> with a payload that says both that the
  evidence is fresh and that the operator has confirmed; any other call leaves it paused or fails it.
  A failed order stays failed.\<close>

lemma pause_ends_by_resume:
  assumes "d_state s = Paused" "t = snd (transition event at_ns payload s)"
  shows "d_state t \<in> {Paused, Failed}
    \<or> (event = VStr ''RESUME'' \<and> d_state t = state_before_pause s
       \<and> (\<exists>data. payload = Some data \<and> py_eq (VDict data) (VDict resume_evidence)))"
  using assms by (cases rule: transition_paused) auto

lemma pause_ends_by_resume_witness:
  "d_state (snd (transition (VStr ''RESUME'') (VInt 7) None (demo_workflow\<lparr>d_state := Paused\<rparr>))) \<in> {Paused, Failed}"
  using pause_ends_by_resume [of "demo_workflow\<lparr>d_state := Paused\<rparr>" _ "VStr ''RESUME''" "VInt 7" None] by simp

text \<open>C16. A restart of the server while an order is paused strands it: the state to go back to becomes
  the pause itself, and no sequence of calls, resumes with evidence included, ever leaves the states
  paused and failed.\<close>

theorem restart_strands_paused_order:
  assumes "d_state s = Paused" "at_ns = VInt n" "last_updated_ns s \<le> n" "0 \<le> n" "n \<le> MAX_UINT64"
  shows "d_state (delivery_run calls (snd (transition (VStr ''RESTART'') at_ns payload s))) \<in> {Paused, Failed}"
proof -
  have stuck: "d_state (delivery_run calls t) \<in> {Paused, Failed}"
    if "d_state t = Failed \<or> (d_state t = Paused \<and> state_before_pause t = Paused)" for t
    using that
  proof (induction calls arbitrary: t)
    case (Cons c calls)
    obtain e a p where c: "c = (e, a, p)" by (cases c)
    have "d_state (snd (transition e a p t)) = Failed
      \<or> (d_state (snd (transition e a p t)) = Paused \<and> state_before_pause (snd (transition e a p t)) = Paused)"
      using Cons.prems transition_failed
      by (elim disjE conjE) (auto elim!: transition_paused [OF _ refl, of t e a p])
    from Cons.IH [OF this] show ?case by (simp add: c)
  qed auto
  show ?thesis
    using assms by (intro stuck) (simp add: transition_def named_transition_def uint64_def)
qed

lemma restart_strands_paused_order_witness:
  "d_state (delivery_run [(VStr ''RESUME'', VInt 8, Some resume_evidence)]
     (snd (transition (VStr ''RESTART'') (VInt 7) None (demo_workflow\<lparr>d_state := Paused\<rparr>)))) \<in> {Paused, Failed}"
  by (rule restart_strands_paused_order [of _ _ 7]) (simp_all add: MAX_UINT64_def demo_workflow_def)

end
