(* ===== verification/Coordinator.thy ===== *)
theory Coordinator
  imports Crosswalk Docking Underpass Delivery
begin

text \<open>
  \<^verbatim>\<open>AdvisoryBehaviorCoordinator\<close> of \<^verbatim>\<open>route_planner/behaviors/coordinator.py\<close>: it owns the three segment
  advisors and, where there is an order, the delivery workflow, and picks the one behavior that
  speaks for the current segment.
\<close>

record coordinator =
  crosswalk_advisor :: crosswalk
  docking_advisor :: docking
  underpass_advisor :: underpass
  delivery_workflow :: "delivery option"
  co_recovery :: int

text \<open>The advisors are built with their default arguments.\<close>

definition coordinator_init :: "delivery option \<Rightarrow> exn + coordinator" where
  "coordinator_init workflow =
     sbind (crosswalk_init (VFloat (Fin (fl (15/100)))) (VFloat (Fin (fl (2/10))))) (\<lambda>c.
     sbind (docking_init (VFloat (Fin (fl (8/10)))) (VFloat (Fin (1/2))) (VFloat (Fin (1/2)))) (\<lambda>d.
       Inr \<lparr>crosswalk_advisor = c, docking_advisor = d, underpass_advisor = underpass_init,
            delivery_workflow = workflow, co_recovery = - 1\<rparr>))"

record coordinator_input =
  route :: "pydict option"
  guidance :: pydict
  observed :: perception
  at_ns :: pyval
  pose_is_fresh :: bool
  revisions_are_current :: bool
  server_restarted :: bool
  external_fault :: "string option"
  is_confirmed :: bool
  robot_clear :: pyval
  is_crossing :: bool
  is_exit_confirmed :: bool
  contact_confirmed :: bool
  feet_count :: pyval

definition coordinator_fault :: "int \<Rightarrow> string \<Rightarrow> exn + advisory" where
  "coordinator_fault now reason =
     make_advisory ''FAULT'' ''FAULT'' ''FAULT'' False False [reason] [] (VInt now)"

definition invalidate_evidence :: "perception \<Rightarrow> coordinator \<Rightarrow> coordinator" where
  "invalidate_evidence p s =
     (case uint64 (p_sequence p) ''perception sequence'' of
        Inl _ \<Rightarrow> s
      | Inr sequence \<Rightarrow> s\<lparr>co_recovery := max (co_recovery s) sequence\<rparr>)"

definition stop_venue :: "pyval \<Rightarrow> pyval \<Rightarrow> string option" where
  "stop_venue target stop =
     (case stop of
        VDict d \<Rightarrow> if py_eq (dget d ''node_id'') target \<and> is_str (dget d ''venue_id'')
                   then Some (str_val (dget d ''venue_id'')) else None
      | _ \<Rightarrow> None)"

fun first_venue :: "pyval \<Rightarrow> pyval list \<Rightarrow> string option" where
  "first_venue target [] = None"
| "first_venue target (stop # stops) =
     (case stop_venue target stop of Some v \<Rightarrow> Some v | None \<Rightarrow> first_venue target stops)"

text \<open>Text and dictionaries can be iterated, and none of their elements is a mapping.\<close>

definition expected_venue_id :: "pydict option \<Rightarrow> pydict \<Rightarrow> exn + string option" where
  "expected_venue_id r segment =
     (case r of
        None \<Rightarrow> Inr None
      | Some d \<Rightarrow> (case dget_or d ''stops'' (VList []) of
            VList stops \<Rightarrow> Inr (first_venue (dget segment ''to_node_id'') stops)
          | VStr _ \<Rightarrow> Inr None
          | VDict _ \<Rightarrow> Inr None
          | _ \<Rightarrow> Inl TypeError))"

definition segment_of :: "pydict \<Rightarrow> pydict option" where
  "segment_of g = (case dget g ''current_segment'' of VDict d \<Rightarrow> Some d | _ \<Rightarrow> None)"

definition guidance_numbers :: "pydict \<Rightarrow> pydict \<Rightarrow> exn + rat \<times> rat \<times> rat" where
  "guidance_numbers g segment =
     sbind (finite_in (dget_or g ''segment_progress'' (VFloat (Fin 0))) ''segment progress'' 0 1) (\<lambda>progress.
     sbind (finite_in (dget_or segment ''distance_m'' (VFloat (Fin 0))) ''segment distance'' 0 1000000) (\<lambda>distance.
     sbind (finite_in (dget_or g ''cross_track_error_m'' (VFloat (Fin 0))) ''cross track error'' 0 1000000) (\<lambda>deviation.
       Inr (progress, distance, deviation))))"

text \<open>The arguments of the three advisors. None of them is told which crosswalk or which zone it is
  at, and the epoch of the operator's confirmation is the underpass advisor's own.\<close>

definition crosswalk_args :: "coordinator_input \<Rightarrow> pydict \<Rightarrow> int \<Rightarrow> rat \<Rightarrow> rat \<Rightarrow> crosswalk_input" where
  "crosswalk_args i segment now distance deviation =
     \<lparr>seg = Some segment, perceived = observed i, now_ns = VInt now, distance_m = VFloat (Fin distance),
      pose_fresh = pose_is_fresh i, revisions_current = revisions_are_current i,
      deviation_m = VFloat (Fin deviation), crossing = is_crossing i, exit_confirmed = is_exit_confirmed i,
      feet_outside = feet_count i, expected_crosswalk = None\<rparr>"

definition docking_args :: "coordinator_input \<Rightarrow> pydict \<Rightarrow> int \<Rightarrow> rat \<Rightarrow> string \<Rightarrow> docking_input" where
  "docking_args i segment now distance venue =
     \<lparr>seg = Some segment, perceived = observed i, now_ns = VInt now, distance_m = VFloat (Fin distance),
      pose_fresh = pose_is_fresh i, revisions_current = revisions_are_current i,
      expected_venue = VStr venue, expected_zone = VNone, dock_contact_confirmed = contact_confirmed i\<rparr>"

definition underpass_args :: "coordinator_input \<Rightarrow> pydict \<Rightarrow> int \<Rightarrow> rat \<Rightarrow> underpass \<Rightarrow> underpass_input" where
  "underpass_args i segment now distance u =
     \<lparr>seg = Some segment, perceived = observed i, now_ns = VInt now, distance_m = VFloat (Fin distance),
      pose_fresh = pose_is_fresh i, revisions_current = revisions_are_current i,
      operator_confirmed = is_confirmed i, service_robot_clear = robot_clear i,
      traversing = is_crossing i, exit_observed = is_exit_confirmed i,
      confirmed_epoch = confirmation_epoch u\<rparr>"

definition normal_requirements :: pydict where
  "normal_requirements = [(''pose_fresh'', VBool True), (''revisions_current'', VBool True)]"

text \<open>A segment without a special behavior: the delivery workflow speaks where it waits for the
  operator or has failed.\<close>

definition plain_guidance :: "coordinator_input \<Rightarrow> pydict \<Rightarrow> int \<Rightarrow> exn + advisory" where
  "plain_guidance i segment now =
     (if p_fresh (observed i) \<noteq> VBool True
      then make_advisory ''NORMAL_GUIDANCE'' ''HOLD'' ''HOLD'' False False [''PERCEPTION_STALE''] normal_requirements (VInt now)
      else make_advisory ''NORMAL_GUIDANCE'' ''READY'' ''PROCEED_RECOMMENDED'' True
             (truthy (dget_or segment ''allow_autonomous'' (VBool True))) [] normal_requirements (VInt now))"

definition normal_guidance :: "coordinator_input \<Rightarrow> pydict \<Rightarrow> int \<Rightarrow> coordinator \<Rightarrow> exn + advisory" where
  "normal_guidance i segment now s =
     (case delivery_workflow s of
        Some w \<Rightarrow>
          if d_state w \<in> {Pickup_Confirmation_Required, Dropoff_Confirmation_Required, Failed}
          then delivery_snapshot (VInt now) w else plain_guidance i segment now
      | None \<Rightarrow> plain_guidance i segment now)"

definition run_advisor :: "('s, advisory) outcome \<Rightarrow> ('s \<Rightarrow> coordinator) \<Rightarrow> (coordinator, advisory) outcome" where
  "run_advisor r store = (fst r, store (snd r))"

definition dispatch_segment :: "libm \<Rightarrow> coordinator_input \<Rightarrow> pydict \<Rightarrow> int \<Rightarrow> rat \<Rightarrow> rat
    \<Rightarrow> coordinator \<Rightarrow> (coordinator, advisory) outcome" where
  "dispatch_segment L i segment now distance deviation s =
     (if dget segment ''type'' = VStr ''DOCKING_APPROACH''
      then obind (lift_exn (expected_venue_id (route i) segment) s) (\<lambda>venue s.
           case venue of
             None \<Rightarrow> (coordinator_fault now ''EXPECTED_VENUE_UNAVAILABLE'', s)
           | Some v \<Rightarrow> run_advisor (docking_evaluate L (docking_args i segment now distance v) (docking_advisor s))
                         (\<lambda>a. s\<lparr>docking_advisor := a\<rparr>))
      else if dget segment ''type'' = VStr ''CROSSWALK''
      then run_advisor (crosswalk_evaluate (crosswalk_args i segment now distance deviation) (crosswalk_advisor s))
             (\<lambda>a. s\<lparr>crosswalk_advisor := a\<rparr>)
      else if dget segment ''type'' = VStr ''UNDERPASS''
      then run_advisor (underpass_evaluate (underpass_args i segment now distance (underpass_advisor s)) (underpass_advisor s))
             (\<lambda>a. s\<lparr>underpass_advisor := a\<rparr>)
      else (normal_guidance i segment now s, s))"

text \<open>What stops an evaluation before any behavior is asked, in the order of the source.\<close>

definition refusal :: "coordinator_input \<Rightarrow> string option" where
  "refusal i =
     (if server_restarted i then Some ''SERVER_RESTART''
      else if external_fault i \<noteq> None \<and> external_fault i \<noteq> Some [] then Some ''EXTERNAL_INPUT_INVALID''
      else if \<not> revisions_are_current i then Some ''REVISION_CHANGED''
      else if \<not> pose_is_fresh i then Some ''POSE_STALE''
      else if segment_of (guidance i) = None then Some ''CURRENT_SEGMENT_UNAVAILABLE''
      else None)"

definition coordinator_evaluate :: "libm \<Rightarrow> coordinator_input \<Rightarrow> coordinator \<Rightarrow> (coordinator, advisory) outcome" where
  "coordinator_evaluate L i s =
     obind (lift_exn (uint64 (at_ns i) ''now_ns'') s) (\<lambda>now s.
     case refusal i of
       Some reason \<Rightarrow> (coordinator_fault now reason, invalidate_evidence (observed i) s)
     | None \<Rightarrow>
     (case uint64 (p_sequence (observed i)) ''perception sequence'' of
        Inl _ \<Rightarrow> (coordinator_fault now ''EXTERNAL_INPUT_INVALID'', invalidate_evidence (observed i) s)
      | Inr sequence \<Rightarrow>
          if sequence \<le> co_recovery s then (coordinator_fault now ''NEW_EVIDENCE_REQUIRED'', s)
          else if dget (guidance i) ''off_route'' = VBool True
          then (make_advisory ''NORMAL_GUIDANCE'' ''HOLD'' ''REPLAN_RECOMMENDED'' False False [''ROUTE_DEVIATION'']
                  normal_requirements (VInt now), s)
          else obind (lift_exn (contract_checked (guidance_numbers (guidance i) (the (segment_of (guidance i))))) s) (\<lambda>numbers s.
               case numbers of
                 None \<Rightarrow> (coordinator_fault now ''EXTERNAL_INPUT_INVALID'', invalidate_evidence (observed i) s)
               | Some (progress, segment_distance, deviation) \<Rightarrow>
                   dispatch_segment L i (the (segment_of (guidance i))) now
                     (fl (segment_distance * fl (1 - progress))) deviation s)))"

subsection \<open>What an evaluation does\<close>

text \<open>\<open>asked L i now distance deviation s r\<close>: the behavior of the current segment answered with
  \<open>r\<close>.\<close>

definition speaks :: "libm \<Rightarrow> coordinator_input \<Rightarrow> pydict \<Rightarrow> coordinator \<Rightarrow> (exn + advisory) \<Rightarrow> coordinator \<Rightarrow> bool" where
  "speaks L i segment s r s' \<longleftrightarrow> (\<exists>now distance deviation.
     (dget segment ''type'' = VStr ''CROSSWALK'' \<and> (\<exists>a'.
        crosswalk_evaluate (crosswalk_args i segment now distance deviation) (crosswalk_advisor s) = (r, a')
        \<and> s' = s\<lparr>crosswalk_advisor := a'\<rparr>))
   \<or> (dget segment ''type'' = VStr ''UNDERPASS'' \<and> (\<exists>a'.
        underpass_evaluate (underpass_args i segment now distance (underpass_advisor s)) (underpass_advisor s) = (r, a')
        \<and> s' = s\<lparr>underpass_advisor := a'\<rparr>))
   \<or> (dget segment ''type'' = VStr ''DOCKING_APPROACH'' \<and> (\<exists>venue a'.
        expected_venue_id (route i) segment = Inr (Some venue)
        \<and> docking_evaluate L (docking_args i segment now distance venue) (docking_advisor s) = (r, a')
        \<and> s' = s\<lparr>docking_advisor := a'\<rparr>))
   \<or> (dget segment ''type'' \<notin> {VStr ''CROSSWALK'', VStr ''UNDERPASS'', VStr ''DOCKING_APPROACH''}
        \<and> normal_guidance i segment now s = r \<and> s' = s))"

lemma coordinator_fault_not_ready: "coordinator_fault now reason = Inr a \<Longrightarrow> \<not> a_manual_ready a \<and> \<not> a_edge_ready a"
  by (auto simp: coordinator_fault_def dest: make_advisory_fields)

lemma make_advisory_ready:
  "make_advisory b st adv m e rs reqs t = Inr a \<Longrightarrow> a_manual_ready a = m \<and> a_edge_ready a = e"
  by (auto dest: make_advisory_fields)

lemma dispatch_ready:
  assumes "dispatch_segment L i segment now distance deviation s = (Inr a, s')" "a_manual_ready a \<or> a_edge_ready a"
  shows "speaks L i segment s (Inr a) s'"
proof -
  consider "dget segment ''type'' = VStr ''DOCKING_APPROACH''" | "dget segment ''type'' = VStr ''CROSSWALK''"
    | "dget segment ''type'' = VStr ''UNDERPASS''"
    | "dget segment ''type'' \<notin> {VStr ''CROSSWALK'', VStr ''UNDERPASS'', VStr ''DOCKING_APPROACH''}" by blast
  then show ?thesis
  proof cases
    case 1
    obtain v where "expected_venue_id (route i) segment = Inr (Some v)"
      using assms 1 coordinator_fault_not_ready
      by (cases "expected_venue_id (route i) segment") (auto simp: dispatch_segment_def split: option.splits)
    with assms(1) 1 show ?thesis
      by (auto simp: dispatch_segment_def speaks_def run_advisor_def prod_eq_iff)
  qed (use assms(1) in \<open>auto simp: dispatch_segment_def speaks_def run_advisor_def prod_eq_iff\<close>)
qed

lemma coordinator_evaluate_ready:
  assumes run: "coordinator_evaluate L i s = (Inr a, s')" and ready: "a_manual_ready a \<or> a_edge_ready a"
  shows "\<exists>n segment. refusal i = None \<and> p_sequence (observed i) = VInt n \<and> co_recovery s < n
    \<and> dget (guidance i) ''off_route'' \<noteq> VBool True \<and> segment_of (guidance i) = Some segment
    \<and> speaks L i segment s (Inr a) s'"
proof -
  obtain now where now: "uint64 (at_ns i) ''now_ns'' = Inr now"
    using run by (cases "uint64 (at_ns i) ''now_ns''") (auto simp: coordinator_evaluate_def)
  have refusal: "refusal i = None"
    using run ready now coordinator_fault_not_ready by (cases "refusal i") (auto simp: coordinator_evaluate_def)
  then obtain segment where segment: "segment_of (guidance i) = Some segment"
    by (auto simp: refusal_def split: if_splits)
  obtain n where n: "uint64 (p_sequence (observed i)) ''perception sequence'' = Inr n"
    using run ready now refusal coordinator_fault_not_ready
    by (cases "uint64 (p_sequence (observed i)) ''perception sequence''") (auto simp: coordinator_evaluate_def)
  have fresh: "co_recovery s < n" "dget (guidance i) ''off_route'' \<noteq> VBool True"
    using run ready now refusal n coordinator_fault_not_ready make_advisory_ready
    by (fastforce simp: coordinator_evaluate_def split: if_splits)+
  with run now refusal n segment obtain numbers where numbers:
    "contract_checked (guidance_numbers (guidance i) segment) = Inr numbers"
    by (cases "contract_checked (guidance_numbers (guidance i) segment)") (auto simp: coordinator_evaluate_def)
  with run ready now refusal n segment fresh obtain p d v where "numbers = Some (p, d, v)"
    by (cases numbers) (auto simp: coordinator_evaluate_def dest: coordinator_fault_not_ready)
  with run now refusal n segment fresh numbers
  have "dispatch_segment L i segment now (fl (d * fl (1 - p))) v s = (Inr a, s')"
    by (simp add: coordinator_evaluate_def)
  from dispatch_ready [OF this ready] refusal n segment fresh show ?thesis by (auto simp: uint64_iff)
qed

end
