(* ===== verification/Coordinator_Claims.thy ===== *)
theory Coordinator_Claims
  imports Coordinator Advisory_Claims Delivery_Claims
begin

text \<open>
  The properties of the coordinator: what the advice it passes on rests on, whichever behavior
  gave it, that doubted evidence is not used again across behaviors, and what becomes of the epoch
  of the operator's confirmation.
\<close>

subsection \<open>Ready advice of one behavior\<close>

lemma crosswalk_fresh: "crosswalk_evaluate i s = (Inr a, s') \<Longrightarrow> a_manual_ready a \<Longrightarrow> p_fresh (perceived i) = VBool True"
  by (auto elim!: crosswalk_evaluate_cases dest: crosswalk_gate_ready)

lemma docking_fresh: "docking_evaluate L i s = (Inr a, s') \<Longrightarrow> a_manual_ready a \<Longrightarrow> p_fresh (perceived i) = VBool True"
  by (auto elim!: docking_evaluate_cases dest: docking_gate_ready)

lemma underpass_fresh: "underpass_evaluate i s = (Inr a, s') \<Longrightarrow> a_manual_ready a \<Longrightarrow> p_fresh (perceived i) = VBool True"
  by (auto elim!: underpass_evaluate_cases dest: underpass_gate_ready)

text \<open>An advisory whose two readiness flags agree.\<close>

definition same_flags :: "('s, advisory) outcome \<Rightarrow> bool" where
  "same_flags r \<longleftrightarrow> (\<forall>a. fst r = Inr a \<longrightarrow> a_edge_ready a = a_manual_ready a)"

lemma same_flags_results [simp]:
  "same_flags (crosswalk_result state advice now reasons reqs ready c)"
  "same_flags (docking_result state advice now reasons reqs ready d)"
  by (auto simp: same_flags_def crosswalk_result_def docking_result_def dest: make_advisory_ready)

lemma same_flags_if [simp]: "same_flags (if c then x else y) \<longleftrightarrow> (c \<longrightarrow> same_flags x) \<and> (\<not> c \<longrightarrow> same_flags y)"
  by simp

lemma same_flags_obind: "(\<And>x s. same_flags (f x s)) \<Longrightarrow> same_flags (obind r f)"
  by (auto simp: same_flags_def obind_def split: prod.splits sum.splits)

lemma crosswalk_same_flags: "same_flags (crosswalk_evaluate i s)"
proof -
  have decide: "same_flags (crosswalk_decide i now n d far r s)" for now n d far r s
    by (simp add: crosswalk_decide_def Let_def)
  have observe: "same_flags (crosswalk_observe i now n d far s)" for now n d far s
    unfolding crosswalk_observe_def by (rule same_flags_obind) (simp add: decide)
  have "same_flags (crosswalk_gate i now n d far s)" for now n d far s
    by (simp add: crosswalk_gate_def Let_def observe)
  then show ?thesis
    unfolding crosswalk_evaluate_def
    by (auto intro!: same_flags_obind split: option.split)
qed

lemma docking_same_flags: "same_flags (docking_evaluate L i s)"
proof -
  have track: "same_flags (docking_track L i now n venue zone d ob s)" for now n venue zone d ob s
    unfolding docking_track_def Let_def
    by (intro same_flags_obind) (auto split: option.split)
  have observe: "same_flags (docking_observe L i now n venue zone d s)" for now n venue zone d s
    unfolding docking_observe_def Let_def
    by (auto simp: track intro!: same_flags_obind split: list.split)
  have "same_flags (docking_gate L i now n venue zone d s)" for now n venue zone d s
    by (simp add: docking_gate_def Let_def observe)
  then show ?thesis
    unfolding docking_evaluate_def
    by (auto intro!: same_flags_obind split: option.split)
qed

lemma speaks_ready:
  assumes "speaks L i segment s (Inr a) s'"
  shows "a_edge_ready a \<Longrightarrow> a_manual_ready a" "a_edge_ready a \<Longrightarrow> dget segment ''type'' \<noteq> VStr ''UNDERPASS''"
    "a_manual_ready a \<Longrightarrow> p_fresh (observed i) = VBool True"
proof -
  have plain: "a_edge_ready a \<longrightarrow> a_manual_ready a" "a_manual_ready a \<longrightarrow> p_fresh (observed i) = VBool True"
    if "normal_guidance i segment now s = Inr a" for now
    using that
    by (auto simp: normal_guidance_def plain_guidance_def delivery_snapshot_def sbind_Inr_iff
        dest: make_advisory_ready split: option.splits if_splits)
  have flags: "a_edge_ready a = a_manual_ready a" if "same_flags r" "r = (Inr a, x)" for r :: "('x, advisory) outcome" and x
    using that by (simp add: same_flags_def)
  show "a_edge_ready a \<Longrightarrow> a_manual_ready a"
    using assms flags [OF crosswalk_same_flags] flags [OF docking_same_flags] plain(1) underpass_evaluate_edge
    unfolding speaks_def by metis
  show "a_edge_ready a \<Longrightarrow> dget segment ''type'' \<noteq> VStr ''UNDERPASS''"
    using assms underpass_evaluate_edge unfolding speaks_def by auto
  show "a_manual_ready a \<Longrightarrow> p_fresh (observed i) = VBool True"
    using assms plain(2) unfolding speaks_def
    by (auto dest!: crosswalk_fresh docking_fresh underpass_fresh
        simp: crosswalk_args_def docking_args_def underpass_args_def)
qed

subsection \<open>The gate of the coordinator\<close>

definition coordinator_number :: "coordinator_input \<Rightarrow> int" where
  "coordinator_number i = int_val (p_sequence (observed i))"

definition coordinator_doubtful :: "coordinator \<Rightarrow> coordinator_input \<Rightarrow> bool" where
  "coordinator_doubtful s i \<longleftrightarrow> refusal i \<noteq> None
     \<and> (\<exists>n. uint64 (p_sequence (observed i)) ''perception sequence'' = Inr n)
     \<and> (\<exists>t. uint64 (at_ns i) ''now_ns'' = Inr t)"

definition coordinator_step :: "libm \<Rightarrow> coordinator \<Rightarrow> coordinator_input \<Rightarrow> coordinator \<times> advisory option" where
  "coordinator_step L s i = result_option (coordinator_evaluate L i s)"

lemma invalidate_recovery:
  "co_recovery s \<le> co_recovery (invalidate_evidence p s)"
  "uint64 (p_sequence p) ''perception sequence'' = Inr n \<Longrightarrow> n \<le> co_recovery (invalidate_evidence p s)"
  by (auto simp: invalidate_evidence_def split: sum.split)

lemma dispatch_recovery [simp]: "co_recovery (snd (dispatch_segment L i segment now distance deviation s)) = co_recovery s"
  by (auto simp: dispatch_segment_def run_advisor_def obind_def split: sum.split option.split)

interpretation coordinator: evidence_gate "coordinator_step L" co_recovery co_recovery coordinator_number
  "\<lambda>a. a_manual_ready a \<or> a_edge_ready a" coordinator_doubtful
proof unfold_locales
  fix s i a
  have st: "fst (coordinator_step L s i) = snd (coordinator_evaluate L i s)"
    "snd (coordinator_step L s i) = Some a \<longleftrightarrow> fst (coordinator_evaluate L i s) = Inr a" for a
    by (simp_all add: coordinator_step_def fst_result_option snd_result_option)
  show mono: "co_recovery s \<le> co_recovery (fst (coordinator_step L s i))"
    unfolding st coordinator_evaluate_def obind_def lift_exn_def Let_def
    using invalidate_recovery(1) [of s "observed i"] by (auto split: sum.split option.split)
  show "co_recovery s \<le> coordinator_number i \<and> co_recovery s < coordinator_number i"
    if "snd (coordinator_step L s i) = Some a" "a_manual_ready a \<or> a_edge_ready a"
  proof -
    from that(1) have "coordinator_evaluate L i s = (Inr a, snd (coordinator_evaluate L i s))"
      unfolding st by (metis prod.collapse)
    from coordinator_evaluate_ready [OF this that(2)] show ?thesis
      by (auto simp: coordinator_number_def)
  qed
  show "co_recovery s \<le> co_recovery (fst (coordinator_step L s i))
      \<and> coordinator_number i \<le> co_recovery (fst (coordinator_step L s i))"
    if d: "coordinator_doubtful s i"
  proof -
    from d obtain n t where nt: "uint64 (p_sequence (observed i)) ''perception sequence'' = Inr n"
      "uint64 (at_ns i) ''now_ns'' = Inr t" "refusal i \<noteq> None"
      by (auto simp: coordinator_doubtful_def)
    then have "snd (coordinator_evaluate L i s) = invalidate_evidence (observed i) s"
      by (auto simp: coordinator_evaluate_def)
    with nt mono invalidate_recovery(2) [OF nt(1)] show ?thesis
      by (auto simp: st coordinator_number_def uint64_iff)
  qed
qed

subsection \<open>The epoch\<close>

definition with_epoch :: "int \<Rightarrow> coordinator \<Rightarrow> coordinator" where
  "with_epoch e s = s\<lparr>underpass_advisor := (underpass_advisor s)\<lparr>confirmation_epoch := e\<rparr>\<rparr>"

lemma underpass_observe_epoch:
  assumes "confirmation_epoch u = e" "confirmation_epoch v = f"
  shows "fst (underpass_observe (i\<lparr>confirmed_epoch := e\<rparr>) now d u) = fst (underpass_observe (i\<lparr>confirmed_epoch := f\<rparr>) now d v)"
  using assms by (simp add: underpass_observe_def underpass_result_def confirmed_now_def Let_def)

lemma underpass_epoch_blind:
  "fst (underpass_evaluate (i\<lparr>confirmed_epoch := e\<rparr>) (u\<lparr>confirmation_epoch := e\<rparr>))
   = fst (underpass_evaluate (i\<lparr>confirmed_epoch := f\<rparr>) (u\<lparr>confirmation_epoch := f\<rparr>))"
proof -
  have gate: "fst (underpass_gate (i\<lparr>confirmed_epoch := e\<rparr>) now n d (u\<lparr>confirmation_epoch := e\<rparr>))
      = fst (underpass_gate (i\<lparr>confirmed_epoch := f\<rparr>) now n d (u\<lparr>confirmation_epoch := f\<rparr>))" for now n d
    by (simp add: underpass_gate_def Let_def underpass_result_def invalidate_confirmation_def underpass_observe_epoch [of _ e _ f])
  show ?thesis
    by (simp add: underpass_evaluate_def underpass_inputs_def gate underpass_result_def obind_def lift_exn_def
        split: sum.split option.split)
qed

lemma coordinator_epoch_blind:
  "fst (coordinator_evaluate L i (with_epoch e s)) = fst (coordinator_evaluate L i s)"
proof -
  have args: "underpass_args i segment now distance u
      = (underpass_args i segment now distance u)\<lparr>confirmed_epoch := confirmation_epoch u\<rparr>" for segment now distance u
    by (simp add: underpass_args_def)
  have "fst (underpass_evaluate (underpass_args i segment now distance (u\<lparr>confirmation_epoch := e\<rparr>)) (u\<lparr>confirmation_epoch := e\<rparr>))
      = fst (underpass_evaluate (underpass_args i segment now distance u) u)" for segment now distance u
    using underpass_epoch_blind [of e "underpass_args i segment now distance u" u "confirmation_epoch u"]
    by (simp add: underpass_args_def)
  then have "fst (dispatch_segment L i segment now distance deviation (with_epoch e s))
      = fst (dispatch_segment L i segment now distance deviation s)" for segment now distance deviation
    by (auto simp: dispatch_segment_def with_epoch_def run_advisor_def normal_guidance_def obind_def lift_exn_def
        split: sum.split option.split)
  then show ?thesis
    by (auto simp: coordinator_evaluate_def with_epoch_def obind_def lift_exn_def split: sum.split option.split)
qed

subsection \<open>The properties\<close>

definition demo_course :: "string \<Rightarrow> bool \<Rightarrow> int \<Rightarrow> coordinator_input" where
  "demo_course kind posed n =
     \<lparr>route = None,
      guidance = [(''current_segment'', VDict [(''type'', VStr kind), (''distance_m'', VFloat (Fin (1/2)))])],
      observed = demo_perception n, at_ns = VInt 1000, pose_is_fresh = posed, revisions_are_current = True,
      server_restarted = False, external_fault = None, is_confirmed = True, robot_clear = VBool True,
      is_crossing = False, is_exit_confirmed = False, contact_confirmed = False, feet_count = VNone\<rparr>"

definition demo_coordinator :: coordinator where
  "demo_coordinator = \<lparr>crosswalk_advisor = demo_crosswalk, docking_advisor = demo_dock,
     underpass_advisor = underpass_init, delivery_workflow = None, co_recovery = - 1\<rparr>"

lemmas coordinator_run = coordinator_evaluate_def refusal_def segment_of_def guidance_numbers_def
  dispatch_segment_def run_advisor_def crosswalk_args_def docking_args_def underpass_args_def
  demo_course_def demo_coordinator_def

lemma demo_course_ready:
  "\<exists>a. fst (coordinator_evaluate L (demo_course ''UNDERPASS'' True n) demo_coordinator) = Inr a \<and> a_manual_ready a"
  if "0 \<le> n" "n < 100"
  using that by (simp add: coordinator_run underpass_run demo_defs advisory_defs)



text \<open>An evaluation the coordinator refuses (restart, external fault, changed revision, stale pose,
  no segment) taints its evidence for every behavior: whatever evaluations follow, on whatever
  segments, ready advice needs evidence with a newer sequence.\<close>

theorem coordinator_doubt_needs_newer:
  assumes "coordinator_doubtful s i"
    and "fst (coordinator_evaluate L j (settle (coordinator_step L) is (snd (coordinator_evaluate L i s)))) = Inr a"
    and "a_manual_ready a \<or> a_edge_ready a"
  shows "coordinator_number i < coordinator_number j \<and> co_recovery s < coordinator_number j"
  using coordinator.ready_after_doubt [OF assms(1), of L "is" j a] assms(2,3)
  by (simp add: coordinator_step_def fst_result_option snd_result_option)

lemma coordinator_doubt_needs_newer_witness:
  "coordinator_number (demo_course ''UNDERPASS'' False 5) < coordinator_number (demo_course ''UNDERPASS'' True 6)"
proof -
  have d: "coordinator_doubtful demo_coordinator (demo_course ''UNDERPASS'' False 5)"
    by (simp add: coordinator_doubtful_def coordinator_run demo_defs)
  obtain a where a: "fst (coordinator_evaluate zero_libm (demo_course ''UNDERPASS'' True 6)
      (settle (coordinator_step zero_libm) [] (snd (coordinator_evaluate zero_libm (demo_course ''UNDERPASS'' False 5) demo_coordinator)))) = Inr a"
    "a_manual_ready a"
    by (simp add: settle_def invalidate_evidence_def coordinator_fault_def coordinator_run underpass_run demo_defs advisory_defs)
  from coordinator_doubt_needs_newer [OF d a(1)] a(2) show ?thesis by simp
qed

text \<open>C20. Through the coordinator the epoch of confirmations has no effect: it hands the underpass
  advisor the advisor's own epoch, so that for every epoch the advisor may have reached, however often
  doubt ended it, the advice is the same.\<close>

theorem coordinator_ignores_epoch:
  "fst (coordinator_evaluate L i (with_epoch e s)) = fst (coordinator_evaluate L i s)"
  by (rule coordinator_epoch_blind)

end
