(* ===== verification/Orders.thy ===== *)
theory Orders
  imports Delivery
begin

text \<open>
  \<^verbatim>\<open>route_planner/orders.py\<close> over the fixed catalog of \<^verbatim>\<open>route_planner/catalog.py\<close>: the validation of an
  order sheet. Two results of library code are parameters: \<open>clock_text\<close>, what \<^verbatim>\<open>datetime.fromisoformat\<close>
  and \<^verbatim>\<open>isoformat\<close> make of a text, and \<open>digest\<close>, the SHA-256 of the order's canonical JSON. Texts are of
  the first 256 code points, on which Unicode normalization to NFC is the identity.
\<close>

subsection \<open>The catalog\<close>

definition DESTINATIONS :: "(string \<times> string) list" where
  "DESTINATIONS = [(''COEX'', ''ZONE_1''), (''WHIMOON'', ''ZONE_2''), (''GANGNAM_POLICE'', ''ZONE_3''), (''GTX_SITE'', ''ZONE_4'')]"

definition RESTAURANTS :: "(string \<times> string \<times> string list) list" where
  "RESTAURANTS = [(''DOMINO'', ''ZONE_1'', [''SUPER_SUPREME'', ''CHEESE_PIZZA'']),
     (''HANSOT'', ''ZONE_2'', [''SPAM_KIMCHI'', ''CHICKEN_MAYO'']),
     (''EDIYA'', ''ZONE_3'', [''AMERICANO'', ''CAFE_LATTE''])]"

definition SECONDS_PER_ITEM :: int where "SECONDS_PER_ITEM = 20"
definition CAPACITY :: int where "CAPACITY = 5"
definition MINIMUM_ITEMS :: int where "MINIMUM_ITEMS = 3"
definition MINIMUM_RESTAURANTS :: int where "MINIMUM_RESTAURANTS = 2"
text \<open>The SHA-256 of the catalog's JSON.\<close>

definition CATALOG_REVISION :: string where
  "CATALOG_REVISION = ''aad7cd1a69947b84318eb962fafd49c08f6e37a232d494ffe520a2f2dcbd138a''"

definition MAX_LINES :: nat where "MAX_LINES = 5"
definition MAX_ORDERS :: nat where "MAX_ORDERS = 8"

subsection \<open>Text fields\<close>

definition is_control :: "char \<Rightarrow> bool" where
  \<comment> \<open>a Unicode category that starts with C, among the first 256 code points\<close>
  "is_control c \<longleftrightarrow> ord c < 32 \<or> 127 \<le> ord c \<and> ord c < 160 \<or> ord c = 173"

definition order_label :: "pyval \<Rightarrow> exn + string" where
  "order_label value =
     (if \<not> is_str value then Inl (OrderValidationError ''order label must be text'')
      else let normalized = strip (str_val value)
           in if normalized = [] \<or> 64 < length normalized
              then Inl (OrderValidationError ''order label must contain 1 to 64 characters'')
              else if list_ex is_control normalized
              then Inl (OrderValidationError ''order label contains unsupported characters'')
              else Inr normalized)"

text \<open>What the library makes of a time text: no time, a time without a timezone, or the text of one with.\<close>

datatype clock_reading = Malformed | Without_Zone | With_Zone string

fun replace_all :: "string \<Rightarrow> string \<Rightarrow> string \<Rightarrow> string" where
  "replace_all old new [] = []"
| "replace_all old new (c # cs) =
     (if old \<noteq> [] \<and> starts_with old (c # cs)
      then new @ replace_all old new (drop (length old - 1) cs)
      else c # replace_all old new cs)"

definition timestamp :: "(string \<Rightarrow> clock_reading) \<Rightarrow> pyval \<Rightarrow> exn + string option" where
  "timestamp clock_text value =
     (if \<not> hashable value then Inl TypeError
      else if value = VNone \<or> value = VStr [] then Inr None
      else if \<not> is_str value \<or> 32 < length (str_val value)
      then Inl (OrderValidationError ''order_started_at is invalid'')
      else case clock_text (replace_all ''Z'' ''+00:00'' (str_val value)) of
             Malformed \<Rightarrow> Inl (OrderValidationError ''order_started_at is invalid'')
           | Without_Zone \<Rightarrow> Inl (OrderValidationError ''order_started_at must include a timezone'')
           | With_Zone t \<Rightarrow> Inr (Some (replace_all ''+00:00'' ''Z'' t)))"

definition difficulty :: "nat \<Rightarrow> int \<Rightarrow> string" where
  "difficulty restaurants items =
     (if restaurants = 2 \<and> items = 3 then ''LOW'' else if restaurants = 2 \<and> items = 4 then ''MEDIUM''
      else if restaurants = 3 \<and> items = 5 then ''HIGH'' else ''CUSTOM'')"

definition batch_difficulty :: "nat \<Rightarrow> string" where
  "batch_difficulty orders = (if orders \<le> 2 then ''LOW'' else if orders \<le> 4 then ''MEDIUM'' else ''HIGH'')"

subsection \<open>Lines\<close>

record order_line =
  ol_sequence :: int
  ol_destination :: string
  ol_restaurant :: string
  ol_menu :: string
  ol_quantity :: int
  ol_ready_at :: int
  ol_origin :: "(int \<times> int) option"  \<comment> \<open>the order sheet and the menu line, of a grouped order\<close>

definition member_of :: "pyval \<Rightarrow> string list \<Rightarrow> string \<Rightarrow> exn + string" where
  \<comment> \<open>\<^verbatim>\<open>if value not in names: raise\<close>\<close>
  "member_of value names message =
     sbind (in_str_set value names) (\<lambda>b. if b then Inr (str_val value) else Inl (OrderValidationError message))"

text \<open>The body of the loop over the lines; \<open>seen\<close> holds the sequences so far. The time the line is
  ready is filled in afterwards.\<close>

definition normalize_line :: "bool \<Rightarrow> pyval \<Rightarrow> int list \<Rightarrow> pyval \<Rightarrow> exn + order_line" where
  "normalize_line multi legacy seen line =
     (case line of
        VDict d \<Rightarrow>
          sbind (guard (keys_are d ([''sequence'', ''restaurant_id'', ''menu_id'', ''quantity'']
                                    @ (if multi then [''destination_id''] else [])))
                   (OrderValidationError ''order line schema is invalid'')) (\<lambda>_.
          sbind (guard (plain_within (dget d ''sequence'') 1 (int MAX_LINES))
                   (OrderValidationError ''order line sequence is invalid'')) (\<lambda>_.
          sbind (guard (int_val (dget d ''sequence'') \<notin> set seen)
                   (OrderValidationError ''order line sequences must be unique'')) (\<lambda>_.
          sbind (guard (plain_within (dget d ''quantity'') 1 5)
                   (OrderValidationError ''order line quantity must be a positive integer'')) (\<lambda>_.
          sbind (member_of (if multi then dget d ''destination_id'' else legacy) (map fst DESTINATIONS)
                   ''destination is not registered'') (\<lambda>destination.
          sbind (member_of (dget d ''restaurant_id'') (map fst RESTAURANTS) ''restaurant is not registered'') (\<lambda>restaurant.
          case map_of RESTAURANTS restaurant of
            None \<Rightarrow> Inl (OrderValidationError ''restaurant is not registered'')
          | Some (zone, menus) \<Rightarrow>
              sbind (guard (map_of DESTINATIONS destination \<noteq> Some zone)
                       (OrderValidationError ''destination-zone restaurant is excluded'')) (\<lambda>_.
              sbind (member_of (dget d ''menu_id'') menus ''menu does not belong to restaurant'') (\<lambda>menu.
                Inr \<lparr>ol_sequence = int_val (dget d ''sequence''), ol_destination = destination,
                     ol_restaurant = restaurant, ol_menu = menu,
                     ol_quantity = int_val (dget d ''quantity''), ol_ready_at = 0, ol_origin = None\<rparr>))))))))
      | _ \<Rightarrow> Inl (OrderValidationError ''order line schema is invalid''))"

fun normalize_lines :: "bool \<Rightarrow> pyval \<Rightarrow> int list \<Rightarrow> pyval list \<Rightarrow> exn + order_line list" where
  "normalize_lines multi legacy seen [] = Inr []"
| "normalize_lines multi legacy seen (line # lines) =
     sbind (normalize_line multi legacy seen line) (\<lambda>l.
     sbind (normalize_lines multi legacy (ol_sequence l # seen) lines) (\<lambda>ls. Inr (l # ls)))"

text \<open>Each restaurant prepares its items one after the other.\<close>

fun schedule :: "(string \<times> int) list \<Rightarrow> order_line list \<Rightarrow> order_line list" where
  "schedule made [] = []"
| "schedule made (l # ls) =
     (let made = add_quantity (ol_restaurant l) (ol_quantity l) made
      in l\<lparr>ol_ready_at := (case map_of made (ol_restaurant l) of None \<Rightarrow> 0 | Some q \<Rightarrow> q) * SECONDS_PER_ITEM\<rparr>
         # schedule made ls)"

definition total_quantity :: "order_line list \<Rightarrow> int" where
  "total_quantity ls = sum_list (map ol_quantity ls)"

definition restaurants_of :: "order_line list \<Rightarrow> string list" where
  "restaurants_of ls = remdups (map ol_restaurant ls)"

subsection \<open>Orders\<close>

datatype order_mode = Multi_Destination | Legacy_Single_Destination | Grouped_Sheets

record order =
  or_id :: string
  or_label :: string
  or_destination :: "string option"
  or_destinations :: "string list"
  or_lines :: "order_line list"
  or_count :: nat
  or_mode :: order_mode
  or_total :: int
  or_restaurants :: nat
  or_difficulty :: string
  or_started_at :: "string option"
  or_sheets :: "(pyval \<times> pydict list) list option"
  or_locked :: bool
  or_revision :: string

definition mode_name :: "order_mode \<Rightarrow> string" where
  "mode_name m = (case m of Multi_Destination \<Rightarrow> ''MULTI_DESTINATION''
     | Legacy_Single_Destination \<Rightarrow> ''LEGACY_SINGLE_DESTINATION'' | Grouped_Sheets \<Rightarrow> ''GROUPED_SHEETS'')"

text \<open>The dictionaries a line and an order are in the source, and the part of it the revision covers.\<close>

definition line_value :: "order_line \<Rightarrow> pydict" where
  "line_value l =
     [(''sequence'', VInt (ol_sequence l)), (''destination_id'', VStr (ol_destination l)),
      (''restaurant_id'', VStr (ol_restaurant l)), (''menu_id'', VStr (ol_menu l)),
      (''quantity'', VInt (ol_quantity l)), (''ready_at_s'', VInt (ol_ready_at l))]
     @ (case ol_origin l of None \<Rightarrow> []
        | Some (sheet, menu) \<Rightarrow> [(''order_sequence'', VInt sheet), (''menu_sequence'', VInt menu)])"

definition sheets_value :: "order \<Rightarrow> pydict" where
  "sheets_value z = (case or_sheets z of None \<Rightarrow> []
     | Some gs \<Rightarrow> [(''orders'', VList (map (\<lambda>(destination, items).
         VDict [(''destination_id'', destination), (''lines'', VList (map VDict items))]) gs))])"

definition canonical :: "order \<Rightarrow> pydict" where
  "canonical z = sheets_value z @
     [(''schema_version'', VInt 2), (''id'', VStr (or_id z)), (''label'', VStr (or_label z)),
      (''destination_id'', opt_str (or_destination z)), (''destination_ids'', VList (map VStr (or_destinations z))),
      (''lines'', VList (map (VDict \<circ> line_value) (or_lines z))), (''order_count'', VInt (int (or_count z))),
      (''order_mode'', VStr (mode_name (or_mode z))), (''total_quantity'', VInt (or_total z)),
      (''difficulty'', VStr (or_difficulty z)), (''order_started_at'', opt_str (or_started_at z)),
      (''locked'', VBool (or_locked z)), (''catalog_revision'', VStr CATALOG_REVISION)]"

definition order_value :: "order \<Rightarrow> pydict" where
  "order_value z =
     [(''schema_version'', VInt 2), (''id'', VStr (or_id z)), (''label'', VStr (or_label z)),
      (''destination_id'', opt_str (or_destination z)), (''destination_ids'', VList (map VStr (or_destinations z))),
      (''lines'', VList (map (VDict \<circ> line_value) (or_lines z))), (''order_count'', VInt (int (or_count z))),
      (''order_mode'', VStr (mode_name (or_mode z))), (''total_quantity'', VInt (or_total z)),
      (''restaurant_count'', VInt (int (or_restaurants z))), (''difficulty'', VStr (or_difficulty z)),
      (''order_started_at'', opt_str (or_started_at z)), (''locked'', VBool (or_locked z)),
      (''catalog_revision'', VStr CATALOG_REVISION), (''revision'', VStr (or_revision z))] @ sheets_value z"

definition has_destination :: "pyval \<Rightarrow> bool" where
  "has_destination line = (case line of VDict d \<Rightarrow> has_key d ''destination_id'' | _ \<Rightarrow> False)"

text \<open>The mode of the order; without a destination per line the legacy one must be registered.\<close>

definition order_mode_of :: "pyval list \<Rightarrow> pyval \<Rightarrow> exn + bool" where
  "order_mode_of lines legacy =
     (if list_ex has_destination lines
      then if \<not> list_all has_destination lines \<or> legacy \<noteq> VNone
           then Inl (OrderValidationError ''use either one legacy destination or one destination per order sheet'')
           else Inr True
      else sbind (member_of legacy (map fst DESTINATIONS) ''destination is not registered'') (\<lambda>_. Inr False))"

definition order_shape :: "bool \<Rightarrow> bool \<Rightarrow> order_line list \<Rightarrow> exn + string" where
  "order_shape multi allow_custom ls =
     (if \<not> multi
      then sbind (guard (MINIMUM_RESTAURANTS \<le> int (length (restaurants_of ls)))
                    (OrderValidationError ''order must include at least two restaurants'')) (\<lambda>_.
           sbind (guard (MINIMUM_ITEMS \<le> total_quantity ls \<and> total_quantity ls \<le> CAPACITY)
                    (OrderValidationError ''total quantity must be between 3 and 5'')) (\<lambda>_.
           let d = difficulty (length (restaurants_of ls)) (total_quantity ls)
           in if d = ''CUSTOM'' \<and> \<not> allow_custom
              then Inl (OrderValidationError ''order does not match a competition difficulty shape'')
              else Inr d))
      else sbind (guard (total_quantity ls \<le> CAPACITY)
                    (OrderValidationError ''total quantity must be between 1 and 5'')) (\<lambda>_.
           Inr (batch_difficulty (length ls))))"

definition sole :: "'a list \<Rightarrow> 'a option" where
  "sole xs = (case xs of [x] \<Rightarrow> Some x | _ \<Rightarrow> None)"

text \<open>\<^verbatim>\<open>normalize_order\<close> for a payload without order sheets.\<close>

definition normalize_single :: "(string \<Rightarrow> clock_reading) \<Rightarrow> (pydict \<Rightarrow> string) \<Rightarrow> string \<Rightarrow> bool \<Rightarrow> pydict \<Rightarrow> exn + order" where
  "normalize_single clock_text digest identifier allow_custom payload =
     sbind (guard (keys_within payload [''label'', ''destination_id'', ''lines'', ''order_started_at'', ''locked''])
              (OrderValidationError ''order contains unsupported or derived fields'')) (\<lambda>_.
     sbind (guard (is_hex_n 32 identifier) (OrderValidationError ''order id is invalid'')) (\<lambda>_.
     case dget payload ''lines'' of
       VList lines \<Rightarrow>
         sbind (guard (1 \<le> length lines \<and> length lines \<le> MAX_LINES)
                  (OrderValidationError ''order batch must contain 1 to 5 order sheets'')) (\<lambda>_.
         sbind (order_mode_of lines (dget payload ''destination_id'')) (\<lambda>multi.
         sbind (normalize_lines multi (dget payload ''destination_id'') [] lines) (\<lambda>normalized.
         let sorted = sort_key ol_sequence normalized; ls = schedule [] sorted;
             destinations = from_keys (map ol_destination ls)
         in sbind (guard (map ol_sequence sorted = [1..int (length sorted)])
                     (OrderValidationError ''order line sequences must be continuous from 1'')) (\<lambda>_.
            sbind (order_shape multi allow_custom ls) (\<lambda>shape.
            sbind (guard (is_bool (dget_or payload ''locked'' (VBool False)))
                     (OrderValidationError ''locked must be boolean'')) (\<lambda>_.
            sbind (order_label (dget_or payload ''label'' (VStr ''Competition order''))) (\<lambda>label.
            sbind (timestamp clock_text (dget payload ''order_started_at'')) (\<lambda>started.
            let value = \<lparr>or_id = identifier, or_label = label, or_destination = sole destinations,
                         or_destinations = destinations, or_lines = ls, or_count = length ls,
                         or_mode = (if multi then Multi_Destination else Legacy_Single_Destination),
                         or_total = total_quantity ls, or_restaurants = length (restaurants_of ls),
                         or_difficulty = shape, or_started_at = started, or_sheets = None,
                         or_locked = (dget_or payload ''locked'' (VBool False) = VBool True), or_revision = []\<rparr>
            in Inr (value\<lparr>or_revision := digest (canonical value)\<rparr>))))))))) 
     | _ \<Rightarrow> Inl (OrderValidationError ''order batch must contain 1 to 5 order sheets'')))"

subsection \<open>Order sheets\<close>

text \<open>One menu line of a sheet, validated as an order of its own, and the lines of a sheet.\<close>

definition normalize_item :: "(string \<Rightarrow> clock_reading) \<Rightarrow> (pydict \<Rightarrow> string) \<Rightarrow> string \<Rightarrow> pydict \<Rightarrow> pyval \<Rightarrow> int \<Rightarrow> pyval
    \<Rightarrow> exn + order" where
  "normalize_item clock_text digest identifier payload destination index item =
     (case item of
        VDict d \<Rightarrow>
          sbind (guard (keys_are d [''sequence'', ''restaurant_id'', ''menu_id'', ''quantity''])
                   (OrderValidationError ''menu line schema is invalid'')) (\<lambda>_.
          sbind (guard (dget d ''sequence'' = VInt index)
                   (OrderValidationError ''menu sequences must be continuous integers'')) (\<lambda>_.
            normalize_single clock_text digest identifier False
              [(''label'', dget_or payload ''label'' (VStr ''Competition orders'')),
               (''locked'', dget_or payload ''locked'' (VBool False)),
               (''order_started_at'', dget payload ''order_started_at''),
               (''lines'', VList [VDict (dput ''destination_id'' destination (dput ''sequence'' (VInt 1) d))])]))
      | _ \<Rightarrow> Inl (OrderValidationError ''menu line schema is invalid''))"

fun normalize_items :: "(string \<Rightarrow> clock_reading) \<Rightarrow> (pydict \<Rightarrow> string) \<Rightarrow> string \<Rightarrow> pydict \<Rightarrow> pyval \<Rightarrow> int \<Rightarrow> pyval list
    \<Rightarrow> exn + order list" where
  "normalize_items clock_text digest identifier payload destination index [] = Inr []"
| "normalize_items clock_text digest identifier payload destination index (item # items) =
     sbind (normalize_item clock_text digest identifier payload destination index item) (\<lambda>v.
     sbind (normalize_items clock_text digest identifier payload destination (index + 1) items) (\<lambda>vs. Inr (v # vs)))"

text \<open>A sheet gives its destination, its lines as they came, and the orders made of them.\<close>

definition normalize_sheet :: "(string \<Rightarrow> clock_reading) \<Rightarrow> (pydict \<Rightarrow> string) \<Rightarrow> string \<Rightarrow> pydict \<Rightarrow> pyval
    \<Rightarrow> exn + pyval \<times> pyval list \<times> order list" where
  "normalize_sheet clock_text digest identifier payload sheet =
     (case sheet of
        VDict d \<Rightarrow>
          sbind (guard (keys_are d [''destination_id'', ''lines''])
                   (OrderValidationError ''order sheet schema is invalid'')) (\<lambda>_.
          case dget d ''lines'' of
            VList items \<Rightarrow>
              sbind (guard (1 \<le> length items \<and> length items \<le> MAX_LINES)
                       (OrderValidationError ''each order sheet must contain 1 to 5 menu lines'')) (\<lambda>_.
              sbind (normalize_items clock_text digest identifier payload (dget d ''destination_id'') 1 items) (\<lambda>vs.
                Inr (dget d ''destination_id'', items, vs)))
          | _ \<Rightarrow> Inl (OrderValidationError ''each order sheet must contain 1 to 5 menu lines''))
      | _ \<Rightarrow> Inl (OrderValidationError ''order sheet schema is invalid''))"

text \<open>The lines of all sheets, numbered through, with the sheet and the line they came from.\<close>

fun flatten_sheets :: "int \<Rightarrow> int \<Rightarrow> (pyval \<times> pyval list \<times> order list) list \<Rightarrow> order_line list" where
  "flatten_sheets n number [] = []"
| "flatten_sheets n number ((destination, items, vs) # sheets) =
     map (\<lambda>(k, v). (hd (or_lines v))\<lparr>ol_sequence := n + k, ol_origin := Some (number, k)\<rparr>) (zip [1..int (length vs)] vs)
     @ flatten_sheets (n + int (length vs)) (number + 1) sheets"

definition dict_of :: "pyval \<Rightarrow> pydict" where
  "dict_of v = (case v of VDict d \<Rightarrow> d | _ \<Rightarrow> [])"

definition normalize_sheets :: "(string \<Rightarrow> clock_reading) \<Rightarrow> (pydict \<Rightarrow> string) \<Rightarrow> string \<Rightarrow> pydict \<Rightarrow> exn + order" where
  "normalize_sheets clock_text digest identifier payload =
     sbind (guard (keys_within payload [''label'', ''orders'', ''order_started_at'', ''locked''])
              (OrderValidationError ''grouped orders cannot mix legacy or derived fields'')) (\<lambda>_.
     case dget payload ''orders'' of
       VList sheets \<Rightarrow>
         sbind (guard (1 \<le> length sheets \<and> length sheets \<le> MAX_ORDERS)
                  (OrderValidationError ''batch must contain 1 to 8 order sheets'')) (\<lambda>_.
         sbind (map_exn (normalize_sheet clock_text digest identifier payload) sheets) (\<lambda>grouped.
         let ls = schedule [] (flatten_sheets 0 1 grouped);
             seed = last (concat (map (\<lambda>(destination, items, vs). vs) grouped));
             destinations = from_keys (map ol_destination ls);
             value = seed\<lparr>or_sheets := Some (map (\<lambda>(destination, items, vs). (destination, map dict_of items)) grouped),
                          or_lines := ls, or_mode := Grouped_Sheets, or_count := length grouped,
                          or_total := total_quantity ls, or_destinations := destinations,
                          or_destination := sole destinations, or_restaurants := length (restaurants_of ls),
                          or_difficulty := batch_difficulty (length grouped), or_revision := []\<rparr>
         in Inr (value\<lparr>or_revision := digest (canonical value)\<rparr>)))
     | _ \<Rightarrow> Inl (OrderValidationError ''batch must contain 1 to 8 order sheets''))"

text \<open>\<^verbatim>\<open>normalize_order\<close>; \<open>fresh\<close> is the identifier the factory returns.\<close>

definition normalize_order :: "(string \<Rightarrow> clock_reading) \<Rightarrow> (pydict \<Rightarrow> string) \<Rightarrow> string option \<Rightarrow> string \<Rightarrow> bool
    \<Rightarrow> pyval \<Rightarrow> exn + order" where
  "normalize_order clock_text digest order_id fresh allow_custom payload =
     (let identifier = (case order_id of None \<Rightarrow> fresh | Some i \<Rightarrow> if i = [] then fresh else i)
      in case payload of
           VDict d \<Rightarrow> if has_key d ''orders'' then normalize_sheets clock_text digest identifier d
                     else normalize_single clock_text digest identifier allow_custom d
         | _ \<Rightarrow> Inl (OrderValidationError ''order must be an object''))"

subsection \<open>Lines of an accepted order\<close>

definition line_ok :: "order_line \<Rightarrow> bool" where
  "line_ok l \<longleftrightarrow> 1 \<le> ol_quantity l \<and> ol_quantity l \<le> 5 \<and> ol_destination l \<in> set (map fst DESTINATIONS)
     \<and> (\<exists>zone menus. map_of RESTAURANTS (ol_restaurant l) = Some (zone, menus) \<and> ol_menu l \<in> set menus
          \<and> map_of DESTINATIONS (ol_destination l) \<noteq> Some zone)"

lemma member_of_Inr: "member_of v names m = Inr x \<longleftrightarrow> v = VStr x \<and> x \<in> set names"
  by (cases v) (auto simp: member_of_def in_str_set_def)

lemma fst_of_pair: "(x, y) \<in> set ps \<Longrightarrow> x \<in> fst ` set ps"
  by force

lemma normalize_line_ok:
  assumes "normalize_line multi legacy seen line = Inr l"
  shows "line_ok l" "1 \<le> ol_sequence l" "ol_sequence l \<le> 5" "ol_sequence l \<notin> set seen" "ol_ready_at l = 0" "ol_origin l = None"
proof -
  obtain d where d: "line = VDict d" using assms by (cases line) (auto simp: normalize_line_def)
  show "line_ok l" "1 \<le> ol_sequence l" "ol_sequence l \<le> 5" "ol_sequence l \<notin> set seen" "ol_ready_at l = 0" "ol_origin l = None"
    using assms unfolding d
    by (auto simp: normalize_line_def sbind_Inr_iff line_ok_def member_of_Inr plain_within_def MAX_LINES_def fst_of_pair
        split: option.splits)
qed

lemma normalize_lines_ok:
  assumes "normalize_lines multi legacy seen lines = Inr ls"
  shows "list_all line_ok ls" "length ls = length lines" "distinct (map ol_sequence ls)"
    "set (map ol_sequence ls) \<inter> set seen = {}"
proof -
  have "list_all line_ok ls \<and> length ls = length lines \<and> distinct (map ol_sequence ls) \<and> set (map ol_sequence ls) \<inter> set seen = {}"
    using assms
  proof (induction lines arbitrary: seen ls)
    case (Cons line lines)
    then obtain l ls' where l: "normalize_line multi legacy seen line = Inr l"
      "normalize_lines multi legacy (ol_sequence l # seen) lines = Inr ls'" "ls = l # ls'"
      by (auto simp: sbind_Inr_iff)
    from Cons.IH [OF l(2)] normalize_line_ok(1,4) [OF l(1)] show ?case by (auto simp: l(3))
  qed simp
  then show "list_all line_ok ls" "length ls = length lines" "distinct (map ol_sequence ls)"
    "set (map ol_sequence ls) \<inter> set seen = {}" by simp_all
qed

lemma line_ok_ready [simp]: "line_ok (l\<lparr>ol_ready_at := t\<rparr>) = line_ok l" "line_ok (l\<lparr>ol_sequence := n, ol_origin := g\<rparr>) = line_ok l"
  by (simp_all add: line_ok_def)

lemma schedule_fields:
  "map ol_sequence (schedule made ls) = map ol_sequence ls" "map ol_quantity (schedule made ls) = map ol_quantity ls"
  "map ol_restaurant (schedule made ls) = map ol_restaurant ls" "map ol_destination (schedule made ls) = map ol_destination ls"
  "list_all line_ok (schedule made ls) = list_all line_ok ls" "length (schedule made ls) = length ls"
  "schedule made ls = [] \<longleftrightarrow> ls = []"
  by (induction ls arbitrary: made) (auto simp: Let_def)

text \<open>What the restaurant of a line has prepared by then.\<close>

definition prepared :: "order_line list \<Rightarrow> string \<Rightarrow> int" where
  "prepared ls r = sum_list (map ol_quantity (filter (\<lambda>l. ol_restaurant l = r) ls))"

definition found :: "(string \<times> int) list \<Rightarrow> string \<Rightarrow> int" where
  "found d r = (case map_of d r of None \<Rightarrow> 0 | Some q \<Rightarrow> q)"

lemma found_add [simp]: "found (add_quantity k q d) r = found d r + (if r = k then q else 0)"
  by (simp add: found_def add_quantity_def split: option.split)

lemma schedule_ready:
  "i < length ls \<Longrightarrow> ol_ready_at (schedule made ls ! i) =
     (found made (ol_restaurant (ls ! i)) + prepared (take (Suc i) ls) (ol_restaurant (ls ! i))) * SECONDS_PER_ITEM"
proof (induction ls arbitrary: made i)
  case (Cons l ls)
  show ?case
  proof (cases i)
    case 0
    then show ?thesis using found_add [of "ol_restaurant l" "ol_quantity l" made "ol_restaurant l"]
      by (simp add: Let_def prepared_def flip: found_def)
  next
    case (Suc j)
    with Cons show ?thesis by (simp add: Let_def prepared_def)
  qed
qed simp

lemma prepared_schedule [simp]: "prepared (schedule made ls) r = prepared ls r"
proof (induction ls arbitrary: made)
  case (Cons l ls)
  then show ?case by (simp add: prepared_def Let_def)
qed simp

lemma take_schedule: "take n (schedule made ls) = schedule made (take n ls)"
proof (induction ls arbitrary: made n)
  case (Cons l ls)
  then show ?case by (cases n) (simp_all add: Let_def)
qed simp

definition order_ok :: "order \<Rightarrow> bool" where
  "order_ok z \<longleftrightarrow> or_lines z \<noteq> [] \<and> list_all line_ok (or_lines z)
     \<and> map ol_sequence (or_lines z) = [1..int (length (or_lines z))]
     \<and> or_total z = total_quantity (or_lines z) \<and> or_destinations z = from_keys (map ol_destination (or_lines z))
     \<and> or_destination z = sole (or_destinations z)
     \<and> (\<forall>i < length (or_lines z). ol_ready_at (or_lines z ! i)
          = prepared (take (Suc i) (or_lines z)) (ol_restaurant (or_lines z ! i)) * SECONDS_PER_ITEM)
     \<and> (or_mode z \<noteq> Grouped_Sheets \<longrightarrow> or_total z \<le> CAPACITY)
     \<and> (or_mode z = Legacy_Single_Destination \<longrightarrow> MINIMUM_ITEMS \<le> or_total z \<and> 2 \<le> length (restaurants_of (or_lines z)))"

lemma ready_ok:
  "\<forall>i < length (schedule [] ls). ol_ready_at (schedule [] ls ! i)
     = prepared (take (Suc i) (schedule [] ls)) (ol_restaurant (schedule [] ls ! i)) * SECONDS_PER_ITEM"
proof (intro allI impI)
  fix i
  assume i: "i < length (schedule [] ls)"
  have "ol_restaurant (schedule [] ls ! i) = ol_restaurant (ls ! i)"
    using schedule_fields(3) [of "[]" ls] i by (metis nth_map schedule_fields(6))
  with i show "ol_ready_at (schedule [] ls ! i)
     = prepared (take (Suc i) (schedule [] ls)) (ol_restaurant (schedule [] ls ! i)) * SECONDS_PER_ITEM"
    by (simp add: schedule_ready schedule_fields take_schedule found_def)
qed

lemma normalize_single_cases:
  assumes "normalize_single ct dg i ac payload = Inr z"
  obtains lines multi normalized where "dget payload ''lines'' = VList lines"
    "1 \<le> length lines" "length lines \<le> MAX_LINES"
    "order_mode_of lines (dget payload ''destination_id'') = Inr multi"
    "normalize_lines multi (dget payload ''destination_id'') [] lines = Inr normalized"
    "map ol_sequence (sort_key ol_sequence normalized) = [1..int (length normalized)]"
    "order_shape multi ac (schedule [] (sort_key ol_sequence normalized)) = Inr (or_difficulty z)"
    "order_label (dget_or payload ''label'' (VStr ''Competition order'')) = Inr (or_label z)"
    "timestamp ct (dget payload ''order_started_at'') = Inr (or_started_at z)"
    "or_lines z = schedule [] (sort_key ol_sequence normalized)"
    "or_mode z = (if multi then Multi_Destination else Legacy_Single_Destination)"
    "or_total z = total_quantity (or_lines z)" "or_destinations z = from_keys (map ol_destination (or_lines z))"
    "or_destination z = sole (or_destinations z)" "or_id z = i" "is_hex_n 32 i"
proof -
  obtain lines where l: "dget payload ''lines'' = VList lines"
    using assms by (cases "dget payload ''lines''") (auto simp: normalize_single_def sbind_Inr_iff)
  show thesis
    using assms unfolding normalize_single_def Let_def
    by (auto simp: sbind_Inr_iff l intro: that [OF l])
qed

end
