(* ===== verification/Orders_Claims.thy ===== *)
theory Orders_Claims
  imports Orders Delivery_Claims
begin

text \<open>
  The properties of order validation: what every accepted order satisfies, that storing and reading it back
  gives the same order, which accepted orders the delivery workflow takes, and an input on which the
  validation raises an exception of another class.
\<close>

subsection \<open>Orders without sheets\<close>

lemma sort_key_lines [simp]: "set (sort_key ol_sequence ls) = set ls" "length (sort_key ol_sequence ls) = length ls"
  by simp_all

lemma order_shape_fields:
  assumes "order_shape multi ac ls = Inr d"
  shows "total_quantity ls \<le> CAPACITY"
    "\<not> multi \<Longrightarrow> MINIMUM_ITEMS \<le> total_quantity ls \<and> 2 \<le> length (restaurants_of ls)"
  using assms by (auto simp: order_shape_def sbind_Inr_iff MINIMUM_RESTAURANTS_def split: if_splits)

lemma normalize_single_ok:
  assumes "normalize_single ct dg i ac payload = Inr z"
  shows "order_ok z" "length (or_lines z) = length (case dget payload ''lines'' of VList ls \<Rightarrow> ls | _ \<Rightarrow> [])"
proof -
  from assms obtain lines multi normalized where n: "dget payload ''lines'' = VList lines"
    "1 \<le> length lines" "length lines \<le> MAX_LINES"
    "order_mode_of lines (dget payload ''destination_id'') = Inr multi"
    "normalize_lines multi (dget payload ''destination_id'') [] lines = Inr normalized"
    "map ol_sequence (sort_key ol_sequence normalized) = [1..int (length normalized)]"
    "order_shape multi ac (schedule [] (sort_key ol_sequence normalized)) = Inr (or_difficulty z)"
    "order_label (dget_or payload ''label'' (VStr ''Competition order'')) = Inr (or_label z)"
    "timestamp ct (dget payload ''order_started_at'') = Inr (or_started_at z)"
    "or_lines z = schedule [] (sort_key ol_sequence normalized)"
    "or_mode z = (if multi then Multi_Destination else Legacy_Single_Destination)"
    "or_total z = total_quantity (or_lines z)" "or_destinations z = from_keys (map ol_destination (or_lines z))"
    "or_destination z = sole (or_destinations z)" "or_id z = i" "is_hex_n 32 i"
    by (rule normalize_single_cases)
  note l = normalize_lines_ok [OF n(5)]
  have all: "list_all line_ok (sort_key ol_sequence normalized)" using l(1) by (simp add: list_all_iff)
  have ne: "or_lines z \<noteq> []" using n(2) l(2) by (auto simp: n(10) schedule_fields dest: arg_cong [of _ _ length])
  show "length (or_lines z) = length (case dget payload ''lines'' of VList ls \<Rightarrow> ls | _ \<Rightarrow> [])"
    using l(2) by (simp add: n(1,10) schedule_fields)
  show "order_ok z" unfolding order_ok_def
    using ne all n(6) order_shape_fields [OF n(7)] ready_ok [of "sort_key ol_sequence normalized"]
    by (auto simp: n(10-14) schedule_fields)
qed

subsection \<open>Grouped orders\<close>

definition item_ok :: "order \<Rightarrow> bool" where
  "item_ok v \<longleftrightarrow> order_ok v \<and> length (or_lines v) = 1"

lemma normalize_item_ok: "normalize_item ct dg i payload dest index item = Inr v \<Longrightarrow> item_ok v"
proof -
  assume a: "normalize_item ct dg i payload dest index item = Inr v"
  then obtain d where "item = VDict d" by (cases item) (auto simp: normalize_item_def)
  with a have "\<exists>p. normalize_single ct dg i False p = Inr v \<and> (\<exists>l. dget p ''lines'' = VList [l])"
    by (auto simp: normalize_item_def sbind_Inr_iff dget_def dget_or_def)
  then show "item_ok v" using normalize_single_ok by (fastforce simp: item_ok_def)
qed

lemma normalize_items_ok:
  "normalize_items ct dg i payload dest index items = Inr vs \<Longrightarrow> list_all item_ok vs \<and> length vs = length items"
proof (induction items arbitrary: index vs)
  case (Cons item items)
  then show ?case by (auto simp: sbind_Inr_iff dest: normalize_item_ok)
qed simp

definition sheet_ok :: "pyval \<times> pyval list \<times> order list \<Rightarrow> bool" where
  "sheet_ok g \<longleftrightarrow> snd (snd g) \<noteq> [] \<and> list_all item_ok (snd (snd g))"

lemma normalize_sheet_cases:
  assumes "normalize_sheet ct dg i payload sheet = Inr (dest, items, vs)"
  obtains d where "sheet = VDict d" "keys_are d [''destination_id'', ''lines'']" "dget d ''lines'' = VList items"
    "dest = dget d ''destination_id''" "1 \<le> length items" "length items \<le> MAX_LINES"
    "normalize_items ct dg i payload dest 1 items = Inr vs"
proof -
  from assms obtain d where d: "sheet = VDict d" by (cases sheet) (auto simp: normalize_sheet_def)
  with assms obtain items' where "dget d ''lines'' = VList items'"
    by (cases "dget d ''lines''") (auto simp: normalize_sheet_def sbind_Inr_iff)
  with d assms show thesis by (intro that [of d]) (auto simp: normalize_sheet_def sbind_Inr_iff)
qed

lemma normalize_sheet_ok: "normalize_sheet ct dg i payload sheet = Inr g \<Longrightarrow> sheet_ok g"
proof -
  assume a: "normalize_sheet ct dg i payload sheet = Inr g"
  obtain dest items vs where g: "g = (dest, items, vs)" by (metis prod.exhaust)
  from a [unfolded g] obtain d where "1 \<le> length items" "normalize_items ct dg i payload dest 1 items = Inr vs"
    by (rule normalize_sheet_cases)
  with normalize_items_ok [of ct dg i payload dest 1 items vs] show "sheet_ok g" by (auto simp: g sheet_ok_def)
qed

lemma item_head: "item_ok v \<Longrightarrow> line_ok (hd (or_lines v))"
  by (cases "or_lines v") (auto simp: item_ok_def order_ok_def)

lemma map_upto_shift: "map (\<lambda>k. n + k) [i..j] = [n + i..n + j]"
proof (induction i j rule: upto.induct)
  case (1 i j)
  then show ?case by (cases "i \<le> j") (simp_all add: upto.simps [of i j] upto.simps [of "n + i" "n + j"] add.assoc)
qed

lemma upto_append_int: "0 \<le> b \<Longrightarrow> [n + 1..n + int a] @ [n + int a + 1..n + int a + b] = [n + 1..n + int a + b]"
proof (cases "a = 0")
  case False
  then show "0 \<le> b \<Longrightarrow> ?thesis" using upto_split2 [of "n + 1" "n + int a" "n + int a + b"] by simp
qed simp

lemma flatten_sheets_ok:
  assumes "list_all sheet_ok gs"
  shows "list_all line_ok (flatten_sheets n number gs)"
    "map ol_sequence (flatten_sheets n number gs) = [n + 1..n + int (length (flatten_sheets n number gs))]"
proof -
  have "list_all line_ok (flatten_sheets n number gs)
      \<and> map ol_sequence (flatten_sheets n number gs) = [n + 1..n + int (length (flatten_sheets n number gs))]"
    using assms
  proof (induction gs arbitrary: n number)
    case (Cons g gs)
    obtain dest items vs where g: "g = (dest, items, vs)" by (metis prod.exhaust)
    let ?a = "map (\<lambda>(k, v). (hd (or_lines v))\<lparr>ol_sequence := n + k, ol_origin := Some (number, k)\<rparr>) (zip [1..int (length vs)] vs)"
    have ks: "map fst (zip [1..int (length vs)] vs) = [1..int (length vs)]" by simp
    have "map ol_sequence ?a = map ((\<lambda>k. n + k) \<circ> fst) (zip [1..int (length vs)] vs)"
      unfolding map_map by (intro map_cong) auto
    then have "map ol_sequence ?a = map (\<lambda>k. n + k) (map fst (zip [1..int (length vs)] vs))" by (simp only: map_map)
    then have s: "map ol_sequence ?a = [n + 1..n + int (length vs)]" by (simp only: ks map_upto_shift)
    have "list_all line_ok ?a"
      using Cons.prems by (auto simp: g sheet_ok_def list_all_iff item_head dest!: set_zip_rightD)
    moreover have "list_all sheet_ok gs" using Cons.prems by simp
    ultimately show ?case
      using Cons.IH [of "n + int (length vs)" "number + 1"] s
      by (simp add: g upto_append_int add.assoc [symmetric])
  qed simp
  then show "list_all line_ok (flatten_sheets n number gs)"
    "map ol_sequence (flatten_sheets n number gs) = [n + 1..n + int (length (flatten_sheets n number gs))]" by simp_all
qed

lemma from_sheets:
  assumes "map_exn (normalize_sheet ct dg i payload) sheets = Inr gs"
  shows "list_all sheet_ok gs" "length gs = length sheets"
proof -
  show "list_all sheet_ok gs" using assms by (rule map_exn_all [rotated]) (rule normalize_sheet_ok)
  show "length gs = length sheets" using assms
    by (induction sheets arbitrary: gs) (auto simp: sbind_Inr_iff)
qed

lemma normalize_sheets_ok:
  assumes "normalize_sheets ct dg i payload = Inr z"
  shows "order_ok z"
proof -
  obtain sheets where s: "dget payload ''orders'' = VList sheets"
    using assms by (cases "dget payload ''orders''") (auto simp: normalize_sheets_def sbind_Inr_iff)
  with assms obtain gs where g: "map_exn (normalize_sheet ct dg i payload) sheets = Inr gs" "1 \<le> length sheets"
    and z: "or_lines z = schedule [] (flatten_sheets 0 1 gs)" "or_mode z = Grouped_Sheets"
      "or_total z = total_quantity (or_lines z)" "or_destinations z = from_keys (map ol_destination (or_lines z))"
      "or_destination z = sole (or_destinations z)"
    by (auto simp: normalize_sheets_def sbind_Inr_iff Let_def)
  note ok = from_sheets [OF g(1)]
  then obtain g0 gs' where gs: "gs = g0 # gs'" "sheet_ok g0" using g(2) by (cases gs) auto
  then have "flatten_sheets 0 1 gs \<noteq> []" by (cases g0) (auto simp: sheet_ok_def zip_eq_Nil_iff)
  with flatten_sheets_ok [OF ok(1), of 0 1] ready_ok [of "flatten_sheets 0 1 gs"]
  show "order_ok z" unfolding order_ok_def by (auto simp: z schedule_fields)
qed

lemma normalize_order_ok: "normalize_order ct dg i fresh ac payload = Inr z \<Longrightarrow> order_ok z"
  by (auto simp: normalize_order_def Let_def split: pyval.splits if_splits
      intro: normalize_sheets_ok normalize_single_ok(1))

subsection \<open>Reading an order back\<close>

text \<open>What the schematic session submits again when it reads a stored order.\<close>

definition resubmitted :: "order \<Rightarrow> pydict" where
  "resubmitted z = sheets_value z @ [(''label'', VStr (or_label z)), (''locked'', VBool (or_locked z)),
     (''order_started_at'', opt_str (or_started_at z))]"

lemma order_label_again: "order_label v = Inr t \<Longrightarrow> order_label (VStr t) = Inr t"
  by (auto simp: order_label_def Let_def split: if_splits)

abbreviation label_of :: "pydict \<Rightarrow> exn + string" where
  "label_of p \<equiv> order_label (dget_or p ''label'' (VStr ''Competition orders''))"

lemma normalize_item_cong:
  assumes "label_of p = label_of p'" "dget_or p ''locked'' (VBool False) = dget_or p' ''locked'' (VBool False)"
    "timestamp ct (dget p ''order_started_at'') = timestamp ct (dget p' ''order_started_at'')"
  shows "normalize_item ct dg i p dest index item = normalize_item ct dg i p' dest index item"
proof -
  have "normalize_single ct dg i False
          [(''label'', dget_or p ''label'' (VStr ''Competition orders'')), (''locked'', dget_or p ''locked'' (VBool False)),
           (''order_started_at'', dget p ''order_started_at''), (''lines'', ls)]
      = normalize_single ct dg i False
          [(''label'', dget_or p' ''label'' (VStr ''Competition orders'')), (''locked'', dget_or p' ''locked'' (VBool False)),
           (''order_started_at'', dget p' ''order_started_at''), (''lines'', ls)]" for ls
    using assms by (cases ls) (simp_all add: normalize_single_def dget_or_def dget_def keys_within_def)
  then show ?thesis by (cases item) (simp_all add: normalize_item_def)
qed

definition fields_of :: "(string \<Rightarrow> clock_reading) \<Rightarrow> string \<Rightarrow> pydict \<Rightarrow> order \<Rightarrow> bool" where
  "fields_of ct i p v \<longleftrightarrow> label_of p = Inr (or_label v) \<and> dget_or p ''locked'' (VBool False) = VBool (or_locked v)
     \<and> timestamp ct (dget p ''order_started_at'') = Inr (or_started_at v) \<and> or_id v = i \<and> is_hex_n 32 i"

lemma normalize_item_fields:
  assumes "normalize_item ct dg i p dest index item = Inr v"
  shows "fields_of ct i p v" "is_dict item"
proof -
  obtain d where d: "item = VDict d" using assms by (cases item) (auto simp: normalize_item_def)
  then show "is_dict item" by simp
  show "fields_of ct i p v"
    using assms unfolding d
    by (auto simp: normalize_item_def normalize_single_def sbind_Inr_iff fields_of_def dget_def dget_or_def Let_def
        is_bool_iff)
qed

lemma normalize_items_fields:
  "normalize_items ct dg i p dest index items = Inr vs \<Longrightarrow> list_all (fields_of ct i p) vs \<and> list_all is_dict items"
  by (induction items arbitrary: index vs) (auto simp: sbind_Inr_iff dest: normalize_item_fields)

lemma normalize_items_cong:
  assumes "\<And>index item. normalize_item ct dg i p dest index item = normalize_item ct dg i p' dest index item"
  shows "normalize_items ct dg i p dest index items = normalize_items ct dg i p' dest index items"
  by (induction items arbitrary: index) (simp_all add: assms)

lemma dict_of_again: "list_all is_dict items \<Longrightarrow> map VDict (map dict_of items) = items"
  by (induction items) (auto simp: dict_of_def is_dict_iff)

definition again :: "pyval \<times> pyval list \<times> order list \<Rightarrow> pyval" where
  "again g = VDict [(''destination_id'', fst g), (''lines'', VList (map VDict (map dict_of (fst (snd g)))))]"

lemma sheets_again:
  assumes "\<And>dest index item. normalize_item ct dg i p dest index item = normalize_item ct dg i p' dest index item"
    "map_exn (normalize_sheet ct dg i p) sheets = Inr gs"
  shows "map_exn (normalize_sheet ct dg i p') (map again gs) = Inr gs"
  using assms(2)
proof (induction sheets arbitrary: gs)
  case (Cons sheet sheets)
  then obtain dest items vs gs' where g: "normalize_sheet ct dg i p sheet = Inr (dest, items, vs)"
    "map_exn (normalize_sheet ct dg i p) sheets = Inr gs'" "gs = (dest, items, vs) # gs'"
    by (auto simp: sbind_Inr_iff)
  from g(1) obtain d where d: "1 \<le> length items" "length items \<le> MAX_LINES"
    "normalize_items ct dg i p dest 1 items = Inr vs" by (rule normalize_sheet_cases)
  have "normalize_sheet ct dg i p' (again (dest, items, vs)) = Inr (dest, items, vs)"
    using d normalize_items_fields [OF d(3)] normalize_items_cong [of ct dg i p dest p' 1 items, OF assms(1)]
    by (simp add: normalize_sheet_def again_def dict_of_again [unfolded map_map] keys_are_def dget_def dget_or_def guard_def)
  with Cons.IH [OF g(2)] show ?case by (simp add: g(3))
qed simp

lemma sheets_fields:
  "map_exn (normalize_sheet ct dg i p) sheets = Inr gs \<Longrightarrow> list_all (\<lambda>g. list_all (fields_of ct i p) (snd (snd g))) gs"
proof (rule map_exn_all [of "normalize_sheet ct dg i p"])
  fix sheet g
  assume a: "normalize_sheet ct dg i p sheet = Inr g"
  obtain dest items vs where g: "g = (dest, items, vs)" by (metis prod.exhaust)
  from a [unfolded g] obtain d where "normalize_items ct dg i p dest 1 items = Inr vs" by (rule normalize_sheet_cases)
  with normalize_items_fields show "list_all (fields_of ct i p) (snd (snd g))" by (auto simp: g)
qed simp

definition seed_of :: "(pyval \<times> pyval list \<times> order list) list \<Rightarrow> order" where
  "seed_of gs = last (concat (map (\<lambda>(destination, items, vs). vs) gs))"

lemma seed_fields:
  assumes "map_exn (normalize_sheet ct dg i p) sheets = Inr gs" "1 \<le> length sheets"
  shows "fields_of ct i p (seed_of gs)"
proof -
  let ?c = "concat (map (\<lambda>(destination, items, vs). vs) gs)"
  note ok = from_sheets [OF assms(1)]
  then obtain g0 gs' where gs: "gs = g0 # gs'" "sheet_ok g0" using assms(2) by (cases gs) auto
  then have "?c \<noteq> []" by (cases g0) (auto simp: sheet_ok_def)
  then have "seed_of gs \<in> set ?c" unfolding seed_of_def by (rule last_in_set)
  moreover have "\<forall>v \<in> set ?c. fields_of ct i p v"
    using sheets_fields [OF assms(1)] by (auto simp: list_all_iff)
  ultimately show ?thesis by blast
qed

lemma normalize_sheets_Inr:
  assumes "normalize_sheets ct dg i p = Inr z"
  obtains sheets gs where "dget p ''orders'' = VList sheets" "1 \<le> length sheets" "length sheets \<le> MAX_ORDERS"
    "map_exn (normalize_sheet ct dg i p) sheets = Inr gs" "or_sheets z = Some (map (\<lambda>(destination, items, vs). (destination, map dict_of items)) gs)"
    "or_label z = or_label (seed_of gs)" "or_locked z = or_locked (seed_of gs)"
    "or_started_at z = or_started_at (seed_of gs)" "or_id z = or_id (seed_of gs)"
proof -
  obtain sheets where s: "dget p ''orders'' = VList sheets"
    using assms by (cases "dget p ''orders''") (auto simp: normalize_sheets_def sbind_Inr_iff)
  with assms show thesis
    by (auto simp: normalize_sheets_def sbind_Inr_iff Let_def seed_of_def intro!: that)
qed

lemma sheets_value_again:
  "or_sheets z = Some (map (\<lambda>(destination, items, vs). (destination, map dict_of items)) gs)
   \<Longrightarrow> sheets_value z = [(''orders'', VList (map again gs))]"
  by (auto simp: sheets_value_def again_def)

lemma resubmitted_fields:
  assumes "or_sheets z = Some (map (\<lambda>(destination, items, vs). (destination, map dict_of items)) gs)"
  shows "dget (resubmitted z) ''orders'' = VList (map again gs)" "label_of (resubmitted z) = order_label (VStr (or_label z))"
    "dget_or (resubmitted z) ''locked'' (VBool False) = VBool (or_locked z)"
    "dget (resubmitted z) ''order_started_at'' = opt_str (or_started_at z)" "has_key (resubmitted z) ''orders''"
    "keys_within (resubmitted z) [''label'', ''orders'', ''order_started_at'', ''locked'']"
  by (simp_all add: resubmitted_def sheets_value_again [OF assms] dget_def dget_or_def has_key_def keys_within_def)

lemma normalize_sheets_again:
  assumes "normalize_sheets ct dg i p = Inr z" "timestamp ct (opt_str (or_started_at z)) = Inr (or_started_at z)"
  shows "normalize_sheets ct dg i (resubmitted z) = Inr z"
proof -
  from assms(1) obtain sheets gs where s: "dget p ''orders'' = VList sheets" "1 \<le> length sheets"
    "length sheets \<le> MAX_ORDERS" "map_exn (normalize_sheet ct dg i p) sheets = Inr gs"
    and z: "or_sheets z = Some (map (\<lambda>(destination, items, vs). (destination, map dict_of items)) gs)"
      "or_label z = or_label (seed_of gs)" "or_locked z = or_locked (seed_of gs)"
      "or_started_at z = or_started_at (seed_of gs)" "or_id z = or_id (seed_of gs)"
    by (rule normalize_sheets_Inr)
  note f = seed_fields [OF s(4,2), unfolded fields_of_def, folded z(2-5)]
  note r = resubmitted_fields [OF z(1)]
  have "normalize_item ct dg i p dest index item = normalize_item ct dg i (resubmitted z) dest index item" for dest index item
    using f assms(2) order_label_again by (intro normalize_item_cong) (auto simp: r)
  then have again: "map_exn (normalize_sheet ct dg i (resubmitted z)) (map again gs) = Inr gs"
    using s(4) by (rule sheets_again)
  have "length gs = length sheets" using from_sheets(2) [OF s(4)] .
  then have "normalize_sheets ct dg i (resubmitted z) = normalize_sheets ct dg i p"
    using assms(1) s again by (simp add: normalize_sheets_def r sbind_Inr_iff guard_def)
  with assms(1) show ?thesis by simp
qed

lemma grouped_origin:
  assumes "normalize_order ct dg order_id fresh ac payload = Inr z" "or_mode z = Grouped_Sheets"
  obtains i p where "normalize_sheets ct dg i p = Inr z" "or_id z = i" "i \<noteq> []"
proof -
  from assms(1) obtain p where p: "payload = VDict p" by (cases payload) (auto simp: normalize_order_def)
  obtain i where i: "normalize_sheets ct dg i p = Inr z \<or> normalize_single ct dg i ac p = Inr z"
    using assms(1) by (auto simp: normalize_order_def p Let_def split: if_splits)
  moreover have "normalize_single ct dg i ac p \<noteq> Inr z"
    using assms(2) by (auto elim!: normalize_single_cases split: if_splits)
  ultimately have n: "normalize_sheets ct dg i p = Inr z" by simp
  then obtain sheets gs where "map_exn (normalize_sheet ct dg i p) sheets = Inr gs" "1 \<le> length sheets"
    "or_id z = or_id (seed_of gs)" by (rule normalize_sheets_Inr)
  with seed_fields [of ct dg i p sheets gs] n show thesis
    by (intro that [of i p]) (auto simp: fields_of_def is_hex_n_def)
qed

subsection \<open>The delivery of an accepted order\<close>

lemma known_tokens:
  assumes "line_ok l"
  shows "is_token 63 (ol_restaurant l)" "is_token 63 (ol_destination l)"
    "ol_restaurant l \<in> set (map fst RESTAURANTS)"
proof -
  have t: "list_all (is_token 63) (map fst RESTAURANTS)" "list_all (is_token 63) (map fst DESTINATIONS)"
    by code_simp+
  from assms obtain zone menus where "map_of RESTAURANTS (ol_restaurant l) = Some (zone, menus)"
    "ol_destination l \<in> set (map fst DESTINATIONS)" unfolding line_ok_def by blast
  moreover from this(1) show "ol_restaurant l \<in> set (map fst RESTAURANTS)" by (force dest: map_of_SomeD)
  ultimately show "is_token 63 (ol_restaurant l)" "is_token 63 (ol_destination l)"
    using t by (auto simp: list_all_iff)
qed

lemma line_value_gets:
  "dget (line_value l) ''restaurant_id'' = VStr (ol_restaurant l)" "dget (line_value l) ''quantity'' = VInt (ol_quantity l)"
  "dget_or (line_value l) ''destination_id'' v = VStr (ol_destination l)"
  "dget_or (line_value l) ''sequence'' v = VInt (ol_sequence l)"
  by (simp_all add: line_value_def dget_def dget_or_def)

lemma line_keys: "map_exn line_key (map (VDict \<circ> line_value) ls) = Inr (map ol_sequence ls)"
  by (induction ls) (simp_all add: line_key_def line_value_gets)

lemma line_entries:
  "list_all line_ok ls \<Longrightarrow> map_exn (line_entry d) (map (VDict \<circ> line_value) ls)
     = Inr (map (\<lambda>l. (ol_restaurant l, ol_destination l, ol_quantity l)) ls)"
proof (induction ls)
  case (Cons l ls)
  then have "line_entry d (VDict (line_value l)) = Inr (ol_restaurant l, ol_destination l, ol_quantity l)"
    using known_tokens [of l] by (simp add: line_entry_def line_value_gets token_of_def plain_within_def line_ok_def)
  with Cons show ?case by simp
qed simp

lemma order_value_gets:
  "dget (order_value z) ''lines'' = VList (map (VDict \<circ> line_value) (or_lines z))"
  "dget (order_value z) ''total_quantity'' = VInt (or_total z)"
  by (simp_all add: order_value_def dget_def dget_or_def)

lemma sorted_by_sequence:
  assumes "map ol_sequence ls = [1..int (length ls)]" "length xs = length ls"
  shows "map snd (sort_key fst (zip (map ol_sequence ls) xs)) = xs"
proof -
  have "sorted (map fst (zip (map ol_sequence ls) xs))"
    by (simp add: assms map_fst_zip_take)
  then have "sort_key fst (zip (map ol_sequence ls) xs) = zip (map ol_sequence ls) xs" by (rule sort_key_id_if_sorted)
  then show ?thesis by (simp add: map_snd_zip_take assms(2))
qed

text \<open>The keys of the totals, in the order of their first line.\<close>

lemma dput_keys: "map fst (dput k v d) = (if k \<in> set (map fst d) then map fst d else map fst d @ [k])"
  by (induction d) (auto dest: fst_of_pair)

lemma set_from_keys [simp]: "set (from_keys ks) = set ks"
  by (induction ks) auto

lemma from_keys_snoc: "from_keys (ks @ [k]) = (if k \<in> set ks then from_keys ks else from_keys ks @ [k])"
  by (induction ks) auto

lemma add_quantity_keys: "map fst d = from_keys ks \<Longrightarrow> map fst (add_quantity k q d) = from_keys (ks @ [k])"
  by (simp only: add_quantity_def dput_keys from_keys_snoc set_from_keys)

lemma order_totals_keys:
  assumes "order_totals entries = (qs, ds)"
  shows "map fst qs = from_keys (map fst entries)" "map fst ds = from_keys (map (fst \<circ> snd) entries)"
proof -
  have "map fst (fst (order_totals entries)) = from_keys (map fst entries)
      \<and> map fst (snd (order_totals entries)) = from_keys (map (fst \<circ> snd) entries)"
  proof (induction entries rule: rev_induct)
    case (snoc e entries)
    obtain v d q where "e = (v, d, q)" by (metis prod.exhaust)
    moreover obtain qs ds where "order_totals entries = (qs, ds)" by fastforce
    ultimately show ?case using snoc by (simp add: order_totals_def add_quantity_keys)
  qed (simp add: order_totals_def)
  with assms show "map fst qs = from_keys (map fst entries)" "map fst ds = from_keys (map (fst \<circ> snd) entries)" by simp_all
qed

lemma from_keys_length: "length (from_keys ks) \<le> length ks"
  by (induction ks) (auto intro: le_SucI length_filter_le order_trans)

lemma distinct_from_keys [simp]: "distinct (from_keys ks)"
  by (induction ks) auto

lemma total_pos: "list_all (\<lambda>l. 1 \<le> ol_quantity l) ls \<Longrightarrow> ls \<noteq> [] \<Longrightarrow> 1 \<le> total_quantity ls"
proof (induction ls)
  case (Cons l ls)
  then show ?case by (cases ls) (auto simp: total_quantity_def)
qed simp

text \<open>The delivery starts with every accepted order within the capacity.\<close>

lemma accepted_totals:
  assumes "order_ok z" "order_totals (map (\<lambda>l. (ol_restaurant l, ol_destination l, ol_quantity l)) (or_lines z)) = (qs, ds)"
  shows "sum_list (map snd qs) = or_total z" "1 \<le> length qs" "length qs \<le> 5"
    "map fst qs = from_keys (map ol_restaurant (or_lines z))" "map fst ds = or_destinations z" "1 \<le> or_total z"
proof -
  let ?es = "map (\<lambda>l. (ol_restaurant l, ol_destination l, ol_quantity l)) (or_lines z)"
  note z = assms(1) [unfolded order_ok_def]
  have q: "list_all (\<lambda>l. 1 \<le> ol_quantity l) (or_lines z)" using z by (auto simp: list_all_iff line_ok_def)
  note keys = order_totals_keys [OF assms(2), simplified, unfolded comp_def]
  show qk: "map fst qs = from_keys (map ol_restaurant (or_lines z))" using keys(1) by simp
  show "map fst ds = or_destinations z" using keys(2) z by simp
  have sum: "sum_list (map snd (fst (order_totals es))) = sum_list (map (snd \<circ> snd) es)"
    if "list_all (\<lambda>e. 1 \<le> snd (snd e)) es" for es
    using that
  proof (induction es rule: rev_induct)
    case (snoc e es)
    obtain v d q where e: "e = (v, d, q)" by (metis prod.exhaust)
    obtain qs ds where t: "order_totals es = (qs, ds)" by fastforce
    from snoc.prems have "list_all (\<lambda>e. 1 \<le> snd (snd e)) es" "1 \<le> q" by (simp_all add: e)
    with snoc.IH order_totals_ok(1) [OF _ t] add_quantity_ok(2) [of qs q v] show ?case
      by (simp add: e t order_totals_def [of "es @ _"] order_totals_def [of es, symmetric])
  qed (simp add: order_totals_def)
  show "sum_list (map snd qs) = or_total z"
    using sum [of ?es] q z by (simp add: assms(2) list_all_iff total_quantity_def comp_def)
  have "set (map fst qs) \<subseteq> set (map fst RESTAURANTS)"
    using z known_tokens(3) by (auto simp: qk list_all_iff)
  then have "card (set (map fst qs)) \<le> card (set (map fst RESTAURANTS))" by (intro card_mono) simp_all
  moreover have "card (set (map fst RESTAURANTS)) \<le> 3" by (simp add: RESTAURANTS_def)
  moreover have "distinct (map fst qs)" by (simp add: qk)
  ultimately show "length qs \<le> 5" using distinct_card [of "map fst qs"] by simp
  have "qs \<noteq> []" using qk z by (metis set_from_keys map_is_Nil_conv set_empty)
  then show "1 \<le> length qs" by (cases qs) simp_all
  have "1 \<le> total_quantity (or_lines z)" using z by (intro total_pos [OF q]) simp
  then show "1 \<le> or_total z" using z by simp
qed

lemma delivery_of_order:
  assumes "order_ok z"
  shows "delivery_init (VDict (order_value z)) =
    (case order_totals (map (\<lambda>l. (ol_restaurant l, ol_destination l, ol_quantity l)) (or_lines z)) of (qs, ds) \<Rightarrow>
       if or_total z \<le> 5
       then Inr \<lparr>quantities = qs, destination_quantities = ds, remaining = map fst qs,
                 remaining_destinations = map fst ds, completed_destinations = [], picked = [],
                 cargo_count = 0, d_state = Order_Ready, d_reasons = [], audit = [],
                 last_updated_ns = 0, state_before_pause = Order_Ready, resume_requires_evidence = False\<rparr>
       else Inl (BehaviorContractError ''normalized order is invalid''))"
proof -
  note z = assms [unfolded order_ok_def]
  obtain qs ds where t: "order_totals (map (\<lambda>l. (ol_restaurant l, ol_destination l, ol_quantity l)) (or_lines z)) = (qs, ds)"
    by fastforce
  note a = accepted_totals [OF assms t]
  have "map snd (sort_key fst (zip (map ol_sequence (or_lines z)) (map (VDict \<circ> line_value) (or_lines z))))
      = map (VDict \<circ> line_value) (or_lines z)"
    using z by (intro sorted_by_sequence) simp_all
  with z a show ?thesis
    by (simp add: delivery_init_def order_value_gets line_keys line_entries t plain_within_def guard_def)
qed

subsection \<open>A grouped order\<close>

definition demo_clock :: "string \<Rightarrow> clock_reading" where
  \<comment> \<open>reads one time, and writes it as it is\<close>
  "demo_clock t = (if t = ''2026-05-01T09:00:00.000+00:00'' then With_Zone t else Malformed)"

definition demo_digest :: "pydict \<Rightarrow> string" where
  "demo_digest p = ''00''"

definition demo_sheets :: pydict where
  "demo_sheets =
     [(''label'', VStr '' Lunch ''), (''order_started_at'', VStr ''2026-05-01T09:00:00.000Z''),
      (''orders'', VList [
        VDict [(''destination_id'', VStr ''GTX_SITE''), (''lines'', VList [
          VDict [(''sequence'', VInt 1), (''restaurant_id'', VStr ''DOMINO''), (''menu_id'', VStr ''CHEESE_PIZZA''), (''quantity'', VInt 2)],
          VDict [(''sequence'', VInt 2), (''restaurant_id'', VStr ''EDIYA''), (''menu_id'', VStr ''AMERICANO''), (''quantity'', VInt 1)]])],
        VDict [(''destination_id'', VStr ''COEX''), (''lines'', VList [
          VDict [(''sequence'', VInt 1), (''restaurant_id'', VStr ''EDIYA''), (''menu_id'', VStr ''CAFE_LATTE''), (''quantity'', VInt 2)]])]])]"

definition demo_id :: string where
  "demo_id = ''0123456789abcdef0123456789abcdef''"

definition demo_grouped :: order where
  "demo_grouped = projr (normalize_order demo_clock demo_digest None demo_id False (VDict demo_sheets))"

lemma demo_grouped_accepted:
  "normalize_order demo_clock demo_digest None demo_id False (VDict demo_sheets) = Inr demo_grouped"
proof -
  have "\<not> isl (normalize_order demo_clock demo_digest None demo_id False (VDict demo_sheets))" by code_simp
  then show ?thesis unfolding demo_grouped_def by (rule sum.collapse(2) [symmetric])
qed

lemma demo_grouped_facts:
  "or_mode demo_grouped = Grouped_Sheets" "or_id demo_grouped = demo_id" "or_total demo_grouped = 5"
  "timestamp demo_clock (opt_str (or_started_at demo_grouped)) = Inr (or_started_at demo_grouped)"
  by code_simp+

subsection \<open>The properties\<close>



text \<open>C24. The delivery workflow starts with every accepted order of at most five items, with the same total,
  visiting the restaurants and the destinations in the order of the lines. A grouped order of more items,
  which the validation accepts, is refused.\<close>

theorem accepted_order_delivers:
  assumes "normalize_order clock_text digest order_id fresh allow_custom payload = Inr z"
  shows "if or_total z \<le> 5
    then \<exists>s. delivery_init (VDict (order_value z)) = Inr s \<and> sum_list (map snd (quantities s)) = or_total z
       \<and> remaining s = from_keys (map ol_restaurant (or_lines z)) \<and> remaining_destinations s = or_destinations z
    else delivery_init (VDict (order_value z)) = Inl (BehaviorContractError ''normalized order is invalid'')"
proof -
  note z = normalize_order_ok [OF assms]
  obtain qs ds where "order_totals (map (\<lambda>l. (ol_restaurant l, ol_destination l, ol_quantity l)) (or_lines z)) = (qs, ds)"
    by fastforce
  with accepted_totals [OF z this] delivery_of_order [OF z] show ?thesis by simp
qed

lemma accepted_order_delivers_witness:
  "\<exists>s. delivery_init (VDict (order_value demo_grouped)) = Inr s \<and> sum_list (map snd (quantities s)) = 5"
  using accepted_order_delivers [OF demo_grouped_accepted] demo_grouped_facts by auto



text \<open>A list or an object in the place of the destination raises TypeError out of the validation, not the
  OrderValidationError its callers turn into an answer.\<close>

theorem unhashable_destination_escapes:
  assumes "keys_within d [''label'', ''destination_id'', ''lines'', ''order_started_at'', ''locked'']"
    and "is_hex_n 32 fresh" and "dget d ''lines'' = VList lines" and "1 \<le> length lines" and "length lines \<le> MAX_LINES"
    and "\<not> list_ex has_destination lines" and "\<not> hashable (dget d ''destination_id'')"
  shows "normalize_order clock_text digest None fresh allow_custom (VDict d) = Inl TypeError"
proof -
  have "\<not> has_key d ''orders''"
  proof
    assume "has_key d ''orders''"
    with assms(1) have "''orders'' \<in> set [''label'', ''destination_id'', ''lines'', ''order_started_at'', ''locked'']"
      unfolding keys_within_def has_key_def set_map by blast
    then show False by simp
  qed
  with assms show ?thesis
    by (simp add: normalize_order_def normalize_single_def order_mode_of_def member_of_def in_str_set_def guard_def)
qed

lemma unhashable_destination_escapes_witness:
  "normalize_order demo_clock demo_digest None demo_id False
     (VDict [(''destination_id'', VList []), (''lines'', VList [VDict []])]) = Inl TypeError"
proof (rule unhashable_destination_escapes)
  show "is_hex_n 32 demo_id" by code_simp
  show "dget [(''destination_id'', VList []), (''lines'', VList [VDict []])] ''lines'' = VList [VDict []]" by code_simp
  show "length [VDict []] \<le> MAX_LINES" by (simp add: MAX_LINES_def)
  show "\<not> list_ex has_destination [VDict []]" by code_simp
  show "\<not> hashable (dget [(''destination_id'', VList []), (''lines'', VList [VDict []])] ''destination_id'')" by code_simp
  show "keys_within [(''destination_id'', VList []), (''lines'', VList [VDict []])]
    [''label'', ''destination_id'', ''lines'', ''order_started_at'', ''locked'']" by code_simp
qed simp

end
