(* ===== verification/Route_Graph.thy ===== *)
theory Route_Graph
  imports Orders Docking
begin

text \<open>
  \<^verbatim>\<open>route_planner/graph.py\<close>: the validation of a submitted route graph against the annotations and the
  geometry of its map. The map's geometry is an object the caller supplies, so its two questions are functions
  here. Parameters besides: \<open>hypot\<close> of the C math library, \<open>digest\<close>, the SHA-256 of the canonical JSON, and
  \<open>bytes\<close>, the length of that JSON in bytes. Sums of floats add from the left, as CPython does up to version 3.11.
  Texts are of the first 256 code points, on which normalization to NFC is the identity.
\<close>

subsection \<open>Fields\<close>

definition NODE_ROLES :: "string list" where
  "NODE_ROLES = [''START'', ''INTERSECTION'', ''SAFE_HOLD'', ''RESTAURANT_APPROACH'', ''RESTAURANT_DOCK'',
     ''DESTINATION_APPROACH'', ''DESTINATION_DOCK'', ''CROSSWALK_WAIT'', ''CROSSWALK_ENTRY'', ''CROSSWALK_EXIT'',
     ''UNDERPASS_ENTRY'', ''UNDERPASS_EXIT'']"

definition EDGE_TYPES :: "string list" where
  "EDGE_TYPES = [''NORMAL_WALKWAY'', ''CROSSWALK'', ''UNDERPASS'', ''DOCKING_APPROACH'']"

definition REQUIREMENTS :: "string list" where
  "REQUIREMENTS = [''TRAFFIC_GREEN'', ''PEDESTRIAN_CLEAR'', ''CROSSWALK_ALIGNMENT'', ''LANE_BOUNDARY_VALID'',
     ''ARUCO_DOCKING'', ''SPECIAL_GAIT'', ''OPERATOR_CONFIRMATION'']"

definition MAX_NODES :: nat where "MAX_NODES = 128"
definition MAX_EDGES :: nat where "MAX_EDGES = 512"
definition MAX_POLYLINE_POINTS :: nat where "MAX_POLYLINE_POINTS = 128"
definition MAX_TOTAL_POLYLINE_POINTS :: nat where "MAX_TOTAL_POLYLINE_POINTS = 4096"
definition MAX_GRAPH_BYTES :: nat where "MAX_GRAPH_BYTES = 1024 * 1024"

definition graph_error :: "string \<Rightarrow> exn + 'a" where
  "graph_error message = Inl (RouteGraphError message)"

abbreviation insist :: "bool \<Rightarrow> string \<Rightarrow> exn + unit" where
  "insist c message \<equiv> guard c (RouteGraphError message)"

definition graph_number :: "pyval \<Rightarrow> string \<Rightarrow> rat \<Rightarrow> rat \<Rightarrow> exn + rat" where
  "graph_number value field low high =
     (if \<not> is_number value then graph_error (field @ '' must be numeric'')
      else sbind (py_float value) (\<lambda>f.
        if is_finite f \<and> low \<le> fin_val f \<and> fin_val f \<le> high then Inr (py_round 6 (fin_val f))
        else graph_error (field @ '' is outside the supported range'')))"

definition graph_label :: "pyval \<Rightarrow> exn + string" where
  "graph_label value =
     (if \<not> is_str value then graph_error ''node label must be text''
      else let normalized = strip (str_val value)
           in if normalized = [] \<or> 64 < length normalized \<or> list_ex is_control normalized
              then graph_error ''node label is invalid'' else Inr normalized)"

definition is_graph_id :: "string \<Rightarrow> bool" where
  "is_graph_id s \<longleftrightarrow> is_token 63 s \<and> 2 \<le> length s"

definition graph_token :: "pyval \<Rightarrow> string \<Rightarrow> exn + string" where
  "graph_token value field =
     (if is_str value \<and> is_graph_id (str_val value) then Inr (str_val value) else graph_error (field @ '' is invalid''))"

definition optional_token :: "pyval \<Rightarrow> string \<Rightarrow> exn + string option" where
  "optional_token value field =
     (if value = VNone then Inr None else sbind (graph_token value field) (\<lambda>s. Inr (Some s)))"

definition hex_text :: "nat \<Rightarrow> pyval \<Rightarrow> bool" where
  "hex_text n value \<longleftrightarrow> is_str value \<and> is_hex_n n (str_val value)"

text \<open>\<^verbatim>\<open>value not in names\<close> is an error; unhashable values raise before.\<close>

definition one_of :: "pyval \<Rightarrow> string list \<Rightarrow> string \<Rightarrow> exn + string" where
  "one_of value names message =
     sbind (in_str_set value names) (\<lambda>b. if b then Inr (str_val value) else graph_error message)"

subsection \<open>The poses of the annotations\<close>

type_synonym pose = "rat \<times> rat \<times> rat"

definition million :: rat where "million = 1000000"

text \<open>What a \<^verbatim>\<open>try\<close> block makes of a graph error: \<open>None\<close>; other exceptions pass.\<close>

definition graph_checked :: "exn + 'a \<Rightarrow> exn + 'a option" where
  "graph_checked r = (case r of Inr x \<Rightarrow> Inr (Some x) | Inl (RouteGraphError _) \<Rightarrow> Inr None | Inl e \<Rightarrow> Inl e)"

definition pose_value :: "pydict \<Rightarrow> exn + pose" where
  "pose_value pose =
     sbind (graph_number (dget pose ''x'') ''annotation x'' (- million) million) (\<lambda>x.
     sbind (graph_number (dget pose ''y'') ''annotation y'' (- million) million) (\<lambda>y.
     sbind (graph_number (dget_or pose ''yaw'' (VFloat (Fin 0))) ''annotation yaw'' (- math_pi) math_pi) (\<lambda>yaw.
       Inr (x, y, yaw))))"

definition add_point :: "pyval \<Rightarrow> (string \<times> pose) list \<Rightarrow> exn + (string \<times> pose) list" where
  "add_point point poses =
     (case point of
        VDict p \<Rightarrow> (case dget p ''pose'' of
            VDict pose \<Rightarrow>
              if hex_text 24 (dget p ''id'')
              then sbind (graph_checked (pose_value pose)) (\<lambda>r.
                     Inr (case r of None \<Rightarrow> poses | Some q \<Rightarrow> dput (str_val (dget p ''id'')) q poses))
              else Inr poses
          | _ \<Rightarrow> Inr poses)
      | _ \<Rightarrow> Inr poses)"

fun add_points :: "pyval list \<Rightarrow> (string \<times> pose) list \<Rightarrow> exn + (string \<times> pose) list" where
  "add_points [] poses = Inr poses"
| "add_points (p # ps) poses = sbind (add_point p poses) (add_points ps)"

definition pose_index :: "pydict \<Rightarrow> exn + (string \<times> pose) list" where
  "pose_index annotations =
     (case dget annotations ''points'' of
        VList points \<Rightarrow> add_points points []
      | _ \<Rightarrow> graph_error ''annotation points are unavailable'')"

subsection \<open>Nodes\<close>

record node =
  nd_id :: string
  nd_annotation :: string
  nd_role :: string
  nd_zone :: "string option"
  nd_venue :: "string option"
  nd_label :: string
  nd_manual :: bool
  nd_autonomous :: bool

definition normalize_node :: "(string \<times> pose) list \<Rightarrow> string list \<Rightarrow> pyval \<Rightarrow> exn + node" where
  "normalize_node poses seen raw =
     (case raw of
        VDict d \<Rightarrow>
          sbind (insist (keys_are d [''id'', ''annotation_id'', ''role'', ''zone_id'', ''venue_id'', ''label'',
                   ''manual_guidance'', ''autonomous_eligible'']) ''route graph node schema is invalid'') (\<lambda>_.
          sbind (graph_token (dget d ''id'') ''node id'') (\<lambda>identifier.
          sbind (insist (hex_text 24 (dget d ''annotation_id'') \<and> str_val (dget d ''annotation_id'') \<in> fst ` set poses)
                   ''route graph node annotation is missing'') (\<lambda>_.
          sbind (insist (identifier \<notin> set seen) ''route graph node ids must be unique'') (\<lambda>_.
          sbind (one_of (dget d ''role'') NODE_ROLES ''route graph node role is invalid'') (\<lambda>role.
          sbind (insist (is_bool (dget d ''manual_guidance'') \<and> is_bool (dget d ''autonomous_eligible''))
                   ''route graph node eligibility must be boolean'') (\<lambda>_.
          sbind (optional_token (dget d ''zone_id'') ''node zone'') (\<lambda>zone.
          sbind (optional_token (dget d ''venue_id'') ''node venue'') (\<lambda>venue.
          sbind (graph_label (dget d ''label'')) (\<lambda>label.
            Inr \<lparr>nd_id = identifier, nd_annotation = str_val (dget d ''annotation_id''), nd_role = role, nd_zone = zone,
                 nd_venue = venue, nd_label = label, nd_manual = (dget d ''manual_guidance'' = VBool True),
                 nd_autonomous = (dget d ''autonomous_eligible'' = VBool True)\<rparr>)))))))))
      | _ \<Rightarrow> graph_error ''route graph node schema is invalid'')"

fun normalize_nodes :: "(string \<times> pose) list \<Rightarrow> string list \<Rightarrow> pyval list \<Rightarrow> exn + node list" where
  "normalize_nodes poses seen [] = Inr []"
| "normalize_nodes poses seen (raw # raws) =
     sbind (normalize_node poses seen raw) (\<lambda>n.
     sbind (normalize_nodes poses (nd_id n # seen) raws) (\<lambda>ns. Inr (n # ns)))"

subsection \<open>Edges\<close>

record edge =
  ed_id :: string
  ed_from :: string
  ed_to :: string
  ed_type :: string
  ed_bidirectional :: bool
  ed_manual :: bool
  ed_autonomous :: bool
  ed_replan :: bool
  ed_turning :: bool
  ed_lateral :: bool
  ed_polyline :: "(rat \<times> rat) list"
  ed_distance :: rat
  ed_speed :: rat
  ed_risk :: rat
  ed_requirements :: "string list"
  ed_limit :: rat
  ed_wait :: rat
  ed_penalty :: rat

record geometry =
  ge_map :: string
  ge_revision :: string
  ge_contains :: "rat \<Rightarrow> rat \<Rightarrow> bool"
  ge_known_free :: "rat \<Rightarrow> rat \<Rightarrow> rat \<Rightarrow> bool"
  ge_resolution :: "rat option"

definition on_map :: "geometry option \<Rightarrow> rat \<Rightarrow> rat \<Rightarrow> bool" where
  "on_map geometry x y =
     (case geometry of None \<Rightarrow> True | Some g \<Rightarrow> ge_contains g x y \<and> ge_known_free g x y 0)"

definition edge_point :: "geometry option \<Rightarrow> pyval \<Rightarrow> exn + rat \<times> rat" where
  "edge_point geometry point =
     (case point of
        VDict p \<Rightarrow>
          sbind (insist (keys_are p [''x'', ''y'']) ''route graph polyline point is invalid'') (\<lambda>_.
          sbind (graph_number (dget p ''x'') ''polyline x'' (- million) million) (\<lambda>x.
          sbind (graph_number (dget p ''y'') ''polyline y'' (- million) million) (\<lambda>y.
          sbind (insist (on_map geometry x y) ''route graph polyline must remain on known-free map cells'') (\<lambda>_.
            Inr (x, y)))))
      | _ \<Rightarrow> graph_error ''route graph polyline point is invalid'')"

definition distance :: "libm \<Rightarrow> rat \<times> rat \<Rightarrow> rat \<times> rat \<Rightarrow> rat" where
  "distance L p q = hypot L (fl (fst q - fst p)) (fl (snd q - snd p))"

definition measured_length :: "libm \<Rightarrow> (rat \<times> rat) list \<Rightarrow> rat" where
  "measured_length L points = foldl (\<lambda>s (p, q). fl (s + distance L p q)) 0 (zip points (tl points))"

definition endpoint_tolerance :: "geometry option \<Rightarrow> rat" where
  "endpoint_tolerance geometry =
     max (fl (5 / 100)) (fl ((case geometry of None \<Rightarrow> fl (5 / 100)
        | Some g \<Rightarrow> case ge_resolution g of None \<Rightarrow> fl (5 / 100) | Some r \<Rightarrow> r) * 2))"

definition planar :: "pose \<Rightarrow> rat \<times> rat" where
  "planar q = (fst q, fst (snd q))"

definition edge_flag :: "pydict \<Rightarrow> string \<Rightarrow> exn + bool" where
  "edge_flag d field =
     (if is_bool (dget d field) then Inr (dget d field = VBool True) else graph_error (''edge '' @ field @ '' must be boolean''))"

definition EDGE_KEYS :: "string list" where
  "EDGE_KEYS = [''id'', ''from'', ''to'', ''type'', ''bidirectional'', ''polyline'', ''distance_m'',
     ''nominal_speed_mps'', ''risk'', ''requirements'', ''allow_manual'', ''allow_autonomous'',
     ''allow_replan'', ''allow_turning'', ''allow_lateral_motion'', ''speed_limit_mps'',
     ''expected_wait_s'', ''penalty_risk'']"

definition edge_requirements :: "pyval \<Rightarrow> exn + string list" where
  "edge_requirements value =
     (case value of
        VList items \<Rightarrow>
          sbind (insist (length items \<le> length REQUIREMENTS) ''route graph edge requirements are invalid'') (\<lambda>_.
          sbind (map_exn (\<lambda>item. one_of item REQUIREMENTS ''route graph edge requirements are invalid'') items) (\<lambda>names.
          sbind (insist (distinct names) ''route graph edge requirements must be unique'') (\<lambda>_. Inr names)))
      | _ \<Rightarrow> graph_error ''route graph edge requirements are invalid'')"

text \<open>The polyline and its length, with the points of the edges before it counted in \<open>used\<close>.\<close>

definition edge_polyline :: "geometry option \<Rightarrow> nat \<Rightarrow> pyval \<Rightarrow> exn + (rat \<times> rat) list" where
  "edge_polyline geometry used value =
     (case value of
        VList points \<Rightarrow>
          sbind (insist (2 \<le> length points \<and> length points \<le> MAX_POLYLINE_POINTS) ''route graph edge polyline is invalid'') (\<lambda>_.
          sbind (insist (used + length points \<le> MAX_TOTAL_POLYLINE_POINTS) ''route graph polyline point limit exceeded'') (\<lambda>_.
            map_exn (edge_point geometry) points))
      | _ \<Rightarrow> graph_error ''route graph edge polyline is invalid'')"

definition pose_at :: "(string \<times> pose) list \<Rightarrow> node list \<Rightarrow> string \<Rightarrow> exn + rat \<times> rat" where
  "pose_at poses nodes i =
     (case map_of (map (\<lambda>n. (nd_id n, nd_annotation n)) nodes) i of
        None \<Rightarrow> Inl KeyError
      | Some a \<Rightarrow> (case map_of poses a of None \<Rightarrow> Inl KeyError | Some q \<Rightarrow> Inr (planar q)))"

definition edge_numbers :: "pydict \<Rightarrow> exn + rat \<times> rat \<times> rat \<times> rat \<times> rat" where
  "edge_numbers d =
     sbind (graph_number (dget d ''nominal_speed_mps'') ''edge nominal speed'' (fl (1 / 100)) 3) (\<lambda>speed.
     sbind (graph_number (dget d ''risk'') ''edge risk'' 0 100) (\<lambda>risk.
     sbind (graph_number (dget d ''speed_limit_mps'') ''edge speed limit'' (fl (1 / 100)) 3) (\<lambda>limit.
     sbind (graph_number (dget d ''expected_wait_s'') ''edge expected wait'' 0 600) (\<lambda>wait.
     sbind (graph_number (dget d ''penalty_risk'') ''edge penalty risk'' 0 100) (\<lambda>penalty.
       Inr (speed, risk, limit, wait, penalty))))))"

text \<open>The polyline runs from one node's pose to the other's, and is as long as the edge says.\<close>

definition check_course :: "libm \<Rightarrow> geometry option \<Rightarrow> (string \<times> pose) list \<Rightarrow> node list \<Rightarrow> string \<Rightarrow> string
    \<Rightarrow> (rat \<times> rat) list \<Rightarrow> pyval \<Rightarrow> exn + rat" where
  "check_course L geometry poses nodes source target points supplied =
     sbind (pose_at poses nodes source) (\<lambda>p.
     sbind (pose_at poses nodes target) (\<lambda>q.
     sbind (insist (distance L p (hd points) \<le> endpoint_tolerance geometry)
              ''route graph edge does not start at its annotation node'') (\<lambda>_.
     sbind (insist (distance L q (last points) \<le> endpoint_tolerance geometry)
              ''route graph edge does not end at its annotation node'') (\<lambda>_.
     let measured = measured_length L points
     in sbind (graph_number supplied ''edge distance'' (fl (1 / 1000)) 100000) (\<lambda>given.
        sbind (insist (\<bar>fl (measured - given)\<bar> \<le> max (fl (5 / 100)) (fl (measured * fl (2 / 100))))
                 ''route graph edge distance does not match its polyline'') (\<lambda>_.
          Inr measured))))))"

definition normalize_edge :: "libm \<Rightarrow> geometry option \<Rightarrow> (string \<times> pose) list \<Rightarrow> node list \<Rightarrow> string list \<Rightarrow> nat
    \<Rightarrow> pyval \<Rightarrow> exn + edge" where
  "normalize_edge L geometry poses nodes seen used raw =
     (case raw of
        VDict d \<Rightarrow>
          sbind (insist (keys_are d EDGE_KEYS) ''route graph edge schema is invalid'') (\<lambda>_.
          sbind (graph_token (dget d ''id'') ''edge id'') (\<lambda>identifier.
          sbind (graph_token (dget d ''from'') ''edge source'') (\<lambda>source.
          sbind (graph_token (dget d ''to'') ''edge target'') (\<lambda>target.
          sbind (insist (identifier \<notin> set seen) ''route graph edge ids must be unique'') (\<lambda>_.
          sbind (insist (source \<in> nd_id ` set nodes \<and> target \<in> nd_id ` set nodes \<and> source \<noteq> target)
                   ''route graph edge endpoints are invalid'') (\<lambda>_.
          sbind (one_of (dget d ''type'') EDGE_TYPES ''route graph edge type is invalid; use UNDERPASS'') (\<lambda>kind.
          sbind (edge_requirements (dget d ''requirements'')) (\<lambda>requirements.
          sbind (edge_polyline geometry used (dget d ''polyline'')) (\<lambda>points.
          sbind (check_course L geometry poses nodes source target points (dget d ''distance_m'')) (\<lambda>measured.
          sbind (map_exn (edge_flag d) [''bidirectional'', ''allow_manual'', ''allow_autonomous'', ''allow_replan'',
                   ''allow_turning'', ''allow_lateral_motion'']) (\<lambda>flags.
          sbind (edge_numbers d) (\<lambda>(speed, risk, limit, wait, penalty).
            Inr \<lparr>ed_id = identifier, ed_from = source, ed_to = target, ed_type = kind,
                 ed_bidirectional = flags ! 0, ed_manual = flags ! 1, ed_autonomous = flags ! 2, ed_replan = flags ! 3,
                 ed_turning = flags ! 4, ed_lateral = flags ! 5, ed_polyline = points,
                 ed_distance = py_round 6 measured, ed_speed = speed, ed_risk = risk, ed_requirements = requirements,
                 ed_limit = limit, ed_wait = wait, ed_penalty = penalty\<rparr>))))))))))))
      | _ \<Rightarrow> graph_error ''route graph edge schema is invalid'')"

fun normalize_edges :: "libm \<Rightarrow> geometry option \<Rightarrow> (string \<times> pose) list \<Rightarrow> node list \<Rightarrow> string list \<Rightarrow> nat
    \<Rightarrow> pyval list \<Rightarrow> exn + edge list" where
  "normalize_edges L geometry poses nodes seen used [] = Inr []"
| "normalize_edges L geometry poses nodes seen used (raw # raws) =
     sbind (normalize_edge L geometry poses nodes seen used raw) (\<lambda>e.
     sbind (normalize_edges L geometry poses nodes (ed_id e # seen) (used + length (ed_polyline e)) raws) (\<lambda>es.
       Inr (e # es)))"

subsection \<open>The document\<close>

record route_graph =
  gr_map :: string
  gr_map_revision :: string
  gr_annotation :: string
  gr_nodes :: "node list"
  gr_edges :: "edge list"
  gr_revision :: string

definition node_value :: "node \<Rightarrow> pydict" where
  "node_value n =
     [(''id'', VStr (nd_id n)), (''annotation_id'', VStr (nd_annotation n)), (''role'', VStr (nd_role n)),
      (''zone_id'', opt_str (nd_zone n)), (''venue_id'', opt_str (nd_venue n)), (''label'', VStr (nd_label n)),
      (''manual_guidance'', VBool (nd_manual n)), (''autonomous_eligible'', VBool (nd_autonomous n))]"

definition float_value :: "rat \<Rightarrow> pyval" where
  "float_value x = VFloat (Fin x)"

definition point_value :: "rat \<times> rat \<Rightarrow> pyval" where
  "point_value p = VDict [(''x'', float_value (fst p)), (''y'', float_value (snd p))]"

definition edge_value :: "edge \<Rightarrow> pydict" where
  "edge_value e =
     [(''id'', VStr (ed_id e)), (''from'', VStr (ed_from e)), (''to'', VStr (ed_to e)), (''type'', VStr (ed_type e)),
      (''bidirectional'', VBool (ed_bidirectional e)), (''allow_manual'', VBool (ed_manual e)),
      (''allow_autonomous'', VBool (ed_autonomous e)), (''allow_replan'', VBool (ed_replan e)),
      (''allow_turning'', VBool (ed_turning e)), (''allow_lateral_motion'', VBool (ed_lateral e)),
      (''polyline'', VList (map point_value (ed_polyline e))), (''distance_m'', float_value (ed_distance e)),
      (''nominal_speed_mps'', float_value (ed_speed e)), (''risk'', float_value (ed_risk e)),
      (''requirements'', VList (map VStr (ed_requirements e))), (''speed_limit_mps'', float_value (ed_limit e)),
      (''expected_wait_s'', float_value (ed_wait e)), (''penalty_risk'', float_value (ed_penalty e))]"

text \<open>The six keys the revision covers, which are also the keys of a payload.\<close>

definition graph_value :: "route_graph \<Rightarrow> pydict" where
  "graph_value g =
     [(''schema_version'', VInt 1), (''map_id'', VStr (gr_map g)), (''map_revision'', VStr (gr_map_revision g)),
      (''annotation_revision'', VStr (gr_annotation g)), (''nodes'', VList (map (VDict \<circ> node_value) (gr_nodes g))),
      (''edges'', VList (map (VDict \<circ> edge_value) (gr_edges g)))]"

definition check_pins :: "pydict \<Rightarrow> geometry option \<Rightarrow> pydict \<Rightarrow> exn + unit" where
  "check_pins annotations geometry d =
     sbind (insist (keys_are d [''schema_version'', ''map_id'', ''map_revision'', ''annotation_revision'', ''nodes'', ''edges''])
              ''route graph schema is invalid'') (\<lambda>_.
     sbind (insist (py_eq (dget d ''schema_version'') (VInt 1)) ''route graph schema version is unsupported'') (\<lambda>_.
     sbind (insist (hex_text 24 (dget d ''map_id'')) ''route graph map id is invalid'') (\<lambda>_.
     sbind (insist (hex_text 64 (dget d ''map_revision'')) ''route graph map revision is invalid'') (\<lambda>_.
     sbind (insist (hex_text 64 (dget d ''annotation_revision'')) ''route graph annotation revision is invalid'') (\<lambda>_.
     sbind (insist (dget annotations ''map_id'' = dget d ''map_id'' \<and> dget annotations ''map_revision'' = dget d ''map_revision''
              \<and> dget annotations ''annotation_revision'' = dget d ''annotation_revision'')
              ''route graph annotation pins changed'') (\<lambda>_.
       insist (case geometry of None \<Rightarrow> True
                | Some g \<Rightarrow> ge_map g = str_val (dget d ''map_id'') \<and> ge_revision g = str_val (dget d ''map_revision''))
         ''route graph map geometry pins changed''))))))"

definition between :: "nat \<Rightarrow> nat \<Rightarrow> pyval \<Rightarrow> string \<Rightarrow> exn + pyval list" where
  "between low high value message =
     (case value of VList xs \<Rightarrow> if low \<le> length xs \<and> length xs \<le> high then Inr xs else graph_error message
      | _ \<Rightarrow> graph_error message)"

definition touched :: "edge list \<Rightarrow> string set" where
  "touched es = ed_from ` set es \<union> ed_to ` set es"

definition normalize_graph :: "libm \<Rightarrow> (pydict \<Rightarrow> string) \<Rightarrow> (pydict \<Rightarrow> nat) \<Rightarrow> pydict \<Rightarrow> geometry option \<Rightarrow> pyval
    \<Rightarrow> exn + route_graph" where
  "normalize_graph L digest bytes annotations geometry payload =
     (case payload of
        VDict d \<Rightarrow>
          sbind (check_pins annotations geometry d) (\<lambda>_.
          sbind (between 2 MAX_NODES (dget d ''nodes'') ''route graph must contain 2 to 128 nodes'') (\<lambda>raw_nodes.
          sbind (between 1 MAX_EDGES (dget d ''edges'') ''route graph must contain 1 to 512 edges'') (\<lambda>raw_edges.
          sbind (pose_index annotations) (\<lambda>poses.
          sbind (normalize_nodes poses [] raw_nodes) (\<lambda>nodes.
          sbind (normalize_edges L geometry poses nodes [] 0 raw_edges) (\<lambda>edges.
          sbind (insist (list_all (\<lambda>n. nd_id n \<in> touched edges) nodes) ''route graph contains an isolated node'') (\<lambda>_.
          let g = \<lparr>gr_map = str_val (dget d ''map_id''), gr_map_revision = str_val (dget d ''map_revision''),
                   gr_annotation = str_val (dget d ''annotation_revision''), gr_nodes = nodes, gr_edges = edges, gr_revision = []\<rparr>;
              g = g\<lparr>gr_revision := digest (graph_value g)\<rparr>
          in sbind (insist (bytes (graph_value g @ [(''graph_revision'', VStr (gr_revision g))]) \<le> MAX_GRAPH_BYTES)
                      ''route graph exceeds the size limit'') (\<lambda>_. Inr g))))))))
      | _ \<Rightarrow> graph_error ''route graph schema is invalid'')"

text \<open>\<^verbatim>\<open>node_poses\<close>\<close>

definition node_poses :: "route_graph \<Rightarrow> pydict \<Rightarrow> exn + (string \<times> pose) list" where
  "node_poses g annotations =
     sbind (pose_index annotations) (\<lambda>poses.
       Inr (foldl (\<lambda>r n. case map_of poses (nd_annotation n) of None \<Rightarrow> r | Some q \<Rightarrow> dput (nd_id n) q r) [] (gr_nodes g)))"

end
