(* ===== verification/Route_Graph_Claims.thy ===== *)
theory Route_Graph_Claims
  imports Route_Graph
begin

text \<open>
  The properties of the validation of route graphs: what every accepted graph satisfies, and when it is accepted
  again as it was stored.
\<close>

subsection \<open>Accepted values\<close>

definition node_ok :: "node \<Rightarrow> bool" where
  "node_ok n \<longleftrightarrow> is_graph_id (nd_id n) \<and> is_hex_n 24 (nd_annotation n) \<and> nd_role n \<in> set NODE_ROLES
     \<and> (\<forall>z. nd_zone n = Some z \<longrightarrow> is_graph_id z) \<and> (\<forall>v. nd_venue n = Some v \<longrightarrow> is_graph_id v)"

definition edge_ok :: "string set \<Rightarrow> edge \<Rightarrow> bool" where
  "edge_ok ids e \<longleftrightarrow> is_graph_id (ed_id e) \<and> is_graph_id (ed_from e) \<and> is_graph_id (ed_to e) \<and> ed_from e \<in> ids \<and> ed_to e \<in> ids \<and> ed_from e \<noteq> ed_to e
     \<and> ed_type e \<in> set EDGE_TYPES \<and> set (ed_requirements e) \<subseteq> set REQUIREMENTS \<and> distinct (ed_requirements e)
     \<and> 2 \<le> length (ed_polyline e) \<and> length (ed_polyline e) \<le> MAX_POLYLINE_POINTS
     \<and> fl (1 / 100) \<le> ed_speed e \<and> ed_speed e \<le> 3 \<and> fl (1 / 100) \<le> ed_limit e \<and> ed_limit e \<le> 3
     \<and> 0 \<le> ed_risk e \<and> ed_risk e \<le> 100 \<and> 0 \<le> ed_penalty e \<and> ed_penalty e \<le> 100 \<and> 0 \<le> ed_wait e \<and> ed_wait e \<le> 600"

definition graph_ok :: "route_graph \<Rightarrow> bool" where
  "graph_ok g \<longleftrightarrow> 2 \<le> length (gr_nodes g) \<and> length (gr_nodes g) \<le> MAX_NODES
     \<and> 1 \<le> length (gr_edges g) \<and> length (gr_edges g) \<le> MAX_EDGES
     \<and> distinct (map nd_id (gr_nodes g)) \<and> distinct (map ed_id (gr_edges g))
     \<and> list_all node_ok (gr_nodes g) \<and> list_all (edge_ok (nd_id ` set (gr_nodes g))) (gr_edges g)
     \<and> sum_list (map (length \<circ> ed_polyline) (gr_edges g)) \<le> MAX_TOTAL_POLYLINE_POINTS
     \<and> nd_id ` set (gr_nodes g) = touched (gr_edges g)"

lemma graph_error_simps [simp]: "graph_error m = Inl (RouteGraphError m)"
  by (simp add: graph_error_def)

lemma graph_token_Inr: "graph_token v f = Inr s \<longleftrightarrow> v = VStr s \<and> is_graph_id s"
  by (cases v) (auto simp: graph_token_def)

lemma optional_token_Inr: "optional_token v f = Inr z \<longleftrightarrow> v = opt_str z \<and> (\<forall>s. z = Some s \<longrightarrow> is_graph_id s)"
  by (cases z) (auto simp: optional_token_def sbind_Inr_iff graph_token_Inr opt_str_def)

lemma one_of_Inr: "one_of v names m = Inr s \<longleftrightarrow> v = VStr s \<and> s \<in> set names"
  by (cases v) (auto simp: one_of_def in_str_set_def)

lemma hex_text_iff: "hex_text n v \<longleftrightarrow> (\<exists>s. v = VStr s \<and> is_hex_n n s)"
  by (cases v) (auto simp: hex_text_def)

lemma graph_number_Inr:
  assumes "graph_number v f low high = Inr x"
  obtains q where "py_float v = Inr (Fin q)" "low \<le> q" "q \<le> high" "x = py_round 6 q"
proof -
  from assms obtain g where g: "py_float v = Inr g" "is_finite g" "low \<le> fin_val g" "fin_val g \<le> high" "x = py_round 6 (fin_val g)"
    by (auto simp: graph_number_def sbind_Inr_iff split: if_splits)
  then show thesis by (cases g) (auto intro: that)
qed

lemma py_round_hundredth: "py_round 6 (fl (1 / 100)) = fl (1 / 100)"
proof -
  have "\<bar>fl (1 / 100) - 1 / 100\<bar> \<le> pow2 (0 - 53)" by (rule fl_near) (simp_all add: pow2_def)
  then have near: "\<bar>fl (1 / 100) - 1 / 100\<bar> \<le> 1 / 9007199254740992" by (simp add: pow2_def)
  have "\<bar>a * 1000000 - 10000\<bar> < 1 / 2" if "\<bar>a - 1 / 100\<bar> \<le> 1 / 9007199254740992" for a :: rat
    using that by linarith
  from this [OF near] have "\<bar>fl (1 / 100) * 10 ^ 6 - of_int 10000\<bar> < 1 / 2" by simp
  then have "round_half_even (fl (1 / 100) * 10 ^ 6) = 10000" by (rule round_half_even_near)
  then show ?thesis by (simp add: py_round_def)
qed

lemma number_between:
  assumes "graph_number v f low high = Inr x" "py_round 6 low = low" "py_round 6 high = high"
  shows "low \<le> x" "x \<le> high"
  using assms(1) py_round_mono [of low _ 6] py_round_mono [of _ high 6] assms(2,3)
  by (metis graph_number_Inr)+

lemma py_round_numeral: "py_round 6 0 = 0" "py_round 6 3 = 3" "py_round 6 100 = 100" "py_round 6 600 = 600"
    "py_round 6 100000 = 100000" "py_round 6 million = million"
  using py_round_of_int [of 0 6] py_round_of_int [of 3 6] py_round_of_int [of 100 6] py_round_of_int [of 600 6]
    py_round_of_int [of 100000 6] py_round_of_int [of 1000000 6] by (simp_all add: million_def)

lemmas in_range = number_between [OF _ py_round_hundredth py_round_numeral(2)] number_between [OF _ py_round_numeral(1,3)]
  number_between [OF _ py_round_numeral(1,4)]

lemma edge_numbers_ok:
  assumes "edge_numbers d = Inr (speed, risk, limit, wait, penalty)"
  shows "fl (1 / 100) \<le> speed \<and> speed \<le> 3" "0 \<le> risk \<and> risk \<le> 100" "fl (1 / 100) \<le> limit \<and> limit \<le> 3"
    "0 \<le> wait \<and> wait \<le> 600" "0 \<le> penalty \<and> penalty \<le> 100"
proof -
  from assms have n: "graph_number (dget d ''nominal_speed_mps'') ''edge nominal speed'' (fl (1 / 100)) 3 = Inr speed"
    "graph_number (dget d ''risk'') ''edge risk'' 0 100 = Inr risk"
    "graph_number (dget d ''speed_limit_mps'') ''edge speed limit'' (fl (1 / 100)) 3 = Inr limit"
    "graph_number (dget d ''expected_wait_s'') ''edge expected wait'' 0 600 = Inr wait"
    "graph_number (dget d ''penalty_risk'') ''edge penalty risk'' 0 100 = Inr penalty"
    by (auto simp: edge_numbers_def sbind_Inr_iff)
  show "fl (1 / 100) \<le> speed \<and> speed \<le> 3" using in_range(1,2) [OF n(1)] ..
  show "0 \<le> risk \<and> risk \<le> 100" using in_range(3,4) [OF n(2)] ..
  show "fl (1 / 100) \<le> limit \<and> limit \<le> 3" using in_range(1,2) [OF n(3)] ..
  show "0 \<le> wait \<and> wait \<le> 600" using in_range(5,6) [OF n(4)] ..
  show "0 \<le> penalty \<and> penalty \<le> 100" using in_range(3,4) [OF n(5)] ..
qed

subsection \<open>What the loops leave\<close>

lemma graph_label_Inr: "graph_label v = Inr s \<longleftrightarrow>
    (\<exists>t. v = VStr t \<and> s = strip t \<and> s \<noteq> [] \<and> length s \<le> 64 \<and> \<not> list_ex is_control s)"
  by (cases v) (auto simp: graph_label_def Let_def)

lemma normalize_node_cases:
  assumes "normalize_node poses seen raw = Inr n"
  shows "node_ok n" "nd_annotation n \<in> fst ` set poses" "nd_id n \<notin> set seen"
    "graph_label (VStr (nd_label n)) = Inr (nd_label n)"
proof -
  from assms obtain d where d: "raw = VDict d" by (cases raw) (auto simp: normalize_node_def)
  show "node_ok n" "nd_annotation n \<in> fst ` set poses" "nd_id n \<notin> set seen"
    "graph_label (VStr (nd_label n)) = Inr (nd_label n)"
    using assms unfolding d
    by (auto simp: normalize_node_def sbind_Inr_iff graph_token_Inr optional_token_Inr one_of_Inr hex_text_iff node_ok_def
        graph_label_Inr intro: fst_of_pair)
qed

lemma normalize_node_again:
  assumes "node_ok n" "nd_annotation n \<in> fst ` set poses" "nd_id n \<notin> set seen"
    "graph_label (VStr (nd_label n)) = Inr (nd_label n)"
  shows "normalize_node poses seen (VDict (node_value n)) = Inr n"
proof -
  have zone: "optional_token (opt_str (nd_zone n)) f = Inr (nd_zone n)" "optional_token (opt_str (nd_venue n)) f = Inr (nd_venue n)" for f
    using assms(1) by (auto simp: optional_token_Inr node_ok_def)
  have id: "graph_token (VStr (nd_id n)) f = Inr (nd_id n)" "one_of (VStr (nd_role n)) NODE_ROLES m = Inr (nd_role n)" for f m
    using assms(1) by (auto simp: graph_token_Inr one_of_Inr node_ok_def)
  show ?thesis using assms zone id
    by (simp add: normalize_node_def node_value_def keys_are_def dget_def dget_or_def hex_text_def node_ok_def insert_commute)
qed

lemma normalize_nodes_cases:
  assumes "normalize_nodes poses seen raws = Inr ns"
  shows "list_all node_ok ns" "length ns = length raws" "distinct (map nd_id ns)" "nd_id ` set ns \<inter> set seen = {}"
    "normalize_nodes poses seen (map (VDict \<circ> node_value) ns) = Inr ns"
proof -
  have "list_all node_ok ns \<and> length ns = length raws \<and> distinct (map nd_id ns) \<and> nd_id ` set ns \<inter> set seen = {}
      \<and> normalize_nodes poses seen (map (VDict \<circ> node_value) ns) = Inr ns"
    using assms
  proof (induction raws arbitrary: seen ns)
    case (Cons raw raws)
    then obtain n ns' where n: "normalize_node poses seen raw = Inr n" "normalize_nodes poses (nd_id n # seen) raws = Inr ns'"
      "ns = n # ns'" by (auto simp: sbind_Inr_iff)
    from Cons.IH [OF n(2)] normalize_node_cases [OF n(1)] normalize_node_again show ?case by (auto simp: n(3))
  qed simp
  then show "list_all node_ok ns" "length ns = length raws" "distinct (map nd_id ns)" "nd_id ` set ns \<inter> set seen = {}"
    "normalize_nodes poses seen (map (VDict \<circ> node_value) ns) = Inr ns" by blast+
qed

text \<open>An edge, as the conditions of the loop over the edges leave it.\<close>

definition edge_accepted :: "libm \<Rightarrow> geometry option \<Rightarrow> (string \<times> pose) list \<Rightarrow> node list \<Rightarrow> edge \<Rightarrow> bool" where
  "edge_accepted L geometry poses nodes e \<longleftrightarrow> edge_ok (nd_id ` set nodes) e
     \<and> list_all (\<lambda>(x, y). py_round 6 x = x \<and> py_round 6 y = y \<and> \<bar>x\<bar> \<le> million \<and> \<bar>y\<bar> \<le> million \<and> on_map geometry x y) (ed_polyline e)
     \<and> (\<exists>supplied. check_course L geometry poses nodes (ed_from e) (ed_to e) (ed_polyline e) supplied
                    = Inr (measured_length L (ed_polyline e)))
     \<and> ed_distance e = py_round 6 (measured_length L (ed_polyline e))
     \<and> list_all (\<lambda>x. py_round 6 x = x) [ed_speed e, ed_risk e, ed_limit e, ed_wait e, ed_penalty e]"

lemma number_bounded:
  assumes "graph_number v f low high = Inr x" "- (2 ^ 30) \<le> low" "high \<le> 2 ^ 30"
  shows "py_round 6 x = x"
proof -
  from assms(1) obtain q where "low \<le> q" "q \<le> high" "x = py_round 6 q" by (rule graph_number_Inr)
  then show ?thesis using assms(2,3) by (simp add: py_round_again abs_le_iff)
qed

lemma py_round_million: "py_round 6 (- million) = - million"
  using py_round_of_int [of "- 1000000" 6] by (simp add: million_def)

lemmas coordinate = number_between [OF _ py_round_million py_round_numeral(6)]
  number_bounded [of _ _ "- million" million]

lemma edge_point_Inr:
  assumes "edge_point geometry raw = Inr (x, y)"
  shows "py_round 6 x = x \<and> py_round 6 y = y \<and> \<bar>x\<bar> \<le> million \<and> \<bar>y\<bar> \<le> million \<and> on_map geometry x y"
proof -
  from assms obtain p where p: "raw = VDict p" by (cases raw) (auto simp: edge_point_def)
  with assms have n: "graph_number (dget p ''x'') ''polyline x'' (- million) million = Inr x"
    "graph_number (dget p ''y'') ''polyline y'' (- million) million = Inr y" "on_map geometry x y"
    by (auto simp: edge_point_def sbind_Inr_iff)
  show ?thesis
    using coordinate [OF n(1)] coordinate [OF n(2)] n(3) by (simp add: million_def abs_le_iff)
qed

lemma edge_points_Inr:
  assumes "map_exn (edge_point geometry) raws = Inr points"
  shows "list_all (\<lambda>(x, y). py_round 6 x = x \<and> py_round 6 y = y \<and> \<bar>x\<bar> \<le> million \<and> \<bar>y\<bar> \<le> million \<and> on_map geometry x y) points"
    "length points = length raws"
proof -
  show "list_all (\<lambda>(x, y). py_round 6 x = x \<and> py_round 6 y = y \<and> \<bar>x\<bar> \<le> million \<and> \<bar>y\<bar> \<le> million \<and> on_map geometry x y) points"
    using assms by (rule map_exn_all [rotated]) (auto simp: edge_point_Inr)
  show "length points = length raws" using assms
    by (induction raws arbitrary: points) (auto simp: sbind_Inr_iff)
qed

lemma edge_requirements_Inr: "edge_requirements v = Inr names \<longleftrightarrow>
    v = VList (map VStr names) \<and> set names \<subseteq> set REQUIREMENTS \<and> distinct names \<and> length names \<le> length REQUIREMENTS"
proof -
  have m: "map_exn (\<lambda>item. one_of item ns m) items = Inr xs \<longleftrightarrow> items = map VStr xs \<and> set xs \<subseteq> set ns" for items xs ns m
    by (induction items arbitrary: xs) (auto simp: sbind_Inr_iff one_of_Inr)
  show ?thesis by (cases v) (auto simp: edge_requirements_def sbind_Inr_iff m)
qed

lemma edge_polyline_Inr:
  assumes "edge_polyline geometry used v = Inr points"
  obtains raws where "v = VList raws" "2 \<le> length points" "length points \<le> MAX_POLYLINE_POINTS"
    "used + length points \<le> MAX_TOTAL_POLYLINE_POINTS" "map_exn (edge_point geometry) raws = Inr points"
proof -
  from assms obtain raws where "v = VList raws" by (cases v) (auto simp: edge_polyline_def)
  with assms show thesis
    by (intro that [of raws]) (auto simp: edge_polyline_def sbind_Inr_iff dest: edge_points_Inr(2))
qed

lemma check_course_measured: "check_course L geometry poses nodes s t points v = Inr m \<Longrightarrow> m = measured_length L points"
  by (auto simp: check_course_def Let_def sbind_Inr_iff)

lemma normalize_edge_cases:
  assumes "normalize_edge L geometry poses nodes seen used raw = Inr e"
  shows "edge_accepted L geometry poses nodes e" "ed_id e \<notin> set seen"
    "used + length (ed_polyline e) \<le> MAX_TOTAL_POLYLINE_POINTS"
proof -
  from assms obtain d where d: "raw = VDict d" by (cases raw) (auto simp: normalize_edge_def)
  from assms [unfolded d] obtain fs speed risk limit wait penalty where n:
    "is_graph_id (ed_id e)" "is_graph_id (ed_from e)" "is_graph_id (ed_to e)" "ed_id e \<notin> set seen" "ed_from e \<in> nd_id ` set nodes" "ed_to e \<in> nd_id ` set nodes"
    "ed_from e \<noteq> ed_to e" "ed_type e \<in> set EDGE_TYPES" "edge_requirements (dget d ''requirements'') = Inr (ed_requirements e)"
    "edge_polyline geometry used (dget d ''polyline'') = Inr (ed_polyline e)"
    "\<exists>m. check_course L geometry poses nodes (ed_from e) (ed_to e) (ed_polyline e) (dget d ''distance_m'') = Inr m
       \<and> ed_distance e = py_round 6 m"
    "edge_numbers d = Inr (ed_speed e, ed_risk e, ed_limit e, ed_wait e, ed_penalty e)"
    by (auto simp: normalize_edge_def sbind_Inr_iff graph_token_Inr one_of_Inr split: prod.splits)
  from n(10) obtain raws where poly: "2 \<le> length (ed_polyline e)" "length (ed_polyline e) \<le> MAX_POLYLINE_POINTS"
    "used + length (ed_polyline e) \<le> MAX_TOTAL_POLYLINE_POINTS" "map_exn (edge_point geometry) raws = Inr (ed_polyline e)"
    by (rule edge_polyline_Inr)
  have nums: "list_all (\<lambda>x. py_round 6 x = x) [ed_speed e, ed_risk e, ed_limit e, ed_wait e, ed_penalty e]"
  proof -
    have "- (2 ^ 30) \<le> fl (1 / 100)" using fl_nonneg [of "1 / 100"] by simp
    with n(12) show ?thesis by (auto simp: edge_numbers_def sbind_Inr_iff intro: number_bounded)
  qed
  have req: "set (ed_requirements e) \<subseteq> set REQUIREMENTS \<and> distinct (ed_requirements e)"
    using n(9) by (simp add: edge_requirements_Inr)
  have ok: "edge_ok (nd_id ` set nodes) e"
    unfolding edge_ok_def using n(1-3,5-8) req poly(1,2) edge_numbers_ok [OF n(12)] by blast
  from n(11) obtain m where m: "check_course L geometry poses nodes (ed_from e) (ed_to e) (ed_polyline e) (dget d ''distance_m'') = Inr m"
    "ed_distance e = py_round 6 m" by blast
  note mm = check_course_measured [OF m(1)]
  show "edge_accepted L geometry poses nodes e"
    unfolding edge_accepted_def using ok edge_points_Inr(1) [OF poly(4)] m(1) m(2) nums unfolding mm by blast
  show "ed_id e \<notin> set seen" "used + length (ed_polyline e) \<le> MAX_TOTAL_POLYLINE_POINTS" by (fact n(4), fact poly(3))
qed

subsection \<open>Reading a stored graph back\<close>

lemma graph_number_again: "py_round 6 x = x \<Longrightarrow> low \<le> x \<Longrightarrow> x \<le> high \<Longrightarrow> graph_number (float_value x) f low high = Inr x"
  by (simp add: graph_number_def float_value_def)

lemma edge_points_again:
  assumes "list_all (\<lambda>(x, y). py_round 6 x = x \<and> py_round 6 y = y \<and> \<bar>x\<bar> \<le> million \<and> \<bar>y\<bar> \<le> million \<and> on_map geometry x y) points"
  shows "map_exn (edge_point geometry) (map point_value points) = Inr points"
  using assms
proof (induction points)
  case (Cons p points)
  obtain x y where p: "p = (x, y)" by (cases p)
  with Cons.prems have "- million \<le> x" "x \<le> million" "- million \<le> y" "y \<le> million" by (auto simp: abs_le_iff)
  with Cons.prems have "edge_point geometry (point_value p) = Inr p"
    by (simp add: p edge_point_def point_value_def keys_are_def dget_def dget_or_def graph_number_again)
  with Cons show ?case by simp
qed simp

definition distance_storable :: "edge \<Rightarrow> bool" where
  "distance_storable e \<longleftrightarrow> fl (1 / 1000) \<le> ed_distance e \<and> ed_distance e \<le> 100000"

lemma stored_distance_near:
  assumes "r = py_round 6 m" "fl (1 / 1000) \<le> r" "r \<le> 100000"
  shows "\<bar>fl (m - r)\<bar> \<le> fl (5 / 100)" "py_round 6 r = r"
proof -
  have "0 < r" using fl_pos [of "1 / 1000"] assms(2) by simp
  then have "0 < m" using py_round_mono [of m 0 6] py_round_numeral(1) assms(1) by (metis leD not_le)
  have "\<not> 131072 \<le> m"
    using py_round_mono [of 131072 m 6] py_round_of_int [of 131072 6] assms(1,3) by auto
  with \<open>0 < m\<close> have m: "\<bar>m\<bar> \<le> 2 ^ 30" by simp
  then show "py_round 6 r = r" by (simp add: assms(1) py_round_again)
  have "\<bar>r - m\<bar> \<le> 1 / 2 ^ 20" using py_round_near [OF m] assms(1) by simp
  then have near: "\<bar>r - m\<bar> \<le> 1 / 1048576" by simp
  have "m - r \<le> 5 / 100" "r - m \<le> 5 / 100" using near by linarith+
  then have "fl (m - r) \<le> fl (5 / 100)" "fl (r - m) \<le> fl (5 / 100)" by (simp_all only: fl_mono)
  moreover have "fl (r - m) = - fl (m - r)" using fl_minus [of "m - r"] by simp
  ultimately show "\<bar>fl (m - r)\<bar> \<le> fl (5 / 100)" by (simp add: abs_le_iff)
qed

lemma check_course_again:
  assumes "check_course L geometry poses nodes s t points v = Inr m" "py_round 6 m = r"
  shows "check_course L geometry poses nodes s t points (float_value r)
    = (if fl (1 / 1000) \<le> r \<and> r \<le> 100000 then Inr m
       else Inl (RouteGraphError ''edge distance is outside the supported range''))"
proof -
  from assms(1) obtain p q where p: "pose_at poses nodes s = Inr p" "pose_at poses nodes t = Inr q"
    "distance L p (hd points) \<le> endpoint_tolerance geometry" "distance L q (last points) \<le> endpoint_tolerance geometry"
    by (auto simp: check_course_def Let_def sbind_Inr_iff)
  have m: "m = measured_length L points" using check_course_measured [OF assms(1)] .
  show ?thesis
  proof (cases "fl (1 / 1000) \<le> r \<and> r \<le> 100000")
    case True
    from stored_distance_near [of r m] assms(2) True have "\<bar>fl (m - r)\<bar> \<le> fl (5 / 100)" "py_round 6 r = r" by auto
    with True p show ?thesis
      by (simp add: check_course_def Let_def m [symmetric] graph_number_again guard_def le_max_iff_disj)
  next
    case False
    with p show ?thesis by (auto simp: check_course_def Let_def graph_number_def float_value_def guard_def)
  qed
qed

lemma edge_numbers_again:
  assumes "edge_ok ids e" "list_all (\<lambda>x. py_round 6 x = x) [ed_speed e, ed_risk e, ed_limit e, ed_wait e, ed_penalty e]"
  shows "edge_numbers (edge_value e) = Inr (ed_speed e, ed_risk e, ed_limit e, ed_wait e, ed_penalty e)"
  using assms by (simp add: edge_numbers_def edge_value_def dget_def dget_or_def graph_number_again edge_ok_def)

text \<open>An edge submitted again, with another distance perhaps.\<close>

definition edge_shape_ok :: "geometry option \<Rightarrow> node list \<Rightarrow> edge \<Rightarrow> bool" where
  "edge_shape_ok geometry nodes e \<longleftrightarrow> edge_ok (nd_id ` set nodes) e
     \<and> list_all (\<lambda>(x, y). py_round 6 x = x \<and> py_round 6 y = y \<and> \<bar>x\<bar> \<le> million \<and> \<bar>y\<bar> \<le> million \<and> on_map geometry x y) (ed_polyline e)
     \<and> list_all (\<lambda>x. py_round 6 x = x) [ed_speed e, ed_risk e, ed_limit e, ed_wait e, ed_penalty e]"

lemma edge_fields:
  "dget (dput ''distance_m'' v (edge_value e)) k = (if k = ''distance_m'' then v else dget (edge_value e) k)"
  "keys_are (dput ''distance_m'' v (edge_value e)) EDGE_KEYS"
  by (simp add: dget_def dget_or_def, simp add: keys_are_def edge_value_def EDGE_KEYS_def insert_commute)

lemma normalize_edge_resubmitted:
  assumes shape: "edge_shape_ok geometry nodes e" and fresh: "ed_id e \<notin> set seen"
    and room: "used + length (ed_polyline e) \<le> MAX_TOTAL_POLYLINE_POINTS"
  shows "normalize_edge L geometry poses nodes seen used (VDict (dput ''distance_m'' v (edge_value e)))
    = sbind (check_course L geometry poses nodes (ed_from e) (ed_to e) (ed_polyline e) v) (\<lambda>m. Inr (e\<lparr>ed_distance := py_round 6 m\<rparr>))"
proof -
  have ok: "edge_ok (nd_id ` set nodes) e" using shape by (simp add: edge_shape_ok_def)
  have points: "edge_polyline geometry used (VList (map point_value (ed_polyline e))) = Inr (ed_polyline e)"
    using room shape ok edge_points_again by (simp add: edge_polyline_def edge_shape_ok_def edge_ok_def)
  have reqs: "edge_requirements (VList (map VStr (ed_requirements e))) = Inr (ed_requirements e)"
  proof -
    have d: "distinct (ed_requirements e)" "set (ed_requirements e) \<subseteq> set REQUIREMENTS" using ok by (simp_all add: edge_ok_def)
    have "card (set (ed_requirements e)) \<le> card (set REQUIREMENTS)" using d(2) by (intro card_mono) simp_all
    also have "\<dots> \<le> length REQUIREMENTS" by (rule card_length)
    finally have "length (ed_requirements e) \<le> length REQUIREMENTS" using distinct_card [OF d(1)] by simp
    with d show ?thesis by (simp add: edge_requirements_Inr)
  qed
  have fields: "dget (edge_value e) ''id'' = VStr (ed_id e)" "dget (edge_value e) ''from'' = VStr (ed_from e)"
    "dget (edge_value e) ''to'' = VStr (ed_to e)" "dget (edge_value e) ''type'' = VStr (ed_type e)"
    "dget (edge_value e) ''requirements'' = VList (map VStr (ed_requirements e))"
    "dget (edge_value e) ''polyline'' = VList (map point_value (ed_polyline e))"
    by (simp_all add: edge_value_def dget_def dget_or_def)
  have flags: "map_exn (edge_flag (dput ''distance_m'' v (edge_value e))) [''bidirectional'', ''allow_manual'', ''allow_autonomous'',
      ''allow_replan'', ''allow_turning'', ''allow_lateral_motion''] = Inr [ed_bidirectional e, ed_manual e, ed_autonomous e,
      ed_replan e, ed_turning e, ed_lateral e]"
    by (simp add: edge_flag_def edge_fields) (simp add: edge_value_def dget_def dget_or_def)
  have tokens: "graph_token (VStr (ed_id e)) f = Inr (ed_id e)" "graph_token (VStr (ed_from e)) f = Inr (ed_from e)"
    "graph_token (VStr (ed_to e)) f = Inr (ed_to e)" "one_of (VStr (ed_type e)) EDGE_TYPES m = Inr (ed_type e)" for f m
    using ok by (simp_all add: graph_token_Inr one_of_Inr edge_ok_def)
  have ends: "ed_from e \<in> nd_id ` set nodes" "ed_to e \<in> nd_id ` set nodes" "ed_from e \<noteq> ed_to e"
    using ok by (simp_all add: edge_ok_def)
  have "edge_numbers (dput ''distance_m'' v (edge_value e)) = edge_numbers (edge_value e)"
    by (simp add: edge_numbers_def edge_fields)
  with edge_numbers_again [OF ok] shape have nums: "edge_numbers (dput ''distance_m'' v (edge_value e))
      = Inr (ed_speed e, ed_risk e, ed_limit e, ed_wait e, ed_penalty e)" by (simp add: edge_shape_ok_def)
  show ?thesis
    unfolding normalize_edge_def pyval.case
    by (simp add: edge_fields fields tokens ends fresh reqs points flags nums del: map_exn.simps) (cases e, simp)
qed

lemma normalize_edge_again:
  assumes "edge_accepted L geometry poses nodes e" "ed_id e \<notin> set seen"
    "used + length (ed_polyline e) \<le> MAX_TOTAL_POLYLINE_POINTS"
  shows "normalize_edge L geometry poses nodes seen used (VDict (edge_value e))
    = (if distance_storable e then Inr e else Inl (RouteGraphError ''edge distance is outside the supported range''))"
proof -
  from assms(1) obtain v where c: "check_course L geometry poses nodes (ed_from e) (ed_to e) (ed_polyline e) v
      = Inr (measured_length L (ed_polyline e))" by (auto simp: edge_accepted_def)
  have dist: "ed_distance e = py_round 6 (measured_length L (ed_polyline e))" and shape: "edge_shape_ok geometry nodes e"
    using assms(1) by (auto simp: edge_accepted_def edge_shape_ok_def)
  have "dput ''distance_m'' (float_value (ed_distance e)) (edge_value e) = edge_value e" by (simp add: edge_value_def)
  with normalize_edge_resubmitted [OF shape assms(2,3), of L poses "float_value (ed_distance e)"]
    check_course_again [OF c dist [symmetric]]
  show ?thesis by (simp add: distance_storable_def dist [symmetric])
qed

lemma normalize_edges_cases:
  assumes "normalize_edges L geometry poses nodes seen used raws = Inr es" "used \<le> MAX_TOTAL_POLYLINE_POINTS"
  shows "list_all (edge_accepted L geometry poses nodes) es" "length es = length raws"
    "distinct (map ed_id es)" "ed_id ` set es \<inter> set seen = {}"
    "used + sum_list (map (length \<circ> ed_polyline) es) \<le> MAX_TOTAL_POLYLINE_POINTS"
proof -
  have "list_all (edge_accepted L geometry poses nodes) es \<and> length es = length raws
      \<and> distinct (map ed_id es) \<and> ed_id ` set es \<inter> set seen = {}
      \<and> used + sum_list (map (length \<circ> ed_polyline) es) \<le> MAX_TOTAL_POLYLINE_POINTS"
    using assms
  proof (induction raws arbitrary: seen used es)
    case (Cons raw raws)
    then obtain e es' where e: "normalize_edge L geometry poses nodes seen used raw = Inr e"
      "normalize_edges L geometry poses nodes (ed_id e # seen) (used + length (ed_polyline e)) raws = Inr es'"
      "es = e # es'" by (auto simp: sbind_Inr_iff)
    from Cons.IH [OF e(2)] normalize_edge_cases [OF e(1)] show ?case by (auto simp: e(3))
  qed simp
  then show "list_all (edge_accepted L geometry poses nodes) es" "length es = length raws"
    "distinct (map ed_id es)" "ed_id ` set es \<inter> set seen = {}"
    "used + sum_list (map (length \<circ> ed_polyline) es) \<le> MAX_TOTAL_POLYLINE_POINTS" by blast+
qed

lemma normalize_edges_again:
  assumes "list_all (edge_accepted L geometry poses nodes) es" "distinct (map ed_id es)" "ed_id ` set es \<inter> set seen = {}"
    "used + sum_list (map (length \<circ> ed_polyline) es) \<le> MAX_TOTAL_POLYLINE_POINTS"
  shows "normalize_edges L geometry poses nodes seen used (map (VDict \<circ> edge_value) es)
    = (if list_all distance_storable es then Inr es else Inl (RouteGraphError ''edge distance is outside the supported range''))"
  using assms
proof (induction es arbitrary: seen used)
  case (Cons e es)
  then have "normalize_edge L geometry poses nodes seen used (VDict (edge_value e))
    = (if distance_storable e then Inr e else Inl (RouteGraphError ''edge distance is outside the supported range''))"
    by (intro normalize_edge_again) auto
  moreover have "normalize_edges L geometry poses nodes (ed_id e # seen) (used + length (ed_polyline e)) (map (VDict \<circ> edge_value) es)
    = (if list_all distance_storable es then Inr es else Inl (RouteGraphError ''edge distance is outside the supported range''))"
    using Cons.prems by (intro Cons.IH) auto
  ultimately show ?case by (simp add: comp_def)
qed simp

text \<open>An accepted document, by the results of the steps.\<close>

lemma normalize_graph_cases:
  assumes "normalize_graph L digest bytes annotations geometry payload = Inr g"
  obtains d raw_nodes raw_edges poses where "payload = VDict d" "check_pins annotations geometry d = Inr ()"
    "dget d ''nodes'' = VList raw_nodes" "2 \<le> length raw_nodes" "length raw_nodes \<le> MAX_NODES"
    "dget d ''edges'' = VList raw_edges" "1 \<le> length raw_edges" "length raw_edges \<le> MAX_EDGES"
    "pose_index annotations = Inr poses" "normalize_nodes poses [] raw_nodes = Inr (gr_nodes g)"
    "normalize_edges L geometry poses (gr_nodes g) [] 0 raw_edges = Inr (gr_edges g)"
    "list_all (\<lambda>n. nd_id n \<in> touched (gr_edges g)) (gr_nodes g)"
    "dget d ''map_id'' = VStr (gr_map g)" "dget d ''map_revision'' = VStr (gr_map_revision g)"
    "dget d ''annotation_revision'' = VStr (gr_annotation g)" "gr_revision g = digest (graph_value g)"
    "bytes (graph_value g @ [(''graph_revision'', VStr (gr_revision g))]) \<le> MAX_GRAPH_BYTES"
proof -
  have b: "between low high v m = Inr xs \<Longrightarrow> v = VList xs \<and> low \<le> length xs \<and> length xs \<le> high" for low high v m xs
    by (cases v) (auto simp: between_def split: if_splits)
  from assms obtain d where d: "payload = VDict d" by (cases payload) (auto simp: normalize_graph_def)
  from assms obtain raw_nodes raw_edges poses where s: "check_pins annotations geometry d = Inr ()"
    "between 2 MAX_NODES (dget d ''nodes'') ''route graph must contain 2 to 128 nodes'' = Inr raw_nodes"
    "between 1 MAX_EDGES (dget d ''edges'') ''route graph must contain 1 to 512 edges'' = Inr raw_edges"
    "pose_index annotations = Inr poses" "normalize_nodes poses [] raw_nodes = Inr (gr_nodes g)"
    "normalize_edges L geometry poses (gr_nodes g) [] 0 raw_edges = Inr (gr_edges g)"
    "list_all (\<lambda>n. nd_id n \<in> touched (gr_edges g)) (gr_nodes g)"
    "gr_map g = str_val (dget d ''map_id'')" "gr_map_revision g = str_val (dget d ''map_revision'')"
    "gr_annotation g = str_val (dget d ''annotation_revision'')" "gr_revision g = digest (graph_value g)"
    "bytes (graph_value g @ [(''graph_revision'', VStr (gr_revision g))]) \<le> MAX_GRAPH_BYTES"
    unfolding d normalize_graph_def pyval.case Let_def
    by (auto simp: sbind_Inr_iff graph_value_def)
  from s(1) have "is_str (dget d ''map_id'')" "is_str (dget d ''map_revision'')" "is_str (dget d ''annotation_revision'')"
    by (auto simp: check_pins_def sbind_Inr_iff hex_text_def)
  then show thesis using that [OF d s(1) _ _ _ _ _ _ s(4-7)] b [OF s(2)] b [OF s(3)] s(8-12) by (auto simp: is_str_iff)
qed

lemma normalize_graph_ok:
  assumes "normalize_graph L digest bytes annotations geometry payload = Inr g"
  shows "graph_ok g \<and> gr_revision g = digest (graph_value g)"
proof -
  from assms obtain d raw_nodes raw_edges poses where g: "2 \<le> length raw_nodes" "length raw_nodes \<le> MAX_NODES"
    "1 \<le> length raw_edges" "length raw_edges \<le> MAX_EDGES" "normalize_nodes poses [] raw_nodes = Inr (gr_nodes g)"
    "normalize_edges L geometry poses (gr_nodes g) [] 0 raw_edges = Inr (gr_edges g)"
    "list_all (\<lambda>n. nd_id n \<in> touched (gr_edges g)) (gr_nodes g)" "gr_revision g = digest (graph_value g)"
    by (rule normalize_graph_cases)
  note n = normalize_nodes_cases [OF g(5)] and e = normalize_edges_cases [OF g(6)]
  have "list_all (edge_ok (nd_id ` set (gr_nodes g))) (gr_edges g)"
    using e(1) by (auto simp: list_all_iff edge_accepted_def)
  moreover from this have "nd_id ` set (gr_nodes g) = touched (gr_edges g)"
    using g(7) by (auto simp: touched_def list_all_iff edge_ok_def)
  ultimately show ?thesis
    unfolding graph_ok_def using g(1-4,8) n(1-3) e(2,3,5) by simp
qed

lemma graph_again:
  assumes "normalize_graph L digest bytes annotations geometry payload = Inr g"
  shows "normalize_graph L digest bytes annotations geometry (VDict (graph_value g))
    = (if list_all distance_storable (gr_edges g) then Inr g
       else Inl (RouteGraphError ''edge distance is outside the supported range''))"
proof -
  from assms obtain d raw_nodes raw_edges poses where g: "check_pins annotations geometry d = Inr ()"
    "2 \<le> length raw_nodes" "length raw_nodes \<le> MAX_NODES" "1 \<le> length raw_edges" "length raw_edges \<le> MAX_EDGES"
    "pose_index annotations = Inr poses" "normalize_nodes poses [] raw_nodes = Inr (gr_nodes g)"
    "normalize_edges L geometry poses (gr_nodes g) [] 0 raw_edges = Inr (gr_edges g)"
    "list_all (\<lambda>n. nd_id n \<in> touched (gr_edges g)) (gr_nodes g)"
    "dget d ''map_id'' = VStr (gr_map g)" "dget d ''map_revision'' = VStr (gr_map_revision g)"
    "dget d ''annotation_revision'' = VStr (gr_annotation g)" "gr_revision g = digest (graph_value g)"
    "bytes (graph_value g @ [(''graph_revision'', VStr (gr_revision g))]) \<le> MAX_GRAPH_BYTES"
    by (rule normalize_graph_cases)
  note n = normalize_nodes_cases [OF g(7)] and e = normalize_edges_cases [OF g(8)]
  have fields: "dget (graph_value g) ''nodes'' = VList (map (VDict \<circ> node_value) (gr_nodes g))"
    "dget (graph_value g) ''edges'' = VList (map (VDict \<circ> edge_value) (gr_edges g))"
    "dget (graph_value g) ''map_id'' = VStr (gr_map g)" "dget (graph_value g) ''map_revision'' = VStr (gr_map_revision g)"
    "dget (graph_value g) ''annotation_revision'' = VStr (gr_annotation g)" "dget (graph_value g) ''schema_version'' = VInt 1"
    by (simp_all add: graph_value_def dget_def dget_or_def)
  have keys: "keys_are (graph_value g) [''schema_version'', ''map_id'', ''map_revision'', ''annotation_revision'', ''nodes'', ''edges'']"
    by (simp add: keys_are_def graph_value_def insert_commute)
  have pins: "check_pins annotations geometry (graph_value g) = Inr ()"
    using g(1) keys by (cases geometry) (simp_all add: check_pins_def sbind_Inr_iff fields g(10-12) num_eq_def)
  have es: "normalize_edges L geometry poses (gr_nodes g) [] 0 (map (VDict \<circ> edge_value) (gr_edges g))
    = (if list_all distance_storable (gr_edges g) then Inr (gr_edges g)
       else Inl (RouteGraphError ''edge distance is outside the supported range''))"
    using e by (intro normalize_edges_again) simp_all
  have "g = \<lparr>gr_map = gr_map g, gr_map_revision = gr_map_revision g, gr_annotation = gr_annotation g, gr_nodes = gr_nodes g,
      gr_edges = gr_edges g, gr_revision = gr_revision g\<rparr>" by simp
  have v: "graph_value \<lparr>gr_map = gr_map g, gr_map_revision = gr_map_revision g, gr_annotation = gr_annotation g, gr_nodes = gr_nodes g,
      gr_edges = gr_edges g, gr_revision = r\<rparr> = graph_value g" for r by (simp add: graph_value_def)
  show ?thesis
    unfolding normalize_graph_def pyval.case Let_def fields
    using g(2-5,9) n(2) e(2)
    by (simp add: pins between_def g(6) n(5) es v g(13) [symmetric] g(14))
qed

subsection \<open>A graph of two nodes\<close>

definition manhattan :: libm where
  "manhattan = \<lparr>hypot = \<lambda>x y. \<bar>x\<bar> + \<bar>y\<bar>, atan2 = \<lambda>x y. 0, sin_of = \<lambda>x. 0, cos_of = \<lambda>x. 0\<rparr>"

definition key_a :: "nat \<Rightarrow> string" where "key_a n = replicate n (CHR ''a'')"
definition key_b :: "nat \<Rightarrow> string" where "key_b n = replicate n (CHR ''b'')"

definition demo_pose :: "string \<Rightarrow> int \<Rightarrow> pyval" where
  "demo_pose i x = VDict [(''id'', VStr i), (''pose'', VDict [(''x'', VInt x), (''y'', VInt 0)])]"

definition demo_annotations :: "int \<Rightarrow> pydict" where
  "demo_annotations w = [(''map_id'', VStr (key_a 24)), (''map_revision'', VStr (key_a 64)),
     (''annotation_revision'', VStr (key_b 64)), (''points'', VList [demo_pose (key_a 24) 0, demo_pose (key_b 24) w])]"

definition demo_place :: "string \<Rightarrow> string \<Rightarrow> string \<Rightarrow> string option \<Rightarrow> node" where
  "demo_place i a r v = \<lparr>nd_id = i, nd_annotation = a, nd_role = r, nd_zone = None, nd_venue = v, nd_label = ''Node'',
     nd_manual = True, nd_autonomous = True\<rparr>"

definition demo_edge :: "int \<Rightarrow> edge" where
  "demo_edge w = \<lparr>ed_id = ''AB'', ed_from = ''AA'', ed_to = ''BB'', ed_type = ''NORMAL_WALKWAY'', ed_bidirectional = True,
     ed_manual = True, ed_autonomous = True, ed_replan = True, ed_turning = False, ed_lateral = False,
     ed_polyline = [(0, 0), (of_int w, 0)], ed_distance = of_int w, ed_speed = 1, ed_risk = 0, ed_requirements = [],
     ed_limit = 1, ed_wait = 0, ed_penalty = 0\<rparr>"

definition demo_map :: "int \<Rightarrow> route_graph" where
  "demo_map w = \<lparr>gr_map = key_a 24, gr_map_revision = key_a 64, gr_annotation = key_b 64,
     gr_nodes = [demo_place ''AA'' (key_a 24) ''RESTAURANT_DOCK'' (Some ''DOMINO''),
                 demo_place ''BB'' (key_b 24) ''DESTINATION_DOCK'' (Some ''WHIMOON'')],
     gr_edges = [demo_edge w], gr_revision = ''r''\<rparr>"

text \<open>Its payload, with the distance of the edge as submitted.\<close>

definition demo_payload :: "int \<Rightarrow> rat \<Rightarrow> pyval" where
  "demo_payload w d = VDict (dput ''edges'' (VList [VDict (dput ''distance_m'' (float_value d) (edge_value (demo_edge w)))])
     (graph_value (demo_map w)))"

lemma hex_keys [simp]: "is_hex_n n (key_a n)" "is_hex_n n (key_b n)" "n \<noteq> 0 \<Longrightarrow> key_a n \<noteq> key_b n"
  by (auto simp: is_hex_n_def key_a_def key_b_def is_hex_def is_digit_def ord_def list_all_iff replicate_eq_replicate)

lemma number_of_int: "graph_number (VInt n) f low high = Inr (of_int n)" if "low \<le> of_int n" "of_int n \<le> high" "\<bar>n\<bar> \<le> 2 ^ 53"
  using that float_of_int_small [of n] by (simp add: graph_number_def py_round_of_int)

lemma demo_poses:
  assumes "w \<in> {0, 1}"
  shows "pose_index (demo_annotations w) = Inr [(key_a 24, (0, 0, 0)), (key_b 24, (of_int w, 0, 0))]"
proof -
  have z: "graph_number (VInt 0) f (- million) million = Inr 0" "graph_number (VInt w) f (- million) million = Inr (of_int w)" for f
    using assms number_of_int [of "- million" 0 million f] number_of_int [of "- million" w million f] by (auto simp: million_def)
  have yaw: "graph_number (VFloat (Fin 0)) f (- math_pi) math_pi = Inr 0" for f
    by (simp add: graph_number_def math_pi_def py_round_numeral)
  have p: "pose_value [(''x'', VInt 0), (''y'', VInt 0)] = Inr (0, 0, 0)" "pose_value [(''x'', VInt w), (''y'', VInt 0)] = Inr (of_int w, 0, 0)"
    by (simp_all add: pose_value_def dget_def dget_or_def z yaw)
  show ?thesis
    using hex_keys(3) [of 24]
    by (simp add: pose_index_def demo_annotations_def demo_pose_def add_point_def dget_def dget_or_def hex_text_def p graph_checked_def)
qed

lemma demo_place_again: "normalize_node poses seen (VDict (node_value (demo_place i a r v))) = Inr (demo_place i a r v)"
  if "a \<in> fst ` set poses" "i \<notin> set seen" "is_graph_id i" "is_hex_n 24 a" "r \<in> set NODE_ROLES" "\<forall>s. v = Some s \<longrightarrow> is_graph_id s"
proof (rule normalize_node_again)
  have "strip ''Node'' = ''Node''" "\<not> list_ex is_control ''Node''"
    by (simp_all add: strip_def is_space_def is_control_def ord_def)
  then show "graph_label (VStr (nd_label (demo_place i a r v))) = Inr (nd_label (demo_place i a r v))"
    by (simp add: demo_place_def graph_label_Inr)
qed (use that in \<open>simp_all add: demo_place_def node_ok_def\<close>)

lemma graph_ids: "is_graph_id ''AA''" "is_graph_id ''BB''" "is_graph_id ''AB''" "is_graph_id ''DOMINO''" "is_graph_id ''WHIMOON''"
  by (simp_all add: is_graph_id_def is_token_def is_upper_def ord_def)

lemma demo_course:
  assumes "(w, d) = (0, 1 / 32) \<or> (w, d) = (1, 1)"
  shows "check_course manhattan None [(key_a 24, (0, 0, 0)), (key_b 24, (of_int w, 0, 0))] (gr_nodes (demo_map w)) ''AA'' ''BB''
    [(0, 0), (of_int w, 0)] (float_value d) = Inr (of_int w)"
proof -
  have half: "py_round 6 (1 / 32) = 1 / 32"
    using round_half_even_of_int [of 31250] pow2_double [of "- 5"] by (simp add: py_round_def pow2_def is_double_def)
  have low: "fl (1 / 1000) \<le> 1 / 32" "1 / 32 \<le> fl (5 / 100)"
    using fl_le_double [of "1 / 32" "1 / 1000"] fl_ge_double [of "1 / 32" "5 / 100"] pow2_double [of "- 5"] by (simp_all add: pow2_def)
  have thirty: "fl (1 / 32) = 1 / 32" using pow2_double [of "- 5"] by (simp add: pow2_def is_double_def)
  note defs = check_course_def pose_at_def demo_map_def demo_place_def planar_def distance_def manhattan_def
    measured_length_def endpoint_tolerance_def graph_number_def float_value_def
  have "key_b 24 \<noteq> key_a 24" by (metis hex_keys(3) zero_neq_numeral)
  moreover have one: "py_round 6 1 = 1" using py_round_of_int [of 1 6] by simp
  ultimately show ?thesis using assms
  proof (elim disjE)
    assume a: "(w, d) = (0, 1 / 32)" "key_b 24 \<noteq> key_a 24"
    then have wd: "w = 0" "d = 1 / 32" by simp_all
    show ?thesis unfolding wd using a(2) low fl_nonneg [of "5 / 100"]
      by (simp add: defs half thirty le_max_iff_disj)
  next
    assume a: "(w, d) = (1, 1)" "key_b 24 \<noteq> key_a 24"
    then have wd: "w = 1" "d = 1" by simp_all
    show ?thesis unfolding wd using a(2) low fl_nonneg [of "5 / 100"] fl_le_double [of 1 "1 / 1000"]
      by (simp add: defs one le_max_iff_disj)
  qed
qed

lemma demo_accepted:
  assumes "(w, d) = (0, 1 / 32) \<or> (w, d) = (1, 1)"
  shows "normalize_graph manhattan (\<lambda>g. ''r'') (\<lambda>g. 0) (demo_annotations w) None (demo_payload w d) = Inr (demo_map w)"
proof -
  have w: "w \<in> {0, 1}" using assms by auto
  let ?poses = "[(key_a 24, (0, 0, 0)), (key_b 24, (of_int w, 0, 0))] :: (string \<times> pose) list"
  let ?d = "dput ''edges'' (VList [VDict (dput ''distance_m'' (float_value d) (edge_value (demo_edge w)))]) (graph_value (demo_map w))"
  have shape: "edge_shape_ok None (gr_nodes (demo_map w)) (demo_edge w)"
  proof -
    have "edge_ok (nd_id ` set (gr_nodes (demo_map w))) (demo_edge w)"
      using graph_ids fl_le_double [of 1 "1 / 100"]
      by (simp add: edge_ok_def demo_edge_def demo_map_def demo_place_def EDGE_TYPES_def MAX_POLYLINE_POINTS_def)
    then show ?thesis using w py_round_of_int [of 1 6]
      by (auto simp: edge_shape_ok_def demo_edge_def py_round_numeral million_def on_map_def)
  qed
  have e: "normalize_edge manhattan None ?poses (gr_nodes (demo_map w)) [] 0
      (VDict (dput ''distance_m'' (float_value d) (edge_value (demo_edge w)))) = Inr (demo_edge w)"
    using w demo_course [OF assms] py_round_of_int [of w 6] normalize_edge_resubmitted [OF shape, of "[]" 0 manhattan ?poses "float_value d"]
    by (auto simp: demo_edge_def MAX_TOTAL_POLYLINE_POINTS_def)
  have ns: "normalize_nodes ?poses [] (map (VDict \<circ> node_value) (gr_nodes (demo_map w))) = Inr (gr_nodes (demo_map w))"
    using graph_ids demo_place_again [of "key_a 24" ?poses "''AA''" "[]" "''RESTAURANT_DOCK''" "Some ''DOMINO''"]
      demo_place_again [of "key_b 24" ?poses "''BB''" "[''AA'']" "''DESTINATION_DOCK''" "Some ''WHIMOON''"]
    by (simp add: demo_map_def demo_place_def NODE_ROLES_def)
  have pins: "check_pins (demo_annotations w) None ?d = Inr ()"
    by (simp add: check_pins_def graph_value_def demo_map_def demo_annotations_def keys_are_def dget_def dget_or_def hex_text_def
        num_eq_def insert_commute)
  have fields: "dget ?d ''nodes'' = VList (map (VDict \<circ> node_value) (gr_nodes (demo_map w)))"
    "dget ?d ''edges'' = VList [VDict (dput ''distance_m'' (float_value d) (edge_value (demo_edge w)))]"
    "dget ?d ''map_id'' = VStr (key_a 24)" "dget ?d ''map_revision'' = VStr (key_a 64)" "dget ?d ''annotation_revision'' = VStr (key_b 64)"
    by (simp_all add: graph_value_def demo_map_def dget_def dget_or_def)
  have two: "length (gr_nodes (demo_map w)) = 2" "gr_edges (demo_map w) = [demo_edge w]" by (simp_all add: demo_map_def)
  have "list_all (\<lambda>n. nd_id n \<in> touched [demo_edge w]) (gr_nodes (demo_map w))"
    by (simp add: demo_map_def demo_place_def touched_def demo_edge_def)
  with e ns pins show ?thesis
    unfolding normalize_graph_def demo_payload_def pyval.case fields Let_def
    by (simp add: between_def two demo_poses [OF w] MAX_NODES_def MAX_EDGES_def) (simp add: demo_map_def)
qed

subsection \<open>The properties\<close>

text \<open>C32. Every graph the validation accepts has between 2 and 128 nodes and 1 and 512 edges with distinct ids, every edge joins
  two different nodes of it within the bounds on speed, risk and waiting, no node is isolated, the polylines have at most 4096 points,
  and the revision is the digest of the document.\<close>

theorem normalized_graph_ok:
  assumes "normalize_graph L digest bytes annotations geometry payload = Inr g"
  shows "graph_ok g \<and> gr_revision g = digest (graph_value g)"
  using assms by (rule normalize_graph_ok)

lemma normalized_graph_ok_witness: "graph_ok (demo_map 1) \<and> gr_revision (demo_map 1) = ''r''"
  using normalized_graph_ok [OF demo_accepted [of 1 1]] by simp

text \<open>C33. An accepted graph, submitted again as it was stored under the same annotations and geometry, is accepted unchanged, when
  every stored distance is between one millimetre and a hundred kilometres.\<close>

theorem stored_graph_reloads:
  assumes "normalize_graph L digest bytes annotations geometry payload = Inr g"
    "\<forall>e\<in>set (gr_edges g). fl (1 / 1000) \<le> ed_distance e \<and> ed_distance e \<le> 100000"
  shows "normalize_graph L digest bytes annotations geometry (VDict (graph_value g)) = Inr g"
proof -
  have "list_all distance_storable (gr_edges g)" using assms(2) by (simp add: list_all_iff distance_storable_def)
  with graph_again [OF assms(1)] show ?thesis by simp
qed

lemma stored_graph_reloads_witness:
  "normalize_graph manhattan (\<lambda>g. ''r'') (\<lambda>g. 0) (demo_annotations 1) None (VDict (graph_value (demo_map 1))) = Inr (demo_map 1)"
  using fl_le_double [of 1 "1 / 1000"]
  by (intro stored_graph_reloads [OF demo_accepted [of 1 1]]) (simp_all add: demo_map_def demo_edge_def)

text \<open>The stored distance is the measured one and not the submitted one, and only the submitted one is checked: a graph with an
  edge between two poses that round to the same place is accepted, and refused when it is submitted again as it was stored.\<close>

theorem short_edge_refused_back:
  assumes "normalize_graph L digest bytes annotations geometry payload = Inr g"
    "e \<in> set (gr_edges g)" "ed_distance e < fl (1 / 1000)"
  shows "normalize_graph L digest bytes annotations geometry (VDict (graph_value g))
    = Inl (RouteGraphError ''edge distance is outside the supported range'')"
proof -
  have "\<not> distance_storable e" using assms(3) by (simp add: distance_storable_def)
  with assms(2) have "\<not> list_all distance_storable (gr_edges g)" by (auto simp: list_all_iff)
  with graph_again [OF assms(1)] show ?thesis by simp
qed

lemma short_edge_refused_back_witness:
  "normalize_graph manhattan (\<lambda>g. ''r'') (\<lambda>g. 0) (demo_annotations 0) None (demo_payload 0 (1 / 32)) = Inr (demo_map 0)
   \<and> normalize_graph manhattan (\<lambda>g. ''r'') (\<lambda>g. 0) (demo_annotations 0) None (VDict (graph_value (demo_map 0)))
      = Inl (RouteGraphError ''edge distance is outside the supported range'')"
  using demo_accepted [of 0 "1 / 32"] fl_pos [of "1 / 1000"]
    short_edge_refused_back [OF demo_accepted [of 0 "1 / 32"], of "demo_edge 0"]
  by (simp add: demo_map_def demo_edge_def)

end
