(* ===== verification/Heapq.thy ===== *)
theory Heapq
  imports Prelude "HOL-Library.Multiset"
begin

text \<open>
  The part of Python's \<^verbatim>\<open>heapq\<close> the planners use: \<^verbatim>\<open>heappush\<close> and \<^verbatim>\<open>heappop\<close> on a list, with the
  comparisons the library makes, each of which may raise. The functions follow \<^verbatim>\<open>_siftdown\<close> and
  \<^verbatim>\<open>_siftup\<close> of the standard library: both move a hole, and the item is stored at the end.
\<close>

function siftdown :: "('a \<Rightarrow> 'a \<Rightarrow> exn + bool) \<Rightarrow> 'a list \<Rightarrow> 'a \<Rightarrow> nat \<Rightarrow> exn + 'a list" where
  "siftdown lt heap newitem pos =
     (if pos = 0 then Inr (heap[0 := newitem])
      else let parentpos = (pos - 1) div 2; parent = heap ! parentpos
           in sbind (lt newitem parent) (\<lambda>smaller.
              if smaller then siftdown lt (heap[pos := parent]) newitem parentpos
              else Inr (heap[pos := newitem])))"
  by pat_completeness auto
termination by (relation "measure (\<lambda>(lt, heap, newitem, pos). pos)") auto

function sink :: "('a \<Rightarrow> 'a \<Rightarrow> exn + bool) \<Rightarrow> 'a list \<Rightarrow> nat \<Rightarrow> exn + 'a list \<times> nat" where
  \<comment> \<open>the loop of \<^verbatim>\<open>_siftup\<close>: the hole moves to the smaller child until it is a leaf\<close>
  "sink lt heap pos =
     (let childpos = 2 * pos + 1
      in if length heap \<le> childpos then Inr (heap, pos)
      else sbind (if childpos + 1 < length heap
                  then sbind (lt (heap ! childpos) (heap ! (childpos + 1))) (\<lambda>b. Inr (if b then childpos else childpos + 1))
                  else Inr childpos) (\<lambda>child.
           sink lt (heap[pos := heap ! child]) child))"
  by pat_completeness auto
termination
  by (relation "measure (\<lambda>(lt, heap, pos). length heap - pos)")
     (auto simp: sbind_Inr_iff split: if_splits)

definition heappush :: "('a \<Rightarrow> 'a \<Rightarrow> exn + bool) \<Rightarrow> 'a \<Rightarrow> 'a list \<Rightarrow> exn + 'a list" where
  "heappush lt item heap = siftdown lt (heap @ [item]) item (length heap)"

definition heappop :: "('a \<Rightarrow> 'a \<Rightarrow> exn + bool) \<Rightarrow> 'a list \<Rightarrow> exn + 'a \<times> 'a list" where
  "heappop lt heap =
     (if heap = [] then Inl IndexError
      else let lastelt = last heap; rest = butlast heap
           in if rest = [] then Inr (lastelt, [])
              else sbind (sink lt (rest[0 := lastelt]) 0) (\<lambda>(h, pos).
                   sbind (siftdown lt h lastelt pos) (\<lambda>h. Inr (hd rest, h))))"

declare siftdown.simps [simp del] sink.simps [simp del]

text \<open>A loop of pushes.\<close>

fun push_all :: "('a \<Rightarrow> 'q \<Rightarrow> exn + 'q) \<Rightarrow> 'a list \<Rightarrow> 'q \<Rightarrow> exn + 'q" where
  "push_all push [] q = Inr q"
| "push_all push (x # xs) q = sbind (push x q) (push_all push xs)"

subsection \<open>The heap order with a hole\<close>

definition parent_of :: "nat \<Rightarrow> nat" where
  "parent_of k = (k - 1) div 2"

lemma parent_of_less [simp]: "0 < k \<Longrightarrow> parent_of k < k"
  by (simp add: parent_of_def)

lemma parent_of_child [simp]: "parent_of (2 * k + 1) = k" "parent_of (2 * k + 2) = k"
  "parent_of (Suc (2 * k)) = k" "parent_of (Suc (Suc (2 * k))) = k"
  by (simp_all add: parent_of_def)

lemma child_cases: "0 < k \<Longrightarrow> parent_of k = p \<Longrightarrow> k = 2 * p + 1 \<or> k = 2 * p + 2"
  by (auto simp: parent_of_def)

definition is_heap :: "('a \<Rightarrow> 'k::linorder) \<Rightarrow> 'a list \<Rightarrow> bool" where
  "is_heap key h \<longleftrightarrow> (\<forall>k. 0 < k \<and> k < length h \<longrightarrow> key (h ! parent_of k) \<le> key (h ! k))"

definition hole_heap :: "('a \<Rightarrow> 'k::linorder) \<Rightarrow> 'a list \<Rightarrow> nat \<Rightarrow> bool" where
  "hole_heap key h pos \<longleftrightarrow>
     (\<forall>k. 0 < k \<and> k < length h \<and> k \<noteq> pos \<and> parent_of k \<noteq> pos \<longrightarrow> key (h ! parent_of k) \<le> key (h ! k))
   \<and> (\<forall>k. 0 < pos \<and> 0 < k \<and> k < length h \<and> parent_of k = pos \<longrightarrow> key (h ! parent_of pos) \<le> key (h ! k))"

definition above_children :: "('a \<Rightarrow> 'k::linorder) \<Rightarrow> 'a \<Rightarrow> 'a list \<Rightarrow> nat \<Rightarrow> bool" where
  "above_children key x h pos \<longleftrightarrow> (\<forall>k. 0 < k \<and> k < length h \<and> parent_of k = pos \<longrightarrow> key x \<le> key (h ! k))"

text \<open>The comparison decides the order of the keys on a set of items, and raises on none of them.\<close>

definition compares :: "('a \<Rightarrow> 'a \<Rightarrow> exn + bool) \<Rightarrow> ('a \<Rightarrow> 'k::linorder) \<Rightarrow> 'a set \<Rightarrow> bool" where
  "compares lt key S \<longleftrightarrow> (\<forall>a\<in>S. \<forall>b\<in>S. lt a b = Inr (key a < key b))"

lemma compares_subset: "compares lt key S \<Longrightarrow> T \<subseteq> S \<Longrightarrow> compares lt key T"
  by (auto simp: compares_def)

lemma heap_root:
  assumes "is_heap key h" "k < length h"
  shows "key (h ! 0) \<le> key (h ! k)"
  using assms(2)
proof (induction k rule: less_induct)
  case (less k)
  show ?case
  proof (cases "k = 0")
    case False
    with less.IH [of "parent_of k"] less.prems have "key (h ! 0) \<le> key (h ! parent_of k)"
      by (meson gr0I less_trans parent_of_less)
    also have "\<dots> \<le> key (h ! k)" using assms(1) less.prems False by (simp add: is_heap_def)
    finally show ?thesis .
  qed simp
qed

lemma hole_filled:
  assumes "hole_heap key h pos" "above_children key x h pos" "pos < length h"
    "0 < pos \<Longrightarrow> key (h ! parent_of pos) \<le> key x"
  shows "is_heap key (h[pos := x])"
  unfolding is_heap_def
proof (intro allI impI)
  fix k
  assume k: "0 < k \<and> k < length (h[pos := x])"
  then have p: "parent_of k \<noteq> k" by (metis less_irrefl parent_of_less)
  consider "k = pos" | "k \<noteq> pos" "parent_of k = pos" | "k \<noteq> pos" "parent_of k \<noteq> pos" by blast
  then show "key (h[pos := x] ! parent_of k) \<le> key (h[pos := x] ! k)"
  proof cases
    case 1
    with k p assms(3,4) show ?thesis by simp
  next
    case 2
    with k assms(2,3) show ?thesis by (simp add: above_children_def)
  next
    case 3
    with k assms(1) show ?thesis by (simp add: hole_heap_def)
  qed
qed

lemma hole_up:
  assumes h: "hole_heap key h pos" and pos: "0 < pos" "pos < length h" and less: "key x < key (h ! parent_of pos)"
  shows "hole_heap key (h[pos := h ! parent_of pos]) (parent_of pos)"
    "above_children key x (h[pos := h ! parent_of pos]) (parent_of pos)"
proof -
  let ?p = "parent_of pos"
  have p: "?p < pos" using pos(1) by simp
  have sibling: "key (h ! ?p) \<le> key (h ! k)" if "0 < k" "k < length h" "parent_of k = ?p" "k \<noteq> pos" for k
    using h that p unfolding hole_heap_def by (metis less_irrefl)
  have grand: "key (h ! parent_of ?p) \<le> key (h ! ?p)" if "0 < ?p"
    using h that p pos unfolding hole_heap_def by (metis less_trans less_irrefl parent_of_less)
  show "above_children key x (h[pos := h ! ?p]) ?p"
    unfolding above_children_def
  proof (intro allI impI)
    fix k
    assume "0 < k \<and> k < length (h[pos := h ! ?p]) \<and> parent_of k = ?p"
    with sibling [of k] less pos show "key x \<le> key (h[pos := h ! ?p] ! k)" by (cases "k = pos") auto
  qed
  show "hole_heap key (h[pos := h ! ?p]) ?p"
    unfolding hole_heap_def
  proof (intro conjI allI impI)
    fix k
    assume k: "0 < k \<and> k < length (h[pos := h ! ?p]) \<and> k \<noteq> ?p \<and> parent_of k \<noteq> ?p"
    then have "k \<noteq> pos" by auto
    with k h pos show "key (h[pos := h ! ?p] ! parent_of k) \<le> key (h[pos := h ! ?p] ! k)"
      by (cases "parent_of k = pos") (simp_all add: hole_heap_def)
  next
    fix k
    assume k: "0 < ?p \<and> 0 < k \<and> k < length (h[pos := h ! ?p]) \<and> parent_of k = ?p"
    have "parent_of ?p \<noteq> pos" using k p by (metis less_trans less_irrefl parent_of_less)
    with k sibling [of k] grand pos show "key (h[pos := h ! ?p] ! parent_of ?p) \<le> key (h[pos := h ! ?p] ! k)"
      by (cases "k = pos") (auto intro: order_trans)
  qed
qed

lemma hole_down:
  assumes h: "hole_heap key h pos" and c: "c < length h" "parent_of c = pos" "0 < c"
    and least: "\<And>k. 0 < k \<Longrightarrow> k < length h \<Longrightarrow> parent_of k = pos \<Longrightarrow> key (h ! c) \<le> key (h ! k)"
  shows "hole_heap key (h[pos := h ! c]) c"
proof -
  have pc: "pos < c" using c(2,3) parent_of_less by blast
  show ?thesis
    unfolding hole_heap_def
  proof (intro conjI allI impI)
    fix k
    assume k: "0 < k \<and> k < length (h[pos := h ! c]) \<and> k \<noteq> c \<and> parent_of k \<noteq> c"
    then have "parent_of k \<noteq> k" by (metis less_irrefl parent_of_less)
    with k h c pc least [of k] show "key (h[pos := h ! c] ! parent_of k) \<le> key (h[pos := h ! c] ! k)"
      by (cases "k = pos"; cases "parent_of k = pos") (auto simp: hole_heap_def)
  next
    fix k
    assume k: "0 < c \<and> 0 < k \<and> k < length (h[pos := h ! c]) \<and> parent_of k = c"
    then have "c < k" using parent_of_less by blast
    with k h c pc show "key (h[pos := h ! c] ! parent_of c) \<le> key (h[pos := h ! c] ! k)"
      by (auto simp: hole_heap_def)
  qed
qed

subsection \<open>The sifts\<close>

lemma mset_hole_up:
  assumes "pos < length h" "q < length h" "q \<noteq> pos"
  shows "mset (h[pos := h ! q, q := x]) = mset (h[pos := x])"
  using mset_swap [of q "h[pos := x]" pos] assms by (simp add: list_update_swap)

lemma siftdown_correct:
  assumes "compares lt key (insert x (set h))" "pos < length h" "hole_heap key h pos" "above_children key x h pos"
  shows "\<exists>h'. siftdown lt h x pos = Inr h' \<and> is_heap key h' \<and> mset h' = mset (h[pos := x])"
  using assms
proof (induction lt h x pos rule: siftdown.induct)
  case (1 lt h x pos)
  show ?case
  proof (cases "pos = 0")
    case True
    with hole_filled [OF 1(4,5,3)] show ?thesis by (simp add: siftdown.simps [of lt h x 0])
  next
    case False
    let ?p = "parent_of pos"
    have p: "?p < pos" "?p < length h" using False 1(3) by (simp_all add: less_trans [OF parent_of_less])
    have cmp: "lt x (h ! ?p) = Inr (key x < key (h ! ?p))" using 1(2) p by (simp add: compares_def)
    show ?thesis
    proof (cases "key x < key (h ! ?p)")
      case True
      have "set (h[pos := h ! ?p]) \<subseteq> set h" using p set_update_subset_insert [of h pos "h ! ?p"] by auto
      then have cmp': "compares lt key (insert x (set (h[pos := h ! ?p])))"
        using 1(2) by (blast intro: compares_subset)
      have "lt x (h ! ((pos - 1) div 2)) = Inr True" using cmp True by (simp add: parent_of_def)
      from 1(1) [OF False refl refl this TrueI]
      have "\<exists>h'. siftdown lt (h[pos := h ! ?p]) x ?p = Inr h' \<and> is_heap key h'
          \<and> mset h' = mset (h[pos := h ! ?p, ?p := x])"
        using True cmp' p hole_up [OF 1(4) _ 1(3) True] False by (simp add: parent_of_def)
      with True False cmp p mset_hole_up [of pos h ?p x] 1(3) show ?thesis
        by (simp add: siftdown.simps [of lt h x pos] parent_of_def Let_def)
    next
      case nless: False
      with hole_filled [OF 1(4,5,3)] False cmp show ?thesis
        by (simp add: siftdown.simps [of lt h x pos] parent_of_def Let_def)
    qed
  qed
qed

lemma sink_correct:
  assumes "compares lt key (set h)" "pos < length h" "hole_heap key h pos"
  shows "\<exists>h' q. sink lt h pos = Inr (h', q) \<and> q < length h' \<and> hole_heap key h' q \<and> length h' = length h
    \<and> above_children key x h' q \<and> set h' \<subseteq> set h \<and> mset (h'[q := y]) = mset (h[pos := y])"
  using assms
proof (induction lt h pos rule: sink.induct)
  case (1 lt h pos)
  show ?case
  proof (cases "length h \<le> 2 * pos + 1")
    case True
    have "above_children key x h pos"
      unfolding above_children_def
    proof (intro allI impI)
      fix k
      assume k: "0 < k \<and> k < length h \<and> parent_of k = pos"
      with child_cases [of k pos] True show "key x \<le> key (h ! k)" by auto
    qed
    with True 1(2-) show ?thesis by (simp add: sink.simps [of lt h pos])
  next
    case False
    define least where "least = (if 2 * pos + 2 < length h
      then if key (h ! (2 * pos + 1)) < key (h ! (2 * pos + 2)) then 2 * pos + 1 else 2 * pos + 2 else 2 * pos + 1)"
    have choice: "(if 2 * pos + 1 + 1 < length h
        then sbind (lt (h ! (2 * pos + 1)) (h ! (2 * pos + 1 + 1))) (\<lambda>b. Inr (if b then 2 * pos + 1 else 2 * pos + 1 + 1))
        else Inr (2 * pos + 1)) = (Inr least :: exn + nat)"
      using 1(2) False by (simp add: compares_def least_def)
    have c: "least < length h" "parent_of least = pos" "0 < least" using False by (auto simp: least_def)
    have "key (h ! least) \<le> key (h ! k)" if "0 < k" "k < length h" "parent_of k = pos" for k
      using child_cases [OF that(1,3)] that(2) by (auto simp: least_def)
    from hole_down [OF 1(4) c this] have hole: "hole_heap key (h[pos := h ! least]) least" .
    have sub: "set (h[pos := h ! least]) \<subseteq> set h" using c set_update_subset_insert [of h pos "h ! least"] by auto
    from 1(1) [OF refl _ choice] hole c sub compares_subset [OF 1(2) sub] False
    obtain h' q where h': "sink lt (h[pos := h ! least]) least = Inr (h', q)" "q < length h'" "hole_heap key h' q"
      "length h' = length h" "above_children key x h' q" "set h' \<subseteq> set (h[pos := h ! least])"
      "mset (h'[q := y]) = mset (h[pos := h ! least, least := y])"
      by auto
    have "least \<noteq> pos" using c parent_of_less by (metis less_irrefl)
    with h'(7) mset_hole_up [of pos h least y] 1(3) c have "mset (h'[q := y]) = mset (h[pos := y])" by simp
    moreover have "sink lt h pos = sink lt (h[pos := h ! least]) least"
      by (subst sink.simps) (simp only: Let_def choice False if_False sbind_simps)
    moreover have "set h' \<subseteq> set h" using h'(6) sub by (rule subset_trans)
    ultimately show ?thesis using h' by auto
  qed
qed

lemma heappush_correct:
  assumes "compares lt key (insert x (set h))" "is_heap key h"
  shows "\<exists>h'. heappush lt x h = Inr h' \<and> is_heap key h' \<and> mset h' = add_mset x (mset h)"
proof -
  have leaf: "parent_of k < length h" if "0 < k" "k < Suc (length h)" for k
    using parent_of_less [OF that(1)] that(2) by linarith
  have "hole_heap key (h @ [x]) (length h)"
    unfolding hole_heap_def
  proof (intro conjI allI impI)
    fix k
    assume "0 < k \<and> k < length (h @ [x]) \<and> k \<noteq> length h \<and> parent_of k \<noteq> length h"
    with assms(2) leaf [of k] show "key ((h @ [x]) ! parent_of k) \<le> key ((h @ [x]) ! k)"
      by (simp add: nth_append is_heap_def)
  next
    fix k
    assume "0 < length h \<and> 0 < k \<and> k < length (h @ [x]) \<and> parent_of k = length h"
    with leaf [of k] show "key ((h @ [x]) ! parent_of (length h)) \<le> key ((h @ [x]) ! k)" by simp
  qed
  moreover have "above_children key x (h @ [x]) (length h)"
    unfolding above_children_def
  proof (intro allI impI)
    fix k
    assume "0 < k \<and> k < length (h @ [x]) \<and> parent_of k = length h"
    with leaf [of k] show "key x \<le> key ((h @ [x]) ! k)" by simp
  qed
  ultimately show ?thesis
    using siftdown_correct [of lt key x "h @ [x]" "length h"] assms(1) by (simp add: heappush_def)
qed

lemma heappop_correct:
  assumes "compares lt key (set h)" "is_heap key h" "h \<noteq> []"
  shows "\<exists>x h'. heappop lt h = Inr (x, h') \<and> is_heap key h' \<and> mset h = add_mset x (mset h')
    \<and> (\<forall>y\<in>set h. key x \<le> key y)"
proof -
  have least: "\<forall>y\<in>set h. key (h ! 0) \<le> key y"
    using heap_root [OF assms(2)] by (metis in_set_conv_nth)
  show ?thesis
  proof (cases "butlast h = []")
    case True
    then obtain x where "h = [x]" using assms(3) by (cases h) (auto split: if_splits)
    then show ?thesis by (simp add: heappop_def is_heap_def)
  next
    case False
    let ?r = "butlast h" and ?x = "last h"
    have h: "h = ?r @ [?x]" using assms(3) by simp
    obtain a r where ar: "?r = a # r" using False by (cases ?r) auto
    then have ha: "h = a # r @ [?x]" using h by (metis append_Cons)
    have long: "Suc 0 < length h" by (subst ha) simp
    have "h ! 0 = a" by (subst ha) simp
    with ar have r0: "?r ! 0 = h ! 0" and r1: "hd ?r = h ! 0" by simp_all
    have "is_heap key ?r"
      using assms(2) less_trans [OF parent_of_less] unfolding is_heap_def by (auto simp: nth_butlast)
    then have "hole_heap key (?r[0 := ?x]) 0" by (auto simp: hole_heap_def is_heap_def nth_list_update)
    moreover have sub: "set (?r[0 := ?x]) \<subseteq> set h" "?x \<in> set h"
      using h set_update_subset_insert [of ?r 0 ?x] assms(3) by (auto dest: in_set_butlastD)
    ultimately obtain h' q where s: "sink lt (?r[0 := ?x]) 0 = Inr (h', q)" "q < length h'" "hole_heap key h' q"
      "above_children key ?x h' q" "set h' \<subseteq> set (?r[0 := ?x])" "mset (h'[q := ?x]) = mset (?r[0 := ?x])"
      using sink_correct [OF compares_subset [OF assms(1) sub(1)], of 0 ?x ?x] False long by auto
    moreover have "compares lt key (insert ?x (set h'))"
      using s(5) sub by (intro compares_subset [OF assms(1)]) auto
    ultimately obtain h'' where t: "siftdown lt h' ?x q = Inr h''" "is_heap key h''" "mset h'' = mset (?r[0 := ?x])"
      using siftdown_correct [of lt key ?x h' q] by auto
    have "mset h = add_mset (h ! 0) (mset (?r[0 := ?x]))"
      by (subst (1 2) ha) (simp add: ar)
    with t s(1) False r1 least assms(3) show ?thesis by (auto simp: heappop_def Let_def)
  qed
qed

subsection \<open>The contract\<close>

text \<open>
  A priority queue whose operations may raise: on items it can compare, a push adds the item and a
  pop takes one with the least key.
\<close>

locale priority_queue =
  fixes push :: "'a \<Rightarrow> 'q \<Rightarrow> exn + 'q"
    and pop :: "'q \<Rightarrow> exn + 'a \<times> 'q"
    and items :: "'q \<Rightarrow> 'a multiset"
    and valid :: "'q \<Rightarrow> bool"
    and key :: "'a \<Rightarrow> 'k::linorder"
    and comparable :: "'a set \<Rightarrow> bool"
  assumes comparable_subset: "comparable S \<Longrightarrow> T \<subseteq> S \<Longrightarrow> comparable T"
    and push_adds: "comparable (insert x (set_mset (items q))) \<Longrightarrow> valid q \<Longrightarrow>
      \<exists>q'. push x q = Inr q' \<and> valid q' \<and> items q' = add_mset x (items q)"
    and pop_takes: "comparable (set_mset (items q)) \<Longrightarrow> valid q \<Longrightarrow> items q \<noteq> {#} \<Longrightarrow>
      \<exists>x q'. pop q = Inr (x, q') \<and> valid q' \<and> items q = add_mset x (items q') \<and> (\<forall>y\<in>#items q. key x \<le> key y)"
begin

lemma push_all_adds:
  assumes "comparable (set xs \<union> set_mset (items q))" "valid q"
  shows "\<exists>q'. push_all push xs q = Inr q' \<and> valid q' \<and> items q' = mset xs + items q"
  using assms
proof (induction xs arbitrary: q)
  case (Cons x xs)
  from Cons.prems(1) have "comparable (insert x (set_mset (items q)))" by (rule comparable_subset) auto
  from push_adds [OF this Cons.prems(2)] obtain q' where q': "push x q = Inr q'" "valid q'"
    "items q' = add_mset x (items q)" by blast
  with Cons.IH [of q'] Cons.prems(1) show ?case by (auto simp: insert_commute)
qed simp

end

interpretation heapq: priority_queue "heappush lt" "heappop lt" mset "is_heap key" key "compares lt key"
proof unfold_locales
  show "compares lt key S \<Longrightarrow> T \<subseteq> S \<Longrightarrow> compares lt key T" for S T by (rule compares_subset)
  show "compares lt key (insert x (set_mset (mset q))) \<Longrightarrow> is_heap key q \<Longrightarrow>
      \<exists>q'. heappush lt x q = Inr q' \<and> is_heap key q' \<and> mset q' = add_mset x (mset q)" for x q
    using heappush_correct [of lt key x q] by simp
  show "compares lt key (set_mset (mset q)) \<Longrightarrow> is_heap key q \<Longrightarrow> mset q \<noteq> {#} \<Longrightarrow>
      \<exists>x q'. heappop lt q = Inr (x, q') \<and> is_heap key q' \<and> mset q = add_mset x (mset q')
        \<and> (\<forall>y\<in>#mset q. key x \<le> key y)" for q
    using heappop_correct [of lt key q] by auto
qed

end
