(* ===== verification/Route_Search.thy ===== *)
theory Route_Search
  imports Heapq "HOL-Library.List_Lexorder" "HOL-Library.Product_Lexorder"
begin

text \<open>
  \<^verbatim>\<open>shortest_path\<close> of \<^verbatim>\<open>route_planner/optimizer.py\<close>: the search both planners share, over an adjacency
  of their own and edges of any type. An entry of its heap is the tuple the code pushes, and the
  comparison of two entries is Python's comparison of those tuples: where cost and node sequence
  agree it reaches the edges, which are dictionaries and cannot be compared. Costs are doubles, added
  as the machine adds them.
\<close>

type_synonym 'e arc = "string \<times> 'e \<times> bool"
type_synonym 'e adjacency = "(string \<times> 'e arc list) list"
type_synonym 'e entry = "rat \<times> string list \<times> string \<times> ('e \<times> bool) list"

text \<open>\<^verbatim>\<open>adjacency.get(current, [])\<close>\<close>

definition arcs_of :: "'e adjacency \<Rightarrow> string \<Rightarrow> 'e arc list" where
  "arcs_of adj u = (case map_of adj u of None \<Rightarrow> [] | Some xs \<Rightarrow> xs)"

text \<open>\<^verbatim>\<open><\<close> on the lists of pairs of an edge and a direction, and on entries.\<close>

fun path_lt :: "('e \<times> bool) list \<Rightarrow> ('e \<times> bool) list \<Rightarrow> exn + bool" where
  "path_lt p [] = Inr False"
| "path_lt [] (y # q) = Inr True"
| "path_lt ((e, r) # p) ((e', r') # q) =
     (if e \<noteq> e' then Inl TypeError else if r \<noteq> r' then Inr r' else path_lt p q)"

definition entry_lt :: "'e entry \<Rightarrow> 'e entry \<Rightarrow> exn + bool" where
  "entry_lt a b =
     (case a of (cost, sequence, current, path) \<Rightarrow> case b of (cost', sequence', current', path') \<Rightarrow>
        if cost \<noteq> cost' then Inr (cost < cost')
        else if sequence \<noteq> sequence' then Inr (sequence < sequence')
        else if current \<noteq> current' then Inr (current < current')
        else path_lt path path')"

text \<open>What the loop pushes for the arcs of the node it expands.\<close>

definition next_entry :: "('e \<Rightarrow> rat) \<Rightarrow> rat \<Rightarrow> string list \<Rightarrow> ('e \<times> bool) list \<Rightarrow> 'e arc \<Rightarrow> 'e entry" where
  "next_entry edge_cost cost sequence path arc =
     (case arc of (neighbor, edge, backward) \<Rightarrow>
        (fl (cost + edge_cost edge), sequence @ [neighbor], neighbor, path @ [(edge, backward)]))"

definition already_better :: "(string \<Rightarrow> (rat \<times> string list) option) \<Rightarrow> string \<Rightarrow> rat \<times> string list \<Rightarrow> bool" where
  "already_better best current k = (case best current of None \<Rightarrow> False | Some prior \<Rightarrow> prior \<le> k)"

definition no_route :: "string \<Rightarrow> string \<Rightarrow> exn" where
  "no_route source target =
     RoutePlanningError ''GRAPH_DISCONNECTED'' (''no route from '' @ source @ '' to '' @ target)"

text \<open>The loop. \<open>None\<close> is a search that does not return.\<close>

partial_function (option) search :: "('e \<Rightarrow> rat) \<Rightarrow> 'e adjacency \<Rightarrow> string \<Rightarrow> string
    \<Rightarrow> (string \<Rightarrow> (rat \<times> string list) option) \<Rightarrow> 'e entry list \<Rightarrow> (exn + ('e \<times> bool) list) option" where
  "search edge_cost adj source target best heap =
     (if heap = [] then Some (Inl (no_route source target))
      else case heappop entry_lt heap of
        Inl e \<Rightarrow> Some (Inl e)
      | Inr ((cost, sequence, current, path), rest) \<Rightarrow>
          if already_better best current (cost, sequence)
          then search edge_cost adj source target best rest
          else if current = target then Some (Inr path)
          else case push_all (heappush entry_lt) (map (next_entry edge_cost cost sequence path) (arcs_of adj current)) rest of
                 Inl e \<Rightarrow> Some (Inl e)
               | Inr heap' \<Rightarrow> search edge_cost adj source target (best(current \<mapsto> (cost, sequence))) heap')"

definition shortest_path :: "'e adjacency \<Rightarrow> string \<Rightarrow> string \<Rightarrow> ('e \<Rightarrow> rat) \<Rightarrow> (exn + ('e \<times> bool) list) option" where
  "shortest_path adj source target edge_cost =
     search edge_cost adj source target (\<lambda>n. None) [(0, [source], source, [])]"

subsection \<open>Walks\<close>

fun walk :: "'e adjacency \<Rightarrow> string \<Rightarrow> 'e arc list \<Rightarrow> string \<Rightarrow> bool" where
  "walk adj u [] v \<longleftrightarrow> u = v"
| "walk adj u ((m, e, r) # p) v \<longleftrightarrow> (m, e, r) \<in> set (arcs_of adj u) \<and> walk adj m p v"

definition walk_cost :: "('e \<Rightarrow> rat) \<Rightarrow> 'e arc list \<Rightarrow> rat" where
  "walk_cost edge_cost p = foldl (\<lambda>c (m, e, r). fl (c + edge_cost e)) 0 p"

definition walk_nodes :: "string \<Rightarrow> 'e arc list \<Rightarrow> string list" where
  "walk_nodes u p = u # map fst p"

definition walk_edges :: "'e arc list \<Rightarrow> ('e \<times> bool) list" where
  "walk_edges p = map snd p"

lemma walk_snoc [simp]: "walk adj u (p @ [(m, e, r)]) v \<longleftrightarrow> (\<exists>w. walk adj u p w \<and> (m, e, r) \<in> set (arcs_of adj w) \<and> m = v)"
  by (induction p arbitrary: u) auto

lemma walk_cost_simps [simp]:
  "walk_cost c [] = 0" "walk_cost c (p @ [(m, e, r)]) = fl (walk_cost c p + c e)"
  by (simp_all add: walk_cost_def)

lemma walk_nodes_simps [simp]:
  "walk_nodes u [] = [u]" "walk_nodes u (p @ [(m, e, r)]) = walk_nodes u p @ [m]"
  "walk_edges [] = []" "walk_edges (p @ [(m, e, r)]) = walk_edges p @ [(e, r)]"
  by (simp_all add: walk_nodes_def walk_edges_def)

lemma walk_cost_double: "is_double (walk_cost c p)"
  by (cases p rule: rev_cases) (auto simp: walk_cost_def split: prod.splits)

text \<open>Costs are never negative, and no node has two arcs to the same neighbor.\<close>

definition searchable :: "('e \<Rightarrow> rat) \<Rightarrow> 'e adjacency \<Rightarrow> bool" where
  "searchable c adj \<longleftrightarrow> (\<forall>u. \<forall>(m, e, r)\<in>set (arcs_of adj u). 0 \<le> c e) \<and> (\<forall>u. distinct (map fst (arcs_of adj u)))"

lemma walk_determined:
  assumes "searchable c adj" "walk adj u p v" "walk adj u q w" "map fst p = map fst q"
  shows "p = q"
  using assms(2-)
proof (induction p arbitrary: u q)
  case (Cons a p)
  obtain m e r where a: "a = (m, e, r)" by (cases a)
  obtain e' r' q' where q: "q = (m, e', r') # q'" using Cons.prems(3) by (cases q) (auto simp: a)
  have "distinct (map fst (arcs_of adj u))" using assms(1) by (simp add: searchable_def)
  moreover have "(m, e, r) \<in> set (arcs_of adj u)" "(m, e', r') \<in> set (arcs_of adj u)"
    using Cons.prems by (auto simp: a q)
  ultimately have "(e, r) = (e', r')" by (metis eq_key_imp_eq_value)
  moreover have "p = q'" using Cons by (auto simp: a q)
  ultimately show ?case by (simp add: a q)
qed auto

subsection \<open>Entries are walks\<close>

definition entry_key :: "'e entry \<Rightarrow> rat \<times> string list" where
  "entry_key en = (fst en, fst (snd en))"

definition entry_ok :: "('e \<Rightarrow> rat) \<Rightarrow> 'e adjacency \<Rightarrow> string \<Rightarrow> 'e entry \<Rightarrow> bool" where
  "entry_ok c adj s en \<longleftrightarrow> (\<exists>p. walk adj s p (fst (snd (snd en))) \<and> en =
     (walk_cost c p, walk_nodes s p, fst (snd (snd en)), walk_edges p))"

lemma entry_okI: "walk adj s p v \<Longrightarrow> entry_ok c adj s (walk_cost c p, walk_nodes s p, v, walk_edges p)"
  unfolding entry_ok_def by auto

lemma path_lt_refl: "path_lt p p = Inr False"
  by (induction p) auto

lemma walk_end: "walk adj s p v \<Longrightarrow> last (walk_nodes s p) = v"
  by (induction p arbitrary: s rule: rev_induct) auto

lemma entries_comparable:
  assumes "searchable c adj"
  shows "compares entry_lt entry_key {en. entry_ok c adj s en}"
  unfolding compares_def
proof (intro ballI)
  fix a b :: "'a entry"
  assume "a \<in> {en. entry_ok c adj s en}" "b \<in> {en. entry_ok c adj s en}"
  then obtain p v q w where a: "walk adj s p v" "a = (walk_cost c p, walk_nodes s p, v, walk_edges p)"
    and b: "walk adj s q w" "b = (walk_cost c q, walk_nodes s q, w, walk_edges q)"
    unfolding entry_ok_def by auto
  show "entry_lt a b = Inr (entry_key a < entry_key b)"
  proof (cases "walk_nodes s p = walk_nodes s q")
    case True
    then have "p = q" using walk_determined [OF assms a(1) b(1)] by (simp add: walk_nodes_def)
    moreover have "v = w" using True walk_end [OF a(1)] walk_end [OF b(1)] by simp
    ultimately show ?thesis by (simp add: a b entry_lt_def entry_key_def path_lt_refl)
  qed (auto simp: a b entry_lt_def entry_key_def less_prod_def)
qed

subsection \<open>The invariant of the search\<close>

definition nodes_of :: "'e adjacency \<Rightarrow> string \<Rightarrow> string set" where
  "nodes_of adj s = insert s (\<Union>(u, arcs)\<in>set adj. fst ` set arcs)"

lemma finite_nodes: "finite (nodes_of adj s)"
  by (auto simp: nodes_of_def)

lemma arc_node: "(m, e, r) \<in> set (arcs_of adj u) \<Longrightarrow> m \<in> nodes_of adj s"
proof -
  assume a: "(m, e, r) \<in> set (arcs_of adj u)"
  then obtain xs where xs: "map_of adj u = Some xs" "(m, e, r) \<in> set xs"
    by (cases "map_of adj u") (auto simp: arcs_of_def)
  then have "m \<in> fst ` set xs" by force
  with map_of_SomeD [OF xs(1)] show ?thesis by (auto simp: nodes_of_def)
qed

lemma walk_node: "walk adj s p v \<Longrightarrow> v \<in> nodes_of adj s"
  by (cases p rule: rev_cases) (auto simp: arc_node, simp add: nodes_of_def)

text \<open>A node is settled at a cost, or waits in the heap at a cost.\<close>

definition settled_at :: "(string \<Rightarrow> (rat \<times> string list) option) \<Rightarrow> string \<Rightarrow> rat \<Rightarrow> bool" where
  "settled_at best n x \<longleftrightarrow> (\<exists>k. best n = Some k \<and> fst k \<le> x)"

definition waits_at :: "'e entry set \<Rightarrow> string \<Rightarrow> rat \<Rightarrow> bool" where
  "waits_at H n x \<longleftrightarrow> (\<exists>en\<in>H. fst (snd (snd en)) = n \<and> fst en \<le> x)"

definition search_inv :: "('e \<Rightarrow> rat) \<Rightarrow> 'e adjacency \<Rightarrow> string \<Rightarrow> string
    \<Rightarrow> (string \<Rightarrow> (rat \<times> string list) option) \<Rightarrow> 'e entry set \<Rightarrow> bool" where
  "search_inv c adj s t best H \<longleftrightarrow>
     (\<forall>en\<in>H. entry_ok c adj s en) \<and> best t = None
   \<and> (\<forall>n k. best n = Some k \<longrightarrow> (\<exists>p. walk adj s p n \<and> k = (walk_cost c p, walk_nodes s p)))
   \<and> (\<forall>n k. \<forall>en\<in>H. best n = Some k \<longrightarrow> k \<le> entry_key en)
   \<and> (\<forall>n k m e r. best n = Some k \<and> (m, e, r) \<in> set (arcs_of adj n) \<longrightarrow>
        settled_at best m (fl (fst k + c e)) \<or> waits_at H m (fl (fst k + c e)))
   \<and> (settled_at best s 0 \<or> waits_at H s 0)"

lemma cost_grows:
  assumes "searchable c adj" "(m, e, r) \<in> set (arcs_of adj u)"
  shows "walk_cost c p \<le> fl (walk_cost c p + c e)"
proof -
  have "0 \<le> c e" using assms by (auto simp: searchable_def)
  then have "fl (walk_cost c p) \<le> fl (walk_cost c p + c e)" by (intro fl_mono) simp
  moreover have "fl (walk_cost c p) = walk_cost c p" using walk_cost_double [of c p] by (simp add: is_double_def)
  ultimately show ?thesis by simp
qed

lemma search_inv_frontier:
  "search_inv c adj s t best H \<Longrightarrow> best n = Some k \<Longrightarrow> (m, e, r) \<in> set (arcs_of adj n) \<Longrightarrow>
     settled_at best m (fl (fst k + c e)) \<or> waits_at H m (fl (fst k + c e))"
  unfolding search_inv_def by blast

lemma walk_covered:
  assumes "searchable c adj" "search_inv c adj s t best H" "walk adj s p v"
  shows "settled_at best v (walk_cost c p) \<or> (\<exists>en\<in>H. fst en \<le> walk_cost c p)"
  using assms(3)
proof (induction p arbitrary: v rule: rev_induct)
  case Nil
  with assms(2) show ?case by (auto simp: search_inv_def waits_at_def)
next
  case (snoc a p)
  obtain m e r where a: "a = (m, e, r)" by (cases a)
  with snoc.prems obtain w where w: "walk adj s p w" "(m, e, r) \<in> set (arcs_of adj w)" "m = v" by auto
  have grows: "walk_cost c p \<le> walk_cost c (p @ [a])" using cost_grows [OF assms(1) w(2), of p] by (simp add: a)
  from snoc.IH [OF w(1)] show ?case
  proof
    assume "\<exists>en\<in>H. fst en \<le> walk_cost c p"
    with grows show ?thesis by (meson order_trans)
  next
    assume "settled_at best w (walk_cost c p)"
    then obtain k where k: "best w = Some k" "fst k \<le> walk_cost c p" by (auto simp: settled_at_def)
    then have "fl (fst k + c e) \<le> walk_cost c (p @ [a])" by (simp add: a fl_mono)
    moreover have "settled_at best v (fl (fst k + c e)) \<or> waits_at H v (fl (fst k + c e))"
      using search_inv_frontier [OF assms(2) k(1) w(2)] w(3) by simp
    ultimately show ?thesis unfolding settled_at_def waits_at_def by (meson order_trans)
  qed
qed

lemma search_skip:
  assumes inv: "search_inv c adj s t best (insert en H)" and better: "already_better best (fst (snd (snd en))) (entry_key en)"
  shows "search_inv c adj s t best H"
proof -
  obtain k where k: "best (fst (snd (snd en))) = Some k" "k \<le> entry_key en"
    using better by (auto simp: already_better_def split: option.splits)
  then have "fst k \<le> fst en" by (auto simp: entry_key_def less_eq_prod_def)
  then have "settled_at best m x \<or> waits_at H m x" if "settled_at best m x \<or> waits_at (insert en H) m x" for m x
    using that k(1) unfolding settled_at_def waits_at_def by (metis insert_iff order_trans)
  with inv show ?thesis unfolding search_inv_def by (meson insertCI)
qed

lemma search_fresh:
  assumes "search_inv c adj s t best (insert en H)" "\<not> already_better best (fst (snd (snd en))) (entry_key en)"
  shows "best (fst (snd (snd en))) = None"
  using assms by (cases "best (fst (snd (snd en)))") (auto simp: search_inv_def already_better_def)

lemma next_entry_fields [simp]:
  "fst (next_entry c cost sq path (m, e, r)) = fl (cost + c e)"
  "fst (snd (snd (next_entry c cost sq path (m, e, r)))) = m"
  "entry_key (next_entry c cost sq path (m, e, r)) = (fl (cost + c e), sq @ [m])"
  by (simp_all add: next_entry_def entry_key_def)

lemma less_append: "xs \<le> xs @ (ys :: string list)"
  by (induction xs) auto

lemma search_expand:
  assumes c: "searchable c adj" and inv: "search_inv c adj s t best (insert (cost, sq, cur, path) H)"
    and least: "\<forall>en\<in>H. (cost, sq) \<le> entry_key en" and fresh: "best cur = None" and not_target: "cur \<noteq> t"
  shows "search_inv c adj s t (best(cur \<mapsto> (cost, sq))) (next_entry c cost sq path ` set (arcs_of adj cur) \<union> H)"
    (is "search_inv c adj s t ?best (?new \<union> H)")
proof -
  obtain p where p: "walk adj s p cur" "cost = walk_cost c p" "sq = walk_nodes s p" "path = walk_edges p"
    using inv by (auto simp: search_inv_def entry_ok_def)
  have key_le: "k \<le> (cost, sq)" if "best n = Some k" for n k
    using inv that unfolding search_inv_def by (metis entry_key_def fst_conv insertI1 snd_conv)
  have new_ok: "entry_ok c adj s en \<and> (cost, sq) \<le> entry_key en" if en: "en \<in> ?new" for en
  proof -
    obtain m e r where m: "(m, e, r) \<in> set (arcs_of adj cur)" "en = next_entry c cost sq path (m, e, r)"
      using en by auto
    have "walk adj s (p @ [(m, e, r)]) m" using p(1) m(1) by auto
    moreover have "en = (walk_cost c (p @ [(m, e, r)]), walk_nodes s (p @ [(m, e, r)]), m, walk_edges (p @ [(m, e, r)]))"
      using m(2) p by (simp add: next_entry_def)
    ultimately have "entry_ok c adj s en" by (metis entry_okI)
    moreover have "(cost, sq) \<le> entry_key en"
      using cost_grows [OF c m(1), of p] less_append [of sq "[m]"] unfolding m(2) p(2) by (simp add: less_eq_prod_def)
    ultimately show ?thesis ..
  qed
  have pass: "settled_at ?best m x \<or> waits_at (?new \<union> H) m x"
    if "settled_at best m x \<or> waits_at (insert (cost, sq, cur, path) H) m x" for m x
    using that fresh unfolding settled_at_def waits_at_def by (auto split: if_splits)
  show ?thesis
    unfolding search_inv_def
  proof (intro conjI allI ballI impI)
    show "entry_ok c adj s en" if "en \<in> ?new \<union> H" for en
      using that new_ok inv unfolding search_inv_def by blast
    show "?best t = None" using inv not_target by (simp add: search_inv_def)
    show "\<exists>p. walk adj s p n \<and> k = (walk_cost c p, walk_nodes s p)" if "?best n = Some k" for n k
    proof (cases "n = cur")
      case True
      with that p show ?thesis by auto
    next
      case False
      with that have "best n = Some k" by simp
      with inv show ?thesis unfolding search_inv_def by blast
    qed
    show "k \<le> entry_key en" if "en \<in> ?new \<union> H" "?best n = Some k" for n k en
    proof -
      have "k \<le> (cost, sq)" using that(2) key_le by (auto split: if_splits)
      also have "\<dots> \<le> entry_key en" using that(1) new_ok least by blast
      finally show ?thesis .
    qed
    show "settled_at ?best s 0 \<or> waits_at (?new \<union> H) s 0" using inv pass by (simp add: search_inv_def)
    fix n k m e r
    assume a: "?best n = Some k \<and> (m, e, r) \<in> set (arcs_of adj n)"
    show "settled_at ?best m (fl (fst k + c e)) \<or> waits_at (?new \<union> H) m (fl (fst k + c e))"
    proof (cases "n = cur")
      case True
      with a have k: "fst k = cost" "(m, e, r) \<in> set (arcs_of adj cur)" by auto
      then have "waits_at (?new \<union> H) m (fl (fst k + c e))"
        unfolding waits_at_def by (intro bexI [of _ "next_entry c cost sq path (m, e, r)"]) auto
      then show ?thesis ..
    next
      case False
      with a inv pass show ?thesis by (metis fun_upd_apply search_inv_frontier)
    qed
  qed
qed

lemma search_reached:
  assumes c: "searchable c adj" and inv: "search_inv c adj s t best (insert (cost, sq, t, path) H)"
    and least: "\<forall>en\<in>H. (cost, sq) \<le> entry_key en"
  shows "\<exists>p. walk adj s p t \<and> path = walk_edges p \<and> (\<forall>q. walk adj s q t \<longrightarrow> walk_cost c p \<le> walk_cost c q)"
proof -
  obtain p where p: "walk adj s p t" "cost = walk_cost c p" "path = walk_edges p"
    using inv by (auto simp: search_inv_def entry_ok_def)
  moreover have "cost \<le> walk_cost c q" if "walk adj s q t" for q
  proof -
    have "\<not> settled_at best t (walk_cost c q)" using inv by (simp add: search_inv_def settled_at_def)
    with walk_covered [OF c inv that] obtain en where "en \<in> insert (cost, sq, t, path) H" "fst en \<le> walk_cost c q" by blast
    with least show ?thesis by (fastforce simp: entry_key_def less_eq_prod_def)
  qed
  ultimately show ?thesis by blast
qed

subsection \<open>The search returns\<close>

definition search_outcome :: "('e \<Rightarrow> rat) \<Rightarrow> 'e adjacency \<Rightarrow> string \<Rightarrow> string \<Rightarrow> (exn + ('e \<times> bool) list) \<Rightarrow> bool" where
  "search_outcome c adj s t r \<longleftrightarrow>
     (case r of
        Inr path \<Rightarrow> \<exists>p. walk adj s p t \<and> path = walk_edges p \<and> (\<forall>q. walk adj s q t \<longrightarrow> walk_cost c p \<le> walk_cost c q)
      | Inl e \<Rightarrow> e = no_route s t \<and> (\<nexists>q. walk adj s q t))"

lemma search_correct:
  assumes c: "searchable c adj" and "is_heap entry_key heap" "search_inv c adj s t best (set heap)"
    "dom best \<subseteq> nodes_of adj s"
  shows "\<exists>r. search c adj s t best heap = Some r \<and> search_outcome c adj s t r"
  using assms(2-)
proof (induction "(best, heap)" arbitrary: best heap
    rule: wf_induct_rule [OF wf_measures [of "[\<lambda>(best, heap). card (nodes_of adj s - dom best), \<lambda>(best, heap). length heap]"]])
  case (1 best heap)
  note inv = 1(3)
  have comparable: "compares entry_lt entry_key S" if "\<forall>en\<in>S. entry_ok c adj s en" for S
    using compares_subset [OF entries_comparable [OF c, of s]] that by blast
  show ?case
  proof (cases "heap = []")
    case True
    have "\<not> walk adj s q t" for q
    proof
      assume "walk adj s q t"
      from walk_covered [OF c inv this] True inv show False by (simp add: search_inv_def settled_at_def)
    qed
    with True show ?thesis by (simp add: search.simps [of c adj s t best "[]"] search_outcome_def)
  next
    case False
    have "compares entry_lt entry_key (set_mset (mset heap))" using inv by (intro comparable) (simp add: search_inv_def)
    from heapq.pop_takes [OF this 1(2)] False obtain en rest where pop: "heappop entry_lt heap = Inr (en, rest)"
      "is_heap entry_key rest" "mset heap = add_mset en (mset rest)" "\<forall>y\<in>set heap. entry_key en \<le> entry_key y"
      by auto
    have H: "set heap = insert en (set rest)" and len: "length heap = Suc (length rest)"
      using pop(3) by (metis set_mset_mset set_mset_add_mset_insert, metis size_mset size_add_mset)
    obtain cost sq cur path where en: "en = (cost, sq, cur, path)" by (cases en)
    have key: "entry_key en = (cost, sq)" by (simp add: en entry_key_def)
    show ?thesis
    proof (cases "already_better best cur (cost, sq)")
      case True
      have "search_inv c adj s t best (set rest)"
        using search_skip [of c adj s t best en "set rest"] inv True by (simp add: H en entry_key_def)
      from 1(1) [OF _ pop(2) this 1(4)] len True False pop(1) show ?thesis
        by (simp add: search.simps [of c adj s t best heap] en)
    next
      case nbetter: False
      have least: "\<forall>en\<in>set rest. (cost, sq) \<le> entry_key en" using pop(4) key H by auto
      have inv': "search_inv c adj s t best (insert (cost, sq, cur, path) (set rest))" using inv by (simp add: H en)
      have fresh: "best cur = None"
        using search_fresh [of c adj s t best en "set rest"] inv nbetter by (simp add: H en entry_key_def)
      show ?thesis
      proof (cases "cur = t")
        case True
        with search_reached [OF c _ least, of s t best path] inv' nbetter False pop(1) show ?thesis
          by (simp add: search.simps [of c adj s t best heap] en search_outcome_def)
      next
        case not_target: False
        let ?new = "map (next_entry c cost sq path) (arcs_of adj cur)" and ?best = "best(cur \<mapsto> (cost, sq))"
        have step: "search_inv c adj s t ?best (set ?new \<union> set rest)"
          using search_expand [OF c inv' least fresh not_target] by simp
        then have "compares entry_lt entry_key (set ?new \<union> set_mset (mset rest))"
          by (intro comparable) (simp add: search_inv_def)
        from heapq.push_all_adds [OF this pop(2)] obtain h where h: "push_all (heappush entry_lt) ?new rest = Inr h"
          "is_heap entry_key h" "mset h = mset ?new + mset rest" by blast
        have seth: "set h = set ?new \<union> set rest" using arg_cong [OF h(3), of set_mset] by simp
        have "cur \<in> nodes_of adj s" using inv' by (auto simp: search_inv_def entry_ok_def dest: walk_node)
        then have "card (nodes_of adj s - dom ?best) < card (nodes_of adj s - dom best)"
          using fresh finite_nodes by (intro psubset_card_mono) auto
        moreover have "dom ?best \<subseteq> nodes_of adj s" using 1(4) \<open>cur \<in> nodes_of adj s\<close> by auto
        ultimately show ?thesis
          using 1(1) [of ?best h] h(1,2) step seth nbetter not_target False pop(1)
          by (simp add: search.simps [of c adj s t best heap] en)
      qed
    qed
  qed
qed

lemma shortest_path_correct:
  assumes "searchable c adj"
  shows "\<exists>r. shortest_path adj s t c = Some r \<and> search_outcome c adj s t r"
  unfolding shortest_path_def
proof (rule search_correct [OF assms])
  show "is_heap entry_key [(0, [s], s, [])]" by (simp add: is_heap_def)
  have "entry_ok c adj s (0, [s], s, [])" unfolding entry_ok_def by (intro exI [of _ "[]"]) simp
  then show "search_inv c adj s t (\<lambda>n. None) (set [(0, [s], s, [])])"
    by (simp add: search_inv_def waits_at_def)
qed simp

subsection \<open>The properties\<close>

definition demo_adjacency :: "string adjacency" where
  "demo_adjacency = [(''A'', [(''B'', ''ab'', False), (''C'', ''ac'', False)]), (''B'', [(''C'', ''bc'', False)])]"

definition demo_cost :: "string \<Rightarrow> rat" where
  "demo_cost e = (if e = ''ac'' then 3 else 1)"

lemma demo_searchable: "searchable demo_cost demo_adjacency"
  by (auto simp: searchable_def demo_adjacency_def demo_cost_def arcs_of_def)

text \<open>C18. On an adjacency without negative costs and without two arcs between the same two nodes, the
  search always returns, and raises no exception but the one that says the target cannot be reached,
  exactly when it cannot. What it returns is the edge list of a walk from the source to the target
  whose cost, added up as the machine adds it, no other walk undercuts.\<close>

theorem shortest_path_optimal:
  assumes "searchable c adj"
  shows "(\<exists>p. shortest_path adj s t c = Some (Inr (walk_edges p)) \<and> walk adj s p t
            \<and> (\<forall>q. walk adj s q t \<longrightarrow> walk_cost c p \<le> walk_cost c q))
    \<or> (shortest_path adj s t c = Some (Inl (no_route s t)) \<and> (\<nexists>q. walk adj s q t))"
proof -
  obtain r where r: "shortest_path adj s t c = Some r" "search_outcome c adj s t r"
    using shortest_path_correct [OF assms] by blast
  then show ?thesis by (cases r) (auto simp: search_outcome_def)
qed

lemma shortest_path_optimal_witness:
  "\<exists>p. shortest_path demo_adjacency ''A'' ''C'' demo_cost = Some (Inr (walk_edges p)) \<and> walk demo_adjacency ''A'' p ''C''
     \<and> walk_cost demo_cost p \<le> 2"
proof -
  define q where "q = [(''B'', ''ab'', False), (''C'', ''bc'', False)]"
  have "walk demo_adjacency ''A'' q ''C''" "walk_cost demo_cost q = 2"
    by (simp_all add: q_def demo_adjacency_def arcs_of_def walk_cost_def demo_cost_def fl_numeral)
  with shortest_path_optimal [OF demo_searchable, of "''A''" "''C''"] show ?thesis by metis
qed



end
