(* ===== verification/Route_Planner.thy ===== *)
theory Route_Planner
  imports Route_Search Route_Graph
begin

text \<open>
  The recommendations of \<^verbatim>\<open>route_planner/optimizer.py\<close> around the search: edge costs, the adjacency of a mode, one
  candidate per visiting order, and the winner per profile. The graph is the document \<^verbatim>\<open>normalize_graph\<close> returns and
  the order the one \<^verbatim>\<open>normalize_order\<close> returns. The requirement states come from \<^verbatim>\<open>perception.py\<close>. Parameters: the C
  math library, and the SHA-256 of a route key. The labels of segments, whose arrow is beyond the model's characters, the labels of
  stops and the pins a recommendation copies from graph and order are left out.
\<close>

subsection \<open>Requirement states\<close>

definition OPERATOR_STATES :: "(string \<times> string) list" where
  "OPERATOR_STATES = [(''SPECIAL_GAIT'', ''OPERATOR''), (''OPERATOR_CONFIRMATION'', ''OPERATOR'')]"

definition green_twice :: "pydict \<Rightarrow> exn + bool" where
  "green_twice item =
     and_exn (Inr (dget item ''signal'' = VStr ''GREEN''))
       (sbind (py_int (dget_or item ''consecutive_frames'' (VInt 2))) (\<lambda>n. Inr (2 \<le> n)))"

definition field_within :: "pydict \<Rightarrow> string \<Rightarrow> rat \<Rightarrow> exn + bool" where
  "field_within item key limit =
     sbind (py_float (dget_or item key (VInt 99))) (\<lambda>f. Inr (is_finite f \<and> \<bar>fin_val f\<bar> \<le> limit))"

definition field_nonnegative :: "pydict \<Rightarrow> string \<Rightarrow> exn + bool" where
  "field_nonnegative item key =
     sbind (py_float (dget_or item key (VInt (- 1)))) (\<lambda>f. Inr (pf_le (Fin 0) f))"

definition crosswalk_aligned :: "pydict \<Rightarrow> exn + bool" where
  "crosswalk_aligned item =
     and_exn (Inr (dget item ''visible'' = VBool True))
       (and_exn (field_within item ''lateral_offset_m'' (fl (15 / 100))) (field_within item ''heading_error_rad'' (fl (2 / 10))))"

definition crosswalk_bounded :: "pydict \<Rightarrow> exn + bool" where
  "crosswalk_bounded item =
     and_exn (field_nonnegative item ''left_boundary_distance_m'') (field_nonnegative item ''right_boundary_distance_m'')"

definition some_all :: "('a \<Rightarrow> exn + bool) \<Rightarrow> 'a list \<Rightarrow> exn + bool" where
  \<comment> \<open>\<^verbatim>\<open>xs and all(...)\<close>\<close>
  "some_all f xs = (if xs = [] then Inr False else all_exn f xs)"

definition text_field :: "pydict \<Rightarrow> string \<Rightarrow> pyval" where
  \<comment> \<open>\<^verbatim>\<open>str(item.get(key, "UNKNOWN"))\<close>, where it is compared with a word\<close>
  "text_field item key = dget_or item key (VStr ''UNKNOWN'')"

definition requirement_states :: "perception \<Rightarrow> exn + (string \<times> string) list" where
  "requirement_states snapshot =
     (if p_fresh snapshot \<noteq> VBool True
      then Inr (map (\<lambda>r. (r, ''UNKNOWN'')) [''TRAFFIC_GREEN'', ''PEDESTRIAN_CLEAR'', ''CROSSWALK_ALIGNMENT'',
                  ''LANE_BOUNDARY_VALID'', ''ARUCO_DOCKING''] @ OPERATOR_STATES)
      else
        sbind (some_all green_twice (p_traffic snapshot)) (\<lambda>green.
        sbind (some_all crosswalk_aligned (p_crosswalks snapshot)) (\<lambda>alignment.
        sbind (some_all crosswalk_bounded (p_crosswalks snapshot)) (\<lambda>boundary.
        let people = map (\<lambda>item. text_field item ''occupancy'') (p_people snapshot) in
        Inr ([(''TRAFFIC_GREEN'', if green then ''READY''
                 else if VStr ''RED'' \<in> set (map (\<lambda>item. text_field item ''signal'') (p_traffic snapshot)) then ''BLOCKED'' else ''UNKNOWN''),
              (''PEDESTRIAN_CLEAR'', if people \<noteq> [] \<and> list_all (\<lambda>v. v = VStr ''CLEAR'') people then ''READY''
                 else if VStr ''OCCUPIED'' \<in> set people then ''BLOCKED'' else ''UNKNOWN''),
              (''CROSSWALK_ALIGNMENT'', if alignment then ''READY'' else ''UNKNOWN''),
              (''LANE_BOUNDARY_VALID'', if boundary then ''READY'' else ''UNKNOWN''),
              (''ARUCO_DOCKING'', if list_ex (\<lambda>item. dget item ''docking_ready'' = VBool True) (p_aruco snapshot)
                 then ''READY'' else ''UNKNOWN'')] @ OPERATOR_STATES)))))"

subsection \<open>Costs\<close>

record metrics =
  me_distance :: rat
  me_travel :: rat
  me_wait :: rat
  me_risk :: rat
  me_crosswalk :: rat
  me_underpass :: rat
  me_special :: rat

definition edge_metrics :: "edge \<Rightarrow> metrics" where
  "edge_metrics e =
     \<lparr>me_distance = ed_distance e,
      me_travel = fl (ed_distance e / max (min (ed_speed e) (ed_limit e)) (fl (1 / 100))),
      me_wait = (if ''TRAFFIC_GREEN'' \<in> set (ed_requirements e) then ed_wait e else 0),
      me_risk = fl (ed_risk e + ed_penalty e),
      me_crosswalk = (if ed_type e = ''CROSSWALK'' then 1 else 0),
      me_underpass = (if ed_type e = ''UNDERPASS'' then 1 else 0),
      me_special = (if ed_requirements e \<noteq> [] then 1 else 0)\<rparr>"

datatype profile = Balanced | Fastest | Safest

definition PROFILES :: "profile list" where
  "PROFILES = [Balanced, Fastest, Safest]"

record weights =
  we_time :: rat
  we_risk :: rat
  we_crosswalk :: rat
  we_underpass :: rat
  we_turn :: rat

fun weights_of :: "profile \<Rightarrow> weights" where
  "weights_of Balanced = \<lparr>we_time = 1, we_risk = 4, we_crosswalk = 2, we_underpass = 4, we_turn = fl (5 / 10)\<rparr>"
| "weights_of Fastest = \<lparr>we_time = 1, we_risk = fl (5 / 10), we_crosswalk = fl (5 / 10), we_underpass = fl (5 / 10), we_turn = fl (1 / 10)\<rparr>"
| "weights_of Safest = \<lparr>we_time = fl (35 / 100), we_risk = 12, we_crosswalk = 8, we_underpass = 12, we_turn = 1\<rparr>"

definition edge_cost :: "profile \<Rightarrow> edge \<Rightarrow> rat" where
  "edge_cost p e =
     (let w = weights_of p; m = edge_metrics e in
      fl (fl (fl (fl (we_time w * fl (me_travel m + me_wait m)) + fl (we_risk w * me_risk m))
              + fl (we_crosswalk w * me_crosswalk m)) + fl (we_underpass w * me_underpass m)))"

subsection \<open>The adjacency of a mode\<close>

datatype mode = Manual_Guidance | Auto_Nav2

text \<open>\<^verbatim>\<open>{str(node["id"]): node for node in graph["nodes"]}\<close>: the last node of an id counts.\<close>

definition node_by_id :: "route_graph \<Rightarrow> string \<Rightarrow> node option" where
  "node_by_id g = map_of (rev (map (\<lambda>n. (nd_id n, n)) (gr_nodes g)))"

definition node_allows :: "mode \<Rightarrow> node \<Rightarrow> bool" where
  "node_allows m n = (case m of Manual_Guidance \<Rightarrow> nd_manual n | Auto_Nav2 \<Rightarrow> nd_autonomous n)"

definition edge_allows :: "mode \<Rightarrow> edge \<Rightarrow> bool" where
  "edge_allows m e = (case m of Manual_Guidance \<Rightarrow> ed_manual e | Auto_Nav2 \<Rightarrow> ed_autonomous e)"

definition lookup_node :: "route_graph \<Rightarrow> string \<Rightarrow> exn + node" where
  "lookup_node g i = (case node_by_id g i of None \<Rightarrow> Inl KeyError | Some n \<Rightarrow> Inr n)"

definition add_arc :: "string \<Rightarrow> edge arc \<Rightarrow> edge adjacency \<Rightarrow> edge adjacency" where
  "add_arc u a adj = dput u (arcs_of adj u @ [a]) adj"

text \<open>The body of the loop over the edges; the second node is looked up only when the first allows.\<close>

definition add_edge :: "route_graph \<Rightarrow> mode \<Rightarrow> edge \<Rightarrow> edge adjacency \<Rightarrow> exn + edge adjacency" where
  "add_edge g m e adj =
     (if \<not> edge_allows m e then Inr adj
      else sbind (lookup_node g (ed_from e)) (\<lambda>u.
      if \<not> node_allows m u then Inr adj
      else sbind (lookup_node g (ed_to e)) (\<lambda>v.
      if \<not> node_allows m v then Inr adj
      else let adj = add_arc (ed_from e) (ed_to e, e, False) adj
           in Inr (if ed_bidirectional e then add_arc (ed_to e) (ed_from e, e, True) adj else adj))))"

fun add_edges :: "route_graph \<Rightarrow> mode \<Rightarrow> edge list \<Rightarrow> edge adjacency \<Rightarrow> exn + edge adjacency" where
  "add_edges g m [] adj = Inr adj"
| "add_edges g m (e # es) adj = sbind (add_edge g m e adj) (add_edges g m es)"

definition arc_key :: "edge arc \<Rightarrow> string \<times> string \<times> bool" where
  "arc_key a = (case a of (neighbor, e, backward) \<Rightarrow> (ed_id e, neighbor, backward))"

definition adjacency :: "route_graph \<Rightarrow> mode \<Rightarrow> exn + edge adjacency" where
  "adjacency g m =
     sbind (add_edges g m (gr_edges g) (map (\<lambda>i. (i, [])) (from_keys (map nd_id (gr_nodes g))))) (\<lambda>adj.
       Inr (map (\<lambda>(u, arcs). (u, sort_key arc_key arcs)) adj))"

text \<open>\<^verbatim>\<open>_shortest\<close>; \<open>None\<close> is a search that does not return.\<close>

definition shortest :: "route_graph \<Rightarrow> string \<Rightarrow> string \<Rightarrow> profile \<Rightarrow> mode \<Rightarrow> (exn + (edge \<times> bool) list) option" where
  "shortest g source target p m =
     (case adjacency g m of Inl e \<Rightarrow> Some (Inl e) | Inr adj \<Rightarrow> shortest_path adj source target (edge_cost p))"

subsection \<open>Stops\<close>

definition no_eligible_node :: "mode \<Rightarrow> string \<Rightarrow> exn" where
  "no_eligible_node m venue =
     RoutePlanningError (if m = Auto_Nav2 then ''NO_AUTONOMOUS_ELIGIBLE_ROUTE'' else ''RESTAURANT_UNREACHABLE'')
       (''no eligible route node for '' @ venue)"

definition venue_node :: "route_graph \<Rightarrow> string \<Rightarrow> string list \<Rightarrow> mode \<Rightarrow> exn + string" where
  "venue_node g venue roles m =
     (case sort (map nd_id (filter (\<lambda>n. nd_venue n = Some venue \<and> nd_role n \<in> set roles \<and> node_allows m n) (gr_nodes g))) of
        [] \<Rightarrow> Inl (no_eligible_node m venue)
      | i # _ \<Rightarrow> Inr i)"

text \<open>\<^verbatim>\<open>itertools.permutations\<close> and \<^verbatim>\<open>itertools.product\<close>, in their order.\<close>

fun picks :: "'a list \<Rightarrow> ('a \<times> 'a list) list" where
  "picks [] = []"
| "picks (x # xs) = (x, xs) # map (\<lambda>(y, ys). (y, x # ys)) (picks xs)"

lemma picks_length: "(y, ys) \<in> set (picks xs) \<Longrightarrow> length xs = Suc (length ys)"
  by (induction xs arbitrary: y ys) auto

function perms :: "'a list \<Rightarrow> 'a list list" where
  "perms xs = (if xs = [] then [[]] else concat (map (\<lambda>(y, ys). map ((#) y) (perms ys)) (picks xs)))"
  by auto
termination by (relation "measure length") (auto dest: picks_length)

definition visit_orders :: "string list \<Rightarrow> string list \<Rightarrow> (string list \<times> string list) list" where
  "visit_orders restaurants destinations =
     concat (map (\<lambda>r. map (\<lambda>d. (r, d)) (perms (sort destinations))) (perms (sort restaurants)))"

subsection \<open>Candidates\<close>

text \<open>Computations that may raise, and may not return (\<open>None\<close>).\<close>

definition tbind :: "(exn + 'a) option \<Rightarrow> ('a \<Rightarrow> (exn + 'b) option) \<Rightarrow> (exn + 'b) option" where
  "tbind r f = (case r of None \<Rightarrow> None | Some (Inl e) \<Rightarrow> Some (Inl e) | Some (Inr x) \<Rightarrow> f x)"

definition arrival :: "edge \<times> bool \<Rightarrow> string" where
  "arrival a = (case a of (e, backward) \<Rightarrow> if backward then ed_from e else ed_to e)"

definition leaves_from :: "edge \<times> bool \<Rightarrow> string" where
  "leaves_from a = (case a of (e, backward) \<Rightarrow> if backward then ed_to e else ed_from e)"

text \<open>The legs from stop to stop: the path so far and, per stop, how many edges lead to it.\<close>

fun legs :: "route_graph \<Rightarrow> profile \<Rightarrow> mode \<Rightarrow> string \<Rightarrow> (edge \<times> bool) list \<Rightarrow> string list
    \<Rightarrow> (exn + (edge \<times> bool) list \<times> nat list) option" where
  "legs g p m current path [] = Some (Inr (path, []))"
| "legs g p m current path (target # targets) =
     tbind (shortest g current target p m) (\<lambda>leg.
     tbind (legs g p m target (path @ leg) targets) (\<lambda>(whole, marks).
       Some (Inr (whole, length (path @ leg) # marks))))"

record segment =
  sg_index :: nat
  sg_edge :: string
  sg_from :: string
  sg_to :: string
  sg_type :: string
  sg_polyline :: "(rat \<times> rat) list"
  sg_distance :: rat
  sg_travel :: rat
  sg_wait :: rat
  sg_risk :: rat
  sg_requirements :: "(string \<times> string) list"
  sg_replan :: bool

record tally =
  ta_elapsed :: rat
  ta_distance :: rat
  ta_travel :: rat
  ta_food :: rat
  ta_signal :: rat
  ta_risk :: rat
  ta_crosswalks :: int
  ta_underpasses :: int
  ta_special :: int
  ta_turns :: int
  ta_heading :: "rat option"
  ta_ready :: bool

definition no_tally :: tally where
  "no_tally = \<lparr>ta_elapsed = 0, ta_distance = 0, ta_travel = 0, ta_food = 0, ta_signal = 0, ta_risk = 0, ta_crosswalks = 0,
     ta_underpasses = 0, ta_special = 0, ta_turns = 0, ta_heading = None, ta_ready = True\<rparr>"

text \<open>\<^verbatim>\<open>math.radians(25)\<close>\<close>

definition turn_limit :: rat where
  "turn_limit = fl (25 * fl (math_pi / 180))"

definition course :: "edge \<times> bool \<Rightarrow> (rat \<times> rat) list" where
  "course a = (case a of (e, backward) \<Rightarrow> if backward then rev (ed_polyline e) else ed_polyline e)"

definition turned :: "libm \<Rightarrow> rat option \<Rightarrow> rat \<Rightarrow> bool" where
  "turned L old heading = (case old of None \<Rightarrow> False
     | Some h \<Rightarrow> turn_limit < \<bar>atan2 L (sin_of L (fl (heading - h))) (cos_of L (fl (heading - h)))\<bar>)"

definition add_turn :: "libm \<Rightarrow> (rat \<times> rat) list \<Rightarrow> tally \<Rightarrow> tally" where
  "add_turn L points t =
     (case points of p # q # _ \<Rightarrow>
        let heading = atan2 L (fl (snd q - snd p)) (fl (fst q - fst p))
        in t\<lparr>ta_turns := ta_turns t + (if turned L (ta_heading t) heading then 1 else 0), ta_heading := Some heading\<rparr>
      | _ \<Rightarrow> t)"

definition states_of :: "(string \<times> string) list \<Rightarrow> edge \<Rightarrow> (string \<times> string) list" where
  "states_of projection e =
     map (\<lambda>r. (r, case map_of projection r of None \<Rightarrow> ''UNKNOWN'' | Some s \<Rightarrow> s)) (ed_requirements e)"

definition add_edge_costs :: "edge \<Rightarrow> tally \<Rightarrow> tally" where
  "add_edge_costs e t =
     (let m = edge_metrics e in
      t\<lparr>ta_elapsed := fl (ta_elapsed t + fl (me_travel m + me_wait m)), ta_distance := fl (ta_distance t + me_distance m),
        ta_travel := fl (ta_travel t + me_travel m), ta_signal := fl (ta_signal t + me_wait m),
        ta_risk := fl (ta_risk t + me_risk m), ta_crosswalks := ta_crosswalks t + \<lfloor>me_crosswalk m\<rfloor>,
        ta_underpasses := ta_underpasses t + \<lfloor>me_underpass m\<rfloor>, ta_special := ta_special t + \<lfloor>me_special m\<rfloor>\<rparr>)"

text \<open>The wait for the food where the edges so far lead to a pickup; the first stop with that many edges counts.\<close>

definition first_index :: "nat \<Rightarrow> nat list \<Rightarrow> nat" where
  "first_index n ns = length (takeWhile (\<lambda>k. k \<noteq> n) ns)"

definition food_ready_at :: "order \<Rightarrow> string \<Rightarrow> rat" where
  \<comment> \<open>the venues are those of the lines, so the list is never empty\<close>
  "food_ready_at z venue =
     (let times = map (\<lambda>l. fl (of_int (ol_ready_at l))) (filter (\<lambda>l. ol_restaurant l = venue) (or_lines z))
      in foldl max (hd times) (tl times))"

definition add_food_wait :: "order \<Rightarrow> string list \<Rightarrow> nat list \<Rightarrow> nat \<Rightarrow> tally \<Rightarrow> tally" where
  "add_food_wait z restaurants marks completed t =
     (if completed \<in> set (take (length restaurants) marks)
      then let wait = max 0 (fl (food_ready_at z (restaurants ! first_index completed marks) - ta_elapsed t))
           in t\<lparr>ta_food := fl (ta_food t + wait), ta_elapsed := fl (ta_elapsed t + wait)\<rparr>
      else t)"

definition make_segment :: "nat \<Rightarrow> (string \<times> string) list \<Rightarrow> edge \<times> bool \<Rightarrow> segment" where
  "make_segment index projection a =
     (let e = fst a; m = edge_metrics e in
      \<lparr>sg_index = index, sg_edge = ed_id e, sg_from = leaves_from a, sg_to = arrival a, sg_type = ed_type e,
       sg_polyline = course a, sg_distance = py_round 3 (me_distance m), sg_travel = py_round 3 (me_travel m),
       sg_wait = py_round 3 (ed_wait e), sg_risk = py_round 3 (me_risk m), sg_requirements = states_of projection e,
       sg_replan = ed_replan e\<rparr>)"

text \<open>The body of the loop over the edges of the path.\<close>

definition add_segment :: "libm \<Rightarrow> order \<Rightarrow> string list \<Rightarrow> nat list \<Rightarrow> mode \<Rightarrow> (string \<times> string) list
    \<Rightarrow> nat \<times> edge \<times> bool \<Rightarrow> tally \<Rightarrow> tally" where
  "add_segment L z restaurants marks m projection step t =
     (case step of (index, a) \<Rightarrow>
        let t = add_turn L (course a) (add_edge_costs (fst a) t);
            t = (if m = Auto_Nav2 \<and> list_ex (\<lambda>(r, s). s \<noteq> ''READY'') (states_of projection (fst a))
                 then t\<lparr>ta_ready := False\<rparr> else t)
        in add_food_wait z restaurants marks (index + 1) t)"

record route_stop =
  st_node :: string
  st_annotation :: string
  st_role :: string
  st_venue :: "string option"

record route_metrics =
  rm_score :: rat
  rm_distance :: rat
  rm_travel :: rat
  rm_food :: rat
  rm_signal :: rat
  rm_risk :: rat
  rm_eta :: rat
  rm_crosswalks :: int
  rm_underpasses :: int
  rm_turns :: int
  rm_special :: int

record route =
  ro_digest :: string
  ro_order :: string
  ro_profile :: profile
  ro_profiles :: "profile list"
  ro_mode :: mode
  ro_start :: string
  ro_nodes :: "string list"
  ro_stops :: "route_stop list"
  ro_segments :: "segment list"
  ro_metrics :: route_metrics
  ro_assumptions :: "string list"
  ro_autonomous :: bool
  ro_executable :: bool
  ro_reason :: string

definition route_score :: "profile \<Rightarrow> tally \<Rightarrow> rat" where
  "route_score p t =
     (let w = weights_of p in
      fl (fl (fl (fl (fl (we_time w * ta_elapsed t) + fl (we_risk w * ta_risk t)) + fl (we_crosswalk w * of_int (ta_crosswalks t)))
            + fl (we_underpass w * of_int (ta_underpasses t))) + fl (we_turn w * of_int (ta_turns t))))"

definition final_metrics :: "profile \<Rightarrow> tally \<Rightarrow> route_metrics" where
  "final_metrics p t =
     \<lparr>rm_score = py_round 3 (route_score p t), rm_distance = py_round 3 (ta_distance t), rm_travel = py_round 3 (ta_travel t),
      rm_food = py_round 3 (ta_food t), rm_signal = py_round 3 (ta_signal t), rm_risk = py_round 3 (ta_risk t),
      rm_eta = py_round 3 (ta_elapsed t), rm_crosswalks = ta_crosswalks t, rm_underpasses = ta_underpasses t,
      rm_turns = ta_turns t, rm_special = ta_special t\<rparr>"

definition mode_text :: "mode \<Rightarrow> string" where
  "mode_text m = (case m of Manual_Guidance \<Rightarrow> ''MANUAL_GUIDANCE'' | Auto_Nav2 \<Rightarrow> ''AUTO_NAV2'')"

definition profile_text :: "profile \<Rightarrow> string" where
  "profile_text p = (case p of Balanced \<Rightarrow> ''BALANCED'' | Fastest \<Rightarrow> ''FASTEST'' | Safest \<Rightarrow> ''SAFEST'')"

definition route_key :: "string list \<Rightarrow> profile \<Rightarrow> mode \<Rightarrow> order \<Rightarrow> route_graph \<Rightarrow> pydict" where
  "route_key nodes p m z g =
     [(''nodes'', VList (map VStr nodes)), (''profile'', VStr (profile_text p)), (''operation_mode'', VStr (mode_text m)),
      (''order_revision'', VStr (or_revision z)), (''graph_revision'', VStr (gr_revision g))]"

definition make_stop :: "route_graph \<Rightarrow> string \<Rightarrow> exn + route_stop" where
  "make_stop g i =
     sbind (lookup_node g i) (\<lambda>n.
       Inr \<lparr>st_node = i, st_annotation = nd_annotation n, st_role = nd_role n, st_venue = nd_venue n\<rparr>)"

definition assumptions_of :: "perception \<Rightarrow> string list" where
  "assumptions_of perception =
     [''RESTAURANT_PARALLEL_ORDER_SEQUENCE_20S'', ''GRAPH_EDGE_SPEED_AND_WAIT'']
     @ (if p_fresh perception \<noteq> VBool True then [''PERCEPTION_UNKNOWN_OR_STALE''] else [])"

text \<open>The stops of a visiting order: the restaurants' nodes and then the destinations'.\<close>

definition stop_nodes :: "route_graph \<Rightarrow> mode \<Rightarrow> string list \<Rightarrow> string list \<Rightarrow> exn + string list" where
  "stop_nodes g m restaurants destinations =
     sbind (map_exn (\<lambda>v. venue_node g v [''RESTAURANT_DOCK'', ''RESTAURANT_APPROACH''] m) restaurants) (\<lambda>rs.
     sbind (map_exn (\<lambda>v. venue_node g v [''DESTINATION_DOCK'', ''DESTINATION_APPROACH''] m) destinations) (\<lambda>ds.
       Inr (rs @ ds)))"

text \<open>What follows the search: totals, segments and the rest of the recommendation.\<close>

definition finish_candidate :: "libm \<Rightarrow> (pydict \<Rightarrow> string) \<Rightarrow> order \<Rightarrow> route_graph \<Rightarrow> pydict \<Rightarrow> string \<Rightarrow> mode \<Rightarrow> perception \<Rightarrow> profile
    \<Rightarrow> string list \<Rightarrow> string list \<Rightarrow> (edge \<times> bool) list \<Rightarrow> nat list \<Rightarrow> exn + route" where
  "finish_candidate L digest z g annotations start m perception p restaurants stops path marks =
     sbind (requirement_states perception) (\<lambda>projection.
     let steps = zip [0..<length path] path;
         t = foldl (\<lambda>t step. add_segment L z restaurants marks m projection step t) no_tally steps;
         nodes = start # map arrival path
     in sbind (map_exn (make_stop g) stops) (\<lambda>halts.
        sbind (node_poses g annotations) (\<lambda>_.
          Inr \<lparr>ro_digest = digest (route_key nodes p m z g), ro_order = or_id z, ro_profile = p, ro_profiles = [p], ro_mode = m,
               ro_start = start, ro_nodes = nodes, ro_stops = halts,
               ro_segments = map (\<lambda>(i, a). make_segment i projection a) steps, ro_metrics = final_metrics p t,
               ro_assumptions = assumptions_of perception, ro_autonomous = (m = Auto_Nav2),
               ro_executable = (m = Auto_Nav2 \<and> ta_ready t),
               ro_reason = (if ta_ready t then [] else ''SPECIAL_EDGE_NOT_READY'')\<rparr>)))"

definition candidate :: "libm \<Rightarrow> (pydict \<Rightarrow> string) \<Rightarrow> order \<Rightarrow> route_graph \<Rightarrow> pydict \<Rightarrow> string \<Rightarrow> mode \<Rightarrow> perception \<Rightarrow> profile
    \<Rightarrow> string list \<times> string list \<Rightarrow> (exn + route) option" where
  "candidate L digest z g annotations start m perception p visit =
     (case visit of (restaurants, destinations) \<Rightarrow>
        tbind (Some (stop_nodes g m restaurants destinations)) (\<lambda>stops.
        tbind (legs g p m start [] stops) (\<lambda>(path, marks).
          Some (finish_candidate L digest z g annotations start m perception p restaurants stops path marks))))"

subsection \<open>Recommendations\<close>

text \<open>The candidates of all visiting orders, and the planning errors of those without one.\<close>

fun try_orders :: "('o \<Rightarrow> (exn + 'r) option) \<Rightarrow> 'o list \<Rightarrow> (exn + 'r list \<times> exn list) option" where
  "try_orders f [] = Some (Inr ([], []))"
| "try_orders f (v # vs) =
     (case f v of
        None \<Rightarrow> None
      | Some (Inl (RoutePlanningError reason detail)) \<Rightarrow>
          tbind (try_orders f vs) (\<lambda>(rs, errors). Some (Inr (rs, RoutePlanningError reason detail # errors)))
      | Some (Inl e) \<Rightarrow> Some (Inl e)
      | Some (Inr r) \<Rightarrow> tbind (try_orders f vs) (\<lambda>(rs, errors). Some (Inr (r # rs, errors))))"

definition preference :: "route \<Rightarrow> rat \<times> rat \<times> rat \<times> string list" where
  "preference r = (rm_score (ro_metrics r), rm_distance (ro_metrics r), rm_risk (ro_metrics r), ro_nodes r)"

definition winner :: "route list \<times> exn list \<Rightarrow> exn + route" where
  "winner tried =
     (case sort_key preference (fst tried) of
        r # _ \<Rightarrow> Inr r
      | [] \<Rightarrow> (case snd tried of e # _ \<Rightarrow> Inl e
                 | [] \<Rightarrow> Inl (RoutePlanningError ''GRAPH_DISCONNECTED'' ''no candidate route exists'')))"

text \<open>A winner with the nodes of an earlier one only adds its profile to that one.\<close>

fun add_winner :: "route \<Rightarrow> route list \<Rightarrow> route list" where
  "add_winner w [] = [w]"
| "add_winner w (r # rs) =
     (if ro_nodes r = ro_nodes w then r\<lparr>ro_profiles := ro_profiles r @ [ro_profile w]\<rparr> # rs else r # add_winner w rs)"

fun per_profile :: "(profile \<Rightarrow> (exn + route list \<times> exn list) option) \<Rightarrow> profile list \<Rightarrow> route list \<Rightarrow> (exn + route list) option" where
  "per_profile f [] results = Some (Inr results)"
| "per_profile f (p # ps) results =
     tbind (f p) (\<lambda>tried. tbind (Some (winner tried)) (\<lambda>w. per_profile f ps (add_winner w results)))"

definition destination_of :: "order \<Rightarrow> order_line \<Rightarrow> string" where
  \<comment> \<open>\<^verbatim>\<open>str(line.get("destination_id") or order.get("destination_id"))\<close>\<close>
  "destination_of z l = (if ol_destination l \<noteq> [] then ol_destination l
     else case or_destination z of None \<Rightarrow> ''None'' | Some d \<Rightarrow> d)"

definition restaurant_ids :: "order \<Rightarrow> string list" where
  "restaurant_ids z = sort (remdups (map ol_restaurant (or_lines z)))"

definition destination_ids :: "order \<Rightarrow> string list" where
  "destination_ids z = sort (remdups (map (destination_of z) (or_lines z)))"

definition order_error :: "string \<Rightarrow> exn" where
  "order_error detail = RoutePlanningError ''ORDER_INVALID'' detail"

definition mode_of :: "string \<Rightarrow> mode option" where
  "mode_of s = (if s = ''MANUAL_GUIDANCE'' then Some Manual_Guidance else if s = ''AUTO_NAV2'' then Some Auto_Nav2 else None)"

text \<open>The checks before the search. The detail of the capacity error is a Korean sentence and left empty.\<close>

definition check_request :: "order \<Rightarrow> route_graph \<Rightarrow> string \<Rightarrow> string \<Rightarrow> exn + mode" where
  "check_request z g start operation_mode =
     (case mode_of operation_mode of
        None \<Rightarrow> Inl (order_error ''operation mode is invalid'')
      | Some m \<Rightarrow>
          sbind (guard (or_total z \<le> CAPACITY) (order_error [])) (\<lambda>_.
          sbind (guard (node_by_id g start \<noteq> None) (RoutePlanningError ''NO_START_NODE'' ''start node does not exist'')) (\<lambda>_.
          sbind (guard (1 \<le> length (restaurant_ids z) \<and> length (restaurant_ids z) \<le> 3)
                   (order_error ''order restaurant count is invalid'')) (\<lambda>_.
          sbind (guard (1 \<le> length (destination_ids z) \<and> length (destination_ids z) \<le> 4 \<and> ''None'' \<notin> set (destination_ids z))
                   (order_error ''order destination count is invalid'')) (\<lambda>_. Inr m)))))"

definition recommend_routes :: "libm \<Rightarrow> (pydict \<Rightarrow> string) \<Rightarrow> order \<Rightarrow> route_graph \<Rightarrow> pydict \<Rightarrow> string \<Rightarrow> string \<Rightarrow> perception
    \<Rightarrow> (exn + route list) option" where
  "recommend_routes L digest z g annotations start operation_mode perception =
     tbind (Some (check_request z g start operation_mode)) (\<lambda>m.
     tbind (per_profile (\<lambda>p. try_orders (candidate L digest z g annotations start m perception p)
                               (visit_orders (restaurant_ids z) (destination_ids z))) PROFILES []) (\<lambda>results.
       Some (Inr (take 3 results))))"

end
