(* ===== verification/Route_Planner_Claims.thy ===== *)
theory Route_Planner_Claims
  imports Route_Planner Route_Graph_Claims "HOL-Library.Multiset"
begin

text \<open>
  The properties of the recommendations: on an accepted graph the optimizer always answers, every route it recommends
  follows the graph in the mode it was asked for, and each profile gets the best of its candidates.
\<close>

declare perms.simps [simp del]

subsection \<open>Visiting orders\<close>

lemma picks_set: "(y, ys) \<in> set (picks xs) \<Longrightarrow> mset xs = add_mset y (mset ys)"
  by (induction xs arbitrary: y ys) auto

lemma picks_all: "y \<in> set xs \<Longrightarrow> \<exists>ys. (y, ys) \<in> set (picks xs) \<and> mset xs = add_mset y (mset ys)"
proof -
  assume "y \<in> set xs"
  then have "\<exists>ys. (y, ys) \<in> set (picks xs)"
  proof (induction xs)
    case (Cons x xs)
    show ?case
    proof (cases "y = x")
      case False
      with Cons obtain ys where "(y, ys) \<in> set (picks xs)" by auto
      then have "(y, x # ys) \<in> (\<lambda>(y, ys). (y, x # ys)) ` set (picks xs)" by (rule rev_image_eqI) simp
      then show ?thesis by auto
    qed auto
  qed simp
  then obtain ys where "(y, ys) \<in> set (picks xs)" ..
  with picks_set [OF this] show ?thesis by (intro exI [of _ ys] conjI)
qed

lemma perms_Nil [simp]: "perms [] = [[]]"
  by (simp add: perms.simps)

lemma perms_ne: "xs \<noteq> [] \<Longrightarrow> perms xs = concat (map (\<lambda>(y, ys). map ((#) y) (perms ys)) (picks xs))"
  by (simp add: perms.simps)

lemma perms_set: "set (perms xs) = {ys. mset ys = mset xs}"
proof (induction xs rule: length_induct)
  case (1 xs)
  show ?case
  proof (cases "xs = []")
    case False
    have sub: "set (perms ys) = {zs. mset zs = mset ys}" if "(y, ys) \<in> set (picks xs)" for y ys
      using 1 picks_length [OF that] by simp
    show ?thesis
    proof (intro set_eqI iffI)
      fix zs assume "zs \<in> set (perms xs)"
      then obtain y ys z where "(y, ys) \<in> set (picks xs)" "zs = y # z" "z \<in> set (perms ys)"
        by (auto simp: perms_ne [OF False])
      with sub [of y ys] picks_set [of y ys xs] show "zs \<in> {ys. mset ys = mset xs}" by simp
    next
      fix zs assume "zs \<in> {ys. mset ys = mset xs}"
      then have m: "mset zs = mset xs" by simp
      with False obtain y z where zs: "zs = y # z" by (cases zs) auto
      with m have "y \<in> set xs" by (metis list.set_intros(1) mset_eq_setD)
      from picks_all [OF this] obtain ys where ys: "(y, ys) \<in> set (picks xs)" "mset xs = add_mset y (mset ys)" by (elim exE conjE)
      with m zs have "z \<in> set (perms ys)" by (simp add: sub)
      then have a: "zs \<in> set (map ((#) y) (perms ys))" by (simp add: zs)
      have b: "map ((#) y) (perms ys) \<in> set (map (\<lambda>(y, ys). map ((#) y) (perms ys)) (picks xs))"
        unfolding set_map using ys(1) by (rule rev_image_eqI) simp
      show "zs \<in> set (perms xs)" unfolding perms_ne [OF False] set_concat using b a by (rule UN_I)
    qed
  qed simp
qed

lemma visit_orders_set:
  "(rs, ds) \<in> set (visit_orders xs ys) \<longleftrightarrow> mset rs = mset xs \<and> mset ds = mset ys"
  by (auto simp: visit_orders_def perms_set)

subsection \<open>The adjacency\<close>

definition nodes_allow :: "route_graph \<Rightarrow> mode \<Rightarrow> edge \<Rightarrow> bool" where
  "nodes_allow g m e \<longleftrightarrow> (\<exists>u v. node_by_id g (ed_from e) = Some u \<and> node_by_id g (ed_to e) = Some v \<and> node_allows m u \<and> node_allows m v)"

definition edge_arcs :: "route_graph \<Rightarrow> mode \<Rightarrow> edge \<Rightarrow> (string \<times> edge arc) list" where
  "edge_arcs g m e =
     (if edge_allows m e \<and> nodes_allow g m e
      then (ed_from e, ed_to e, e, False) # (if ed_bidirectional e then [(ed_to e, ed_from e, e, True)] else []) else [])"

definition arc_list :: "route_graph \<Rightarrow> mode \<Rightarrow> edge list \<Rightarrow> (string \<times> edge arc) list" where
  "arc_list g m es = concat (map (edge_arcs g m) es)"

definition endpoints_known :: "route_graph \<Rightarrow> edge \<Rightarrow> bool" where
  "endpoints_known g e \<longleftrightarrow> node_by_id g (ed_from e) \<noteq> None \<and> node_by_id g (ed_to e) \<noteq> None"

lemma arcs_of_add_arc [simp]: "arcs_of (add_arc u a adj) w = (if w = u then arcs_of adj u @ [a] else arcs_of adj w)"
  by (simp add: add_arc_def arcs_of_def)

lemma add_edge_arcs:
  assumes "endpoints_known g e" "ed_from e \<noteq> ed_to e"
  shows "\<exists>adj'. add_edge g m e adj = Inr adj'
    \<and> (\<forall>w. arcs_of adj' w = arcs_of adj w @ map snd (filter (\<lambda>x. fst x = w) (edge_arcs g m e)))"
proof -
  obtain u v where "node_by_id g (ed_from e) = Some u" "node_by_id g (ed_to e) = Some v"
    using assms(1) by (auto simp: endpoints_known_def)
  then show ?thesis using assms(2)
    by (auto simp: add_edge_def edge_arcs_def nodes_allow_def lookup_node_def Let_def)
qed

lemma add_edges_arcs:
  assumes "list_all (\<lambda>e. endpoints_known g e \<and> ed_from e \<noteq> ed_to e) es"
  shows "\<exists>adj'. add_edges g m es adj = Inr adj'
    \<and> (\<forall>w. arcs_of adj' w = arcs_of adj w @ map snd (filter (\<lambda>x. fst x = w) (arc_list g m es)))"
  using assms
proof (induction es arbitrary: adj)
  case (Cons e es)
  then obtain adj1 where a: "add_edge g m e adj = Inr adj1"
    "\<forall>w. arcs_of adj1 w = arcs_of adj w @ map snd (filter (\<lambda>x. fst x = w) (edge_arcs g m e))"
    using add_edge_arcs [of g e m adj] by auto
  from Cons.prems obtain adj2 where b: "add_edges g m es adj1 = Inr adj2"
    "\<forall>w. arcs_of adj2 w = arcs_of adj1 w @ map snd (filter (\<lambda>x. fst x = w) (arc_list g m es))" using Cons.IH [of adj1] by auto
  with a show ?case by (simp add: arc_list_def)
qed (simp add: arc_list_def)

lemma arcs_of_sorted: "arcs_of (map (\<lambda>(u, arcs). (u, sort_key arc_key arcs)) adj) w = sort_key arc_key (arcs_of adj w)"
proof -
  have "map_of (map (\<lambda>(u, arcs). (u, sort_key arc_key arcs)) adj) w = map_option (sort_key arc_key) (map_of adj w)"
    by (rule map_of_map [THEN fun_cong, unfolded comp_def])
  then show ?thesis by (cases "map_of adj w") (simp_all add: arcs_of_def)
qed

lemma arcs_of_empty: "arcs_of (map (\<lambda>i. (i, [])) xs) w = []"
  by (induction xs) (auto simp: arcs_of_def)

lemma adjacency_arcs:
  assumes "list_all (\<lambda>e. endpoints_known g e \<and> ed_from e \<noteq> ed_to e) (gr_edges g)"
  obtains adj where "adjacency g m = Inr adj"
    "\<And>w. arcs_of adj w = sort_key arc_key (map snd (filter (\<lambda>x. fst x = w) (arc_list g m (gr_edges g))))"
proof -
  let ?empty = "map (\<lambda>i. (i, [])) (from_keys (map nd_id (gr_nodes g)))"
  from add_edges_arcs [OF assms, of m ?empty] obtain adj where a: "add_edges g m (gr_edges g) ?empty = Inr adj"
    "\<forall>w. arcs_of adj w = map snd (filter (\<lambda>x. fst x = w) (arc_list g m (gr_edges g)))" by (auto simp: arcs_of_empty)
  show thesis
    by (rule that [of "map (\<lambda>(u, arcs). (u, sort_key arc_key arcs)) adj"])
      (simp_all add: adjacency_def a arcs_of_sorted)
qed

text \<open>A traversal of an edge the mode allows, backwards only where the edge is bidirectional.\<close>

definition arc_ok :: "route_graph \<Rightarrow> mode \<Rightarrow> edge \<times> bool \<Rightarrow> bool" where
  "arc_ok g m a \<longleftrightarrow> fst a \<in> set (gr_edges g) \<and> edge_allows m (fst a) \<and> nodes_allow g m (fst a)
     \<and> (snd a \<longrightarrow> ed_bidirectional (fst a))"

lemma arc_list_ok: "(w, v, e, r) \<in> set (arc_list g m (gr_edges g)) \<Longrightarrow> arc_ok g m (e, r) \<and> w = leaves_from (e, r) \<and> v = arrival (e, r)"
  by (auto simp: arc_list_def edge_arcs_def arc_ok_def leaves_from_def arrival_def split: if_splits)

text \<open>No two of the edges a mode allows lead from the same node to the same node.\<close>

definition no_parallel :: "route_graph \<Rightarrow> mode \<Rightarrow> bool" where
  "no_parallel g m \<longleftrightarrow> distinct (map (\<lambda>(w, v, e, r). (w, v)) (arc_list g m (gr_edges g)))"

lemma edge_cost_nonneg:
  assumes "0 \<le> ed_distance e" "0 \<le> ed_wait e" "0 \<le> ed_risk e" "0 \<le> ed_penalty e"
  shows "0 \<le> edge_cost p e"
proof -
  have w: "0 \<le> we_time (weights_of p)" "0 \<le> we_risk (weights_of p)" "0 \<le> we_crosswalk (weights_of p)" "0 \<le> we_underpass (weights_of p)"
    by (cases p; simp add: fl_nonneg)+
  have speed: "0 \<le> max (min (ed_speed e) (ed_limit e)) (fl (1 / 100))"
    using fl_nonneg [of "1 / 100"] by (simp add: le_max_iff_disj)
  have m: "0 \<le> me_travel (edge_metrics e)" "0 \<le> me_wait (edge_metrics e)" "0 \<le> me_risk (edge_metrics e)"
    "0 \<le> me_crosswalk (edge_metrics e)" "0 \<le> me_underpass (edge_metrics e)"
    using assms speed by (auto simp: edge_metrics_def intro!: fl_nonneg divide_nonneg_nonneg)
  show ?thesis unfolding edge_cost_def Let_def
    by (intro fl_nonneg add_nonneg_nonneg mult_nonneg_nonneg w m)
qed

definition plannable :: "route_graph \<Rightarrow> bool" where
  "plannable g \<longleftrightarrow> list_all (\<lambda>e. endpoints_known g e \<and> ed_from e \<noteq> ed_to e \<and> 0 \<le> ed_distance e \<and> 0 \<le> ed_wait e
     \<and> 0 \<le> ed_risk e \<and> 0 \<le> ed_penalty e) (gr_edges g)"

lemma node_by_id_known: "node_by_id g i \<noteq> None \<longleftrightarrow> i \<in> nd_id ` set (gr_nodes g)"
  by (auto simp: node_by_id_def map_of_eq_None_iff image_image)

lemma adjacency_searchable:
  assumes "plannable g" "no_parallel g m"
  obtains adj where "adjacency g m = Inr adj" "searchable (edge_cost p) adj"
    "\<And>w v e r. (v, e, r) \<in> set (arcs_of adj w) \<Longrightarrow> arc_ok g m (e, r) \<and> w = leaves_from (e, r) \<and> v = arrival (e, r)"
proof -
  have "list_all (\<lambda>e. endpoints_known g e \<and> ed_from e \<noteq> ed_to e) (gr_edges g)"
    using assms(1) by (auto simp: plannable_def list_all_iff)
  then obtain adj where adj: "adjacency g m = Inr adj"
    "\<And>w. arcs_of adj w = sort_key arc_key (map snd (filter (\<lambda>x. fst x = w) (arc_list g m (gr_edges g))))"
    by (rule adjacency_arcs) blast
  have arcs: "arc_ok g m (e, r) \<and> w = leaves_from (e, r) \<and> v = arrival (e, r)" if "(v, e, r) \<in> set (arcs_of adj w)" for w v e r
  proof -
    from that have "(w, v, e, r) \<in> set (arc_list g m (gr_edges g))" by (auto simp: adj(2))
    then show ?thesis by (rule arc_list_ok)
  qed
  have pairs: "distinct (map (\<lambda>x. fst (snd x)) (filter (\<lambda>x. fst x = w) xs))"
    if "distinct (map (\<lambda>(w, v, e, r). (w, v)) xs)" for w and xs :: "(string \<times> edge arc) list"
    using that by (induction xs) (auto intro: rev_image_eqI)
  have "distinct (map fst (arcs_of adj w))" for w
  proof -
    have "mset (map fst (arcs_of adj w)) = mset (map (\<lambda>x. fst (snd x)) (filter (\<lambda>x. fst x = w) (arc_list g m (gr_edges g))))"
      by (simp add: adj(2) image_mset.compositionality comp_def)
    then show ?thesis using pairs [of "arc_list g m (gr_edges g)" w] assms(2) unfolding no_parallel_def
      by (metis mset_eq_imp_distinct_iff)
  qed
  moreover have "0 \<le> edge_cost p e" if "(v, e, r) \<in> set (arcs_of adj w)" for w v e r
    using arcs [OF that] assms(1) by (auto simp: arc_ok_def plannable_def list_all_iff intro!: edge_cost_nonneg)
  ultimately have "searchable (edge_cost p) adj" by (auto simp: searchable_def)
  with adj(1) arcs show thesis by (intro that) blast+
qed

subsection \<open>Legs\<close>

fun chain :: "string \<Rightarrow> (edge \<times> bool) list \<Rightarrow> bool" where
  "chain s [] \<longleftrightarrow> True"
| "chain s (a # p) \<longleftrightarrow> leaves_from a = s \<and> chain (arrival a) p"

definition visited :: "string \<Rightarrow> (edge \<times> bool) list \<Rightarrow> string list" where
  "visited s p = s # map arrival p"

lemma last_visited: "last (visited s (p @ q)) = last (visited (last (visited s p)) q)"
  by (cases q rule: rev_cases) (simp_all add: visited_def)

lemma chain_append: "chain s (p @ q) \<longleftrightarrow> chain s p \<and> chain (last (visited s p)) q"
  by (induction p arbitrary: s) (auto simp: visited_def)

lemma walk_chain:
  assumes "\<And>w v e r. (v, e, r) \<in> set (arcs_of adj w) \<Longrightarrow> arc_ok g m (e, r) \<and> w = leaves_from (e, r) \<and> v = arrival (e, r)"
    "walk adj s ps t"
  shows "chain s (walk_edges ps) \<and> last (visited s (walk_edges ps)) = t \<and> list_all (arc_ok g m) (walk_edges ps)"
  using assms(2)
proof (induction ps arbitrary: s)
  case (Cons a ps)
  obtain v e r where a: "a = (v, e, r)" by (cases a)
  with Cons.prems have w: "(v, e, r) \<in> set (arcs_of adj s)" "walk adj v ps t" by auto
  from assms(1) [OF w(1)] Cons.IH [OF w(2)] show ?case by (auto simp: a walk_edges_def visited_def)
qed (simp add: walk_edges_def visited_def)

lemma shortest_returns:
  assumes "plannable g" "no_parallel g m"
  shows "shortest g s t p m = Some (Inl (no_route s t))
    \<or> (\<exists>path. shortest g s t p m = Some (Inr path) \<and> chain s path \<and> last (visited s path) = t \<and> list_all (arc_ok g m) path)"
proof -
  obtain adj where adj: "adjacency g m = Inr adj" "searchable (edge_cost p) adj"
    "\<And>w v e r. (v, e, r) \<in> set (arcs_of adj w) \<Longrightarrow> arc_ok g m (e, r) \<and> w = leaves_from (e, r) \<and> v = arrival (e, r)"
    using adjacency_searchable [OF assms] by metis
  from shortest_path_correct [OF adj(2), of s t] obtain r where r: "shortest_path adj s t (edge_cost p) = Some r"
    "search_outcome (edge_cost p) adj s t r" by blast
  show ?thesis
  proof (cases r)
    case (Inl e)
    with r adj(1) show ?thesis by (simp add: shortest_def search_outcome_def)
  next
    case (Inr path)
    with r obtain ps where "walk adj s ps t" "path = walk_edges ps" by (auto simp: search_outcome_def)
    with walk_chain [where s = s and ps = ps and t = t, OF adj(3)] r(1) adj(1) Inr show ?thesis by (simp add: shortest_def)
  qed
qed

text \<open>What the legs give: a path on from where they start, and the place of every stop in it.\<close>

definition legs_found :: "route_graph \<Rightarrow> mode \<Rightarrow> string \<Rightarrow> nat \<Rightarrow> string list \<Rightarrow> (edge \<times> bool) list \<Rightarrow> nat list \<Rightarrow> bool" where
  "legs_found g m s offset targets rest marks \<longleftrightarrow> chain s rest \<and> list_all (arc_ok g m) rest \<and> sorted marks
     \<and> list_all2 (\<lambda>k t. offset \<le> k \<and> k \<le> offset + length rest \<and> visited s rest ! (k - offset) = t) marks targets"

lemma visited_append: "last (visited s leg) = t \<Longrightarrow> visited s (leg @ rest) ! (length leg + j) = visited t rest ! j"
  by (cases leg rule: rev_cases; cases j) (auto simp: visited_def nth_append)

lemma legs_found_Cons:
  assumes leg: "chain s leg" "last (visited s leg) = t" "list_all (arc_ok g m) leg"
    and rest: "legs_found g m t (offset + length leg) targets rest marks"
  shows "legs_found g m s offset (t # targets) (leg @ rest) ((offset + length leg) # marks)"
proof -
  let ?at = "\<lambda>k t'. offset \<le> k \<and> k \<le> offset + length (leg @ rest) \<and> visited s (leg @ rest) ! (k - offset) = t'"
  have all: "list_all2 (\<lambda>k t'. offset + length leg \<le> k \<and> k \<le> offset + length leg + length rest
      \<and> visited t rest ! (k - (offset + length leg)) = t') marks targets" using rest by (simp add: legs_found_def)
  have step: "?at k t'" if a: "offset + length leg \<le> k" "k \<le> offset + length leg + length rest"
    "visited t rest ! (k - (offset + length leg)) = t'" for k t'
  proof -
    have "k - offset = length leg + (k - (offset + length leg))" using a(1) by simp
    then have "visited s (leg @ rest) ! (k - offset) = t'" using visited_append [OF leg(2)] a(3) by metis
    with a(1,2) show ?thesis by simp
  qed
  have "list_all2 ?at marks targets" using all by (rule list_all2_mono) (simp add: step)
  moreover have "?at (offset + length leg) t"
    using visited_append [OF leg(2), of rest 0] by (simp add: visited_def)
  moreover have "\<forall>k\<in>set marks. offset + length leg \<le> k"
    using all by (auto simp: list_all2_conv_all_nth in_set_conv_nth)
  ultimately show ?thesis
    using leg rest by (simp add: legs_found_def chain_append)
qed

lemma legs_return:
  assumes "plannable g" "no_parallel g m"
  shows "\<exists>r. legs g p m s path targets = Some r \<and> (case r of Inl e \<Rightarrow> \<exists>reason detail. e = RoutePlanningError reason detail
    | Inr (whole, marks) \<Rightarrow> \<exists>rest. whole = path @ rest \<and> legs_found g m s (length path) targets rest marks)"
proof (induction targets arbitrary: s path)
  case Nil
  show ?case by (simp add: legs_found_def)
next
  case (Cons t targets)
  from shortest_returns [OF assms, of s t p] show ?case
  proof (elim disjE exE conjE)
    assume "shortest g s t p m = Some (Inl (no_route s t))"
    then show ?thesis by (simp add: tbind_def no_route_def)
  next
    fix leg
    assume leg: "shortest g s t p m = Some (Inr leg)" "chain s leg" "last (visited s leg) = t" "list_all (arc_ok g m) leg"
    from Cons.IH [of t "path @ leg"] obtain r where r: "legs g p m t (path @ leg) targets = Some r"
      "case r of Inl e \<Rightarrow> \<exists>reason detail. e = RoutePlanningError reason detail
        | Inr (whole, marks) \<Rightarrow> \<exists>rest. whole = (path @ leg) @ rest \<and> legs_found g m t (length (path @ leg)) targets rest marks" by blast
    show ?thesis
    proof (cases r)
      case (Inl e)
      with r leg(1) show ?thesis by (auto simp: tbind_def)
    next
      case (Inr q)
      then obtain whole marks where q: "r = Inr (whole, marks)" by (cases q) auto
      with r(2) obtain rest where "whole = path @ leg @ rest" "legs_found g m t (length path + length leg) targets rest marks" by auto
      with legs_found_Cons [OF leg(2-4)] r(1) leg(1) q show ?thesis by (auto simp: tbind_def)
    qed
  qed
qed

subsection \<open>One candidate\<close>

abbreviation planning_error :: "exn \<Rightarrow> bool" where
  "planning_error e \<equiv> \<exists>reason detail. e = RoutePlanningError reason detail"

definition stop_ok :: "route_graph \<Rightarrow> mode \<Rightarrow> string list \<Rightarrow> string \<Rightarrow> string \<Rightarrow> bool" where
  "stop_ok g m roles venue i \<longleftrightarrow> (\<exists>n\<in>set (gr_nodes g). nd_id n = i \<and> nd_venue n = Some venue \<and> nd_role n \<in> set roles \<and> node_allows m n)"

lemma venue_node_cases:
  "(\<exists>i. venue_node g v roles m = Inr i \<and> stop_ok g m roles v i) \<or> (\<exists>e. venue_node g v roles m = Inl e \<and> planning_error e)"
proof -
  let ?ids = "sort (map nd_id (filter (\<lambda>n. nd_venue n = Some v \<and> nd_role n \<in> set roles \<and> node_allows m n) (gr_nodes g)))"
  show ?thesis
  proof (cases ?ids)
    case Nil
    then show ?thesis by (simp add: venue_node_def no_eligible_node_def)
  next
    case (Cons i us)
    then have "i \<in> set ?ids" by simp
    then have "stop_ok g m roles v i" by (auto simp: stop_ok_def)
    moreover have "venue_node g v roles m = Inr i" using Cons by (simp add: venue_node_def)
    ultimately show ?thesis by blast
  qed
qed

lemma venue_nodes_cases:
  "(\<exists>us. map_exn (\<lambda>v. venue_node g v roles m) vs = Inr us \<and> list_all2 (stop_ok g m roles) vs us)
   \<or> (\<exists>e. map_exn (\<lambda>v. venue_node g v roles m) vs = Inl e \<and> planning_error e)"
proof (induction vs)
  case (Cons v vs)
  with venue_node_cases [of g v roles m] show ?case by fastforce
qed simp

abbreviation RESTAURANT_ROLES :: "string list" where "RESTAURANT_ROLES \<equiv> [''RESTAURANT_DOCK'', ''RESTAURANT_APPROACH'']"
abbreviation DESTINATION_ROLES :: "string list" where "DESTINATION_ROLES \<equiv> [''DESTINATION_DOCK'', ''DESTINATION_APPROACH'']"

lemma stop_nodes_cases:
  "(\<exists>us js. stop_nodes g m rs ds = Inr (us @ js) \<and> list_all2 (stop_ok g m RESTAURANT_ROLES) rs us
      \<and> list_all2 (stop_ok g m DESTINATION_ROLES) ds js)
   \<or> (\<exists>e. stop_nodes g m rs ds = Inl e \<and> planning_error e)"
  using venue_nodes_cases [of g RESTAURANT_ROLES m rs] venue_nodes_cases [of g DESTINATION_ROLES m ds]
proof (elim disjE exE conjE)
  fix us js
  assume a: "map_exn (\<lambda>v. venue_node g v RESTAURANT_ROLES m) rs = Inr us" "list_all2 (stop_ok g m RESTAURANT_ROLES) rs us"
    "map_exn (\<lambda>v. venue_node g v DESTINATION_ROLES m) ds = Inr js" "list_all2 (stop_ok g m DESTINATION_ROLES) ds js"
  then have "stop_nodes g m rs ds = Inr (us @ js)" by (simp add: stop_nodes_def)
  with a show ?thesis by blast
qed (simp_all add: stop_nodes_def)

definition stop_is :: "route_graph \<Rightarrow> mode \<Rightarrow> string list \<Rightarrow> string \<Rightarrow> route_stop \<Rightarrow> bool" where
  "stop_is g m roles venue s \<longleftrightarrow> st_venue s = Some venue \<and> st_role s \<in> set roles
     \<and> (\<exists>n\<in>set (gr_nodes g). nd_id n = st_node s \<and> nd_annotation n = st_annotation s \<and> node_allows m n)"

lemma node_by_id_distinct:
  assumes "distinct (map nd_id (gr_nodes g))" "n \<in> set (gr_nodes g)"
  shows "node_by_id g (nd_id n) = Some n"
proof -
  have "distinct (map fst (rev (map (\<lambda>n. (nd_id n, n)) (gr_nodes g))))"
    using assms(1) by (simp add: rev_map [symmetric] comp_def)
  with assms(2) show ?thesis by (simp add: node_by_id_def map_of_eq_Some_iff)
qed

lemma make_stop_ok:
  assumes "distinct (map nd_id (gr_nodes g))" "stop_ok g m roles v i"
  shows "\<exists>s. make_stop g i = Inr s \<and> st_node s = i \<and> stop_is g m roles v s"
proof -
  from assms(2) obtain n where n: "n \<in> set (gr_nodes g)" "nd_id n = i" "nd_venue n = Some v" "nd_role n \<in> set roles" "node_allows m n"
    by (auto simp: stop_ok_def)
  with node_by_id_distinct [OF assms(1) n(1)] show ?thesis
    by (auto simp: make_stop_def lookup_node_def stop_is_def)
qed

lemma make_stops_ok:
  assumes "distinct (map nd_id (gr_nodes g))" "list_all2 (stop_ok g m roles) vs us"
  shows "\<exists>ss. map_exn (make_stop g) us = Inr ss \<and> map st_node ss = us \<and> list_all2 (stop_is g m roles) vs ss"
  using assms(2)
proof (induction rule: list_all2_induct)
  case (Cons v vs i us)
  with make_stop_ok [OF assms(1) Cons(1)] show ?case by fastforce
qed simp

lemma map_exn_append: "map_exn f (xs @ ys) = sbind (map_exn f xs) (\<lambda>a. sbind (map_exn f ys) (\<lambda>b. Inr (a @ b)))"
proof (induction xs)
  case Nil
  show ?case by (cases "map_exn f ys") simp_all
next
  case (Cons x xs)
  then show ?case by (cases "f x"; cases "map_exn f xs"; cases "map_exn f ys") simp_all
qed

definition all_ready :: "(string \<times> string) list \<Rightarrow> (edge \<times> bool) list \<Rightarrow> bool" where
  "all_ready projection path \<longleftrightarrow> (\<forall>a\<in>set path. \<forall>r\<in>set (ed_requirements (fst a)). map_of projection r = Some ''READY'')"

lemma not_ready_iff: "list_ex (\<lambda>(r, s). s \<noteq> ''READY'') (states_of projection e)
    \<longleftrightarrow> \<not> (\<forall>r\<in>set (ed_requirements e). map_of projection r = Some ''READY'')"
  by (auto simp: states_of_def list_ex_iff split: option.splits)

lemma add_segment_ready: "ta_ready (add_segment L z rs marks m projection (i, a) t) \<longleftrightarrow>
    ta_ready t \<and> \<not> (m = Auto_Nav2 \<and> list_ex (\<lambda>(r, s). s \<noteq> ''READY'') (states_of projection (fst a)))"
proof -
  have "ta_ready (add_food_wait z rs marks n t') = ta_ready t'" for n t' by (simp add: add_food_wait_def Let_def)
  moreover have "ta_ready (add_turn L ps t') = ta_ready t'" for ps t' by (simp add: add_turn_def Let_def split: list.splits)
  moreover have "ta_ready (add_edge_costs e t') = ta_ready t'" for e t' by (simp add: add_edge_costs_def Let_def)
  ultimately show ?thesis by (simp add: add_segment_def Let_def)
qed

lemma fold_ready:
  "ta_ready (foldl (\<lambda>t step. add_segment L z rs marks m projection step t) t steps) \<longleftrightarrow>
     ta_ready t \<and> (m = Auto_Nav2 \<longrightarrow> all_ready projection (map snd steps))"
proof (induction steps arbitrary: t)
  case (Cons step steps)
  obtain i a where "step = (i, a)" by (cases step)
  with Cons show ?case by (auto simp: add_segment_ready not_ready_iff all_ready_def)
qed (simp add: all_ready_def)

text \<open>What a recommended route promises.\<close>

definition route_permitted :: "route_graph \<Rightarrow> mode \<Rightarrow> (string \<times> string) list \<Rightarrow> order \<Rightarrow> string \<Rightarrow> route \<Rightarrow> bool" where
  "route_permitted g m projection z start r \<longleftrightarrow> ro_mode r = m \<and>
     (\<exists>path marks rs ds.
        chain start path \<and> list_all (arc_ok g m) path \<and> ro_nodes r = visited start path
      \<and> ro_segments r = map (\<lambda>(i, a). make_segment i projection a) (zip [0..<length path] path)
      \<and> mset rs = mset (restaurant_ids z) \<and> mset ds = mset (destination_ids z)
      \<and> list_all2 (stop_is g m RESTAURANT_ROLES) rs (take (length rs) (ro_stops r))
      \<and> list_all2 (stop_is g m DESTINATION_ROLES) ds (drop (length rs) (ro_stops r))
      \<and> sorted marks \<and> list_all2 (\<lambda>k s. k \<le> length path \<and> ro_nodes r ! k = st_node s) marks (ro_stops r)
      \<and> (ro_executable r \<longleftrightarrow> m = Auto_Nav2 \<and> all_ready projection path))"

lemma candidate_cases:
  assumes g: "distinct (map nd_id (gr_nodes g))" "plannable g" "no_parallel g m"
    and p: "requirement_states perception = Inr projection" "pose_index annotations = Inr poses"
    and v: "mset rs = mset (restaurant_ids z)" "mset ds = mset (destination_ids z)"
  shows "(\<exists>r. candidate L digest z g annotations start m perception p (rs, ds) = Some (Inr r)
      \<and> route_permitted g m projection z start r)
    \<or> (\<exists>e. candidate L digest z g annotations start m perception p (rs, ds) = Some (Inl e) \<and> planning_error e)"
proof (rule disjE [OF stop_nodes_cases [of g m rs ds]])
  assume "\<exists>e. stop_nodes g m rs ds = Inl e \<and> planning_error e"
  then show ?thesis by (auto simp: candidate_def tbind_def)
next
  assume "\<exists>us js. stop_nodes g m rs ds = Inr (us @ js) \<and> list_all2 (stop_ok g m RESTAURANT_ROLES) rs us
      \<and> list_all2 (stop_ok g m DESTINATION_ROLES) ds js"
  then obtain us js where s: "stop_nodes g m rs ds = Inr (us @ js)" "list_all2 (stop_ok g m RESTAURANT_ROLES) rs us"
    "list_all2 (stop_ok g m DESTINATION_ROLES) ds js" by blast
  from make_stops_ok [OF g(1) s(2)] obtain hs where hs: "map_exn (make_stop g) us = Inr hs" "map st_node hs = us"
    "list_all2 (stop_is g m RESTAURANT_ROLES) rs hs" by blast
  from make_stops_ok [OF g(1) s(3)] obtain ks where ks: "map_exn (make_stop g) js = Inr ks" "map st_node ks = js"
    "list_all2 (stop_is g m DESTINATION_ROLES) ds ks" by blast
  have halts: "map_exn (make_stop g) (us @ js) = Inr (hs @ ks)" by (simp add: map_exn_append hs ks)
  have poses: "node_poses g annotations = Inr (foldl (\<lambda>r n. case map_of poses (nd_annotation n) of None \<Rightarrow> r
      | Some q \<Rightarrow> dput (nd_id n) q r) [] (gr_nodes g))" by (simp add: node_poses_def p(2))
  from legs_return [OF g(2,3), of p start "[]" "us @ js"] obtain r where r: "legs g p m start [] (us @ js) = Some r"
    "case r of Inl e \<Rightarrow> planning_error e
      | Inr (whole, marks) \<Rightarrow> \<exists>rest. whole = [] @ rest \<and> legs_found g m start (length ([] :: (edge \<times> bool) list)) (us @ js) rest marks"
    by (elim exE conjE)
  show ?thesis
  proof (cases r)
    case (Inl e)
    with r s(1) show ?thesis by (auto simp: candidate_def tbind_def)
  next
    case (Inr q)
    then obtain path marks where q: "r = Inr (path, marks)" by (cases q) auto
    with r(2) have found: "legs_found g m start 0 (us @ js) path marks" by simp
    obtain c where c: "finish_candidate L digest z g annotations start m perception p rs (us @ js) path marks = Inr c"
      "ro_mode c = m" "ro_nodes c = visited start path" "ro_stops c = hs @ ks"
      "ro_segments c = map (\<lambda>(i, a). make_segment i projection a) (zip [0..<length path] path)"
      "ro_executable c \<longleftrightarrow> m = Auto_Nav2 \<and> all_ready projection path"
      by (auto simp: finish_candidate_def p(1) halts poses Let_def visited_def fold_ready no_tally_def)
    have "length hs = length rs" using hs(3) by (simp add: list_all2_lengthD)
    moreover have "list_all2 (\<lambda>k s. k \<le> length path \<and> visited start path ! k = st_node s) marks (hs @ ks)"
      using found hs(2) ks(2) by (auto simp: legs_found_def list_all2_conv_all_nth map_append [symmetric] simp del: map_append)
    ultimately have "route_permitted g m projection z start c"
      unfolding route_permitted_def c(2-6) using found hs(3) ks(3) v
      by (intro conjI refl exI [of _ path] exI [of _ marks] exI [of _ rs] exI [of _ ds]) (auto simp: legs_found_def)
    with r(1) q s(1) c(1) show ?thesis by (simp add: candidate_def tbind_def)
  qed
qed

subsection \<open>All visiting orders and profiles\<close>

lemma try_orders_return:
  assumes "\<And>v. v \<in> set vs \<Longrightarrow> (\<exists>r. f v = Some (Inr r) \<and> P r) \<or> (\<exists>e. f v = Some (Inl e) \<and> planning_error e)"
  shows "\<exists>rs es. try_orders f vs = Some (Inr (rs, es)) \<and> list_all P rs \<and> list_all planning_error es"
  using assms
proof (induction vs)
  case (Cons v vs)
  then obtain rs es where i: "try_orders f vs = Some (Inr (rs, es))" "list_all P rs" "list_all planning_error es" by auto
  from Cons.prems [of v] i show ?case by (auto simp: tbind_def)
qed simp

lemma try_orders_found:
  assumes "try_orders f vs = Some (Inr (rs, es))"
  shows "r \<in> set rs \<longleftrightarrow> (\<exists>v\<in>set vs. f v = Some (Inr r))"
  using assms
proof (induction vs arbitrary: rs es)
  case (Cons v vs)
  from Cons.prems obtain rs' es' where t: "try_orders f vs = Some (Inr (rs', es'))"
    by (auto simp: tbind_def split: option.splits sum.splits exn.splits)
  show ?case using Cons.prems Cons.IH [OF t] t
    by (auto simp: tbind_def split: option.splits sum.splits exn.splits)
qed simp

lemma winner_best:
  assumes "winner tried = Inr r"
  shows "r \<in> set (fst tried)" "\<And>r'. r' \<in> set (fst tried) \<Longrightarrow> preference r \<le> preference r'"
proof -
  obtain rs where rs: "sort_key preference (fst tried) = r # rs"
    using assms by (auto simp: winner_def split: list.splits)
  have set: "set (fst tried) = set (r # rs)" using rs by (metis set_sort)
  then show "r \<in> set (fst tried)" by simp
  have "sorted (map preference (r # rs))" using rs by (metis sorted_sort_key)
  then show "preference r \<le> preference r'" if "r' \<in> set (fst tried)" for r' using that set by auto
qed

lemma winner_cases:
  assumes "list_all P (fst tried)" "list_all planning_error (snd tried)"
  shows "(\<exists>r. winner tried = Inr r \<and> P r) \<or> (\<exists>e. winner tried = Inl e \<and> planning_error e)"
proof (cases "winner tried")
  case (Inl e)
  with assms show ?thesis by (auto simp: winner_def split: list.splits)
next
  case (Inr r)
  with winner_best(1) [OF Inr] assms show ?thesis by (auto simp: list_all_iff)
qed

lemma add_winner_props:
  "length (add_winner w rs) \<le> Suc (length rs)" "add_winner w rs \<noteq> []"
  by (induction w rs rule: add_winner.induct) auto

lemma add_winner_all:
  assumes "P w" "list_all P rs" "\<And>r ps. P r \<Longrightarrow> P (r\<lparr>ro_profiles := ps\<rparr>)"
  shows "list_all P (add_winner w rs)"
  using assms by (induction w rs rule: add_winner.induct) auto

lemma per_profile_return:
  assumes f: "\<And>p. \<exists>rs es. f p = Some (Inr (rs, es)) \<and> list_all P rs \<and> list_all planning_error es"
    and keep: "\<And>r ps. P r \<Longrightarrow> P (r\<lparr>ro_profiles := ps\<rparr>)" and "list_all P results"
  shows "(\<exists>rs. per_profile f ps results = Some (Inr rs) \<and> list_all P rs \<and> length rs \<le> length results + length ps
      \<and> (ps = [] \<or> rs \<noteq> []))
    \<or> (\<exists>e. per_profile f ps results = Some (Inl e) \<and> planning_error e)"
  using assms(3)
proof (induction ps arbitrary: results)
  case (Cons p ps)
  obtain rs es where r: "f p = Some (Inr (rs, es))" "list_all P rs" "list_all planning_error es" using f by blast
  from winner_cases [of P "(rs, es)"] r(2,3) consider w where "winner (rs, es) = Inr w" "P w"
    | e where "winner (rs, es) = Inl e" "planning_error e" by auto
  then show ?case
  proof cases
    case (1 w)
    have "list_all P (add_winner w results)" using 1(2) Cons.prems keep by (rule add_winner_all)
    from Cons.IH [OF this] show ?thesis using r(1) 1(1) add_winner_props [of w results]
      by (cases ps) (auto simp: tbind_def)
  next
    case (2 e)
    with r(1) show ?thesis by (auto simp: tbind_def)
  qed
qed simp

text \<open>Each profile's winner, by its nodes, is among the results, and no nodes occur twice.\<close>

definition answered :: "(profile \<Rightarrow> (exn + route list \<times> exn list) option) \<Rightarrow> profile \<Rightarrow> route list \<Rightarrow> bool" where
  "answered f p rs \<longleftrightarrow> (\<exists>tried w. f p = Some (Inr tried) \<and> winner tried = Inr w
     \<and> (\<exists>r\<in>set rs. ro_nodes r = ro_nodes w \<and> ro_profile w \<in> set (ro_profiles r)))"

lemma add_winner_nodes: "set (map ro_nodes (add_winner w rs)) = insert (ro_nodes w) (set (map ro_nodes rs))"
  by (induction w rs rule: add_winner.induct) auto

lemma add_winner_distinct: "distinct (map ro_nodes rs) \<Longrightarrow> distinct (map ro_nodes (add_winner w rs))"
proof (induction w rs rule: add_winner.induct)
  case (2 w r rs)
  then show ?case using add_winner_nodes [of w rs] by auto
qed simp

lemma add_winner_answers:
  "ro_profile w \<in> set (ro_profiles w) \<Longrightarrow> \<exists>r\<in>set (add_winner w rs). ro_nodes r = ro_nodes w \<and> ro_profile w \<in> set (ro_profiles r)"
  by (induction w rs rule: add_winner.induct) auto

lemma add_winner_keeps:
  "r \<in> set rs \<Longrightarrow> \<exists>r'\<in>set (add_winner w rs). ro_nodes r' = ro_nodes r \<and> set (ro_profiles r) \<subseteq> set (ro_profiles r')"
  by (induction w rs rule: add_winner.induct) auto

lemma answered_keeps: "answered f p rs \<Longrightarrow> answered f p (add_winner w rs)"
  unfolding answered_def by (metis add_winner_keeps subsetD)

lemma per_profile_answers:
  assumes "per_profile f ps results = Some (Inr rs)" "distinct (map ro_nodes results)"
    and own: "\<And>p tried w. f p = Some (Inr tried) \<Longrightarrow> w \<in> set (fst tried) \<Longrightarrow> ro_profile w \<in> set (ro_profiles w)"
  shows "distinct (map ro_nodes rs) \<and> (\<forall>p. p \<in> set ps \<or> answered f p results \<longrightarrow> answered f p rs)"
  using assms(1,2)
proof (induction ps arbitrary: results)
  case (Cons p ps)
  then obtain tried w where t: "f p = Some (Inr tried)" "winner tried = Inr w" "per_profile f ps (add_winner w results) = Some (Inr rs)"
    by (auto simp: tbind_def split: option.splits sum.splits)
  have "answered f p (add_winner w results)"
    using t(1,2) add_winner_answers [OF own [OF t(1) winner_best(1) [OF t(2)]], of results] unfolding answered_def by blast
  with Cons.IH [OF t(3) add_winner_distinct [OF Cons.prems(2)]] show ?case by (auto dest: answered_keeps)
qed simp

subsection \<open>Accepted graphs\<close>

lemma measured_nonneg: "\<forall>x y. 0 \<le> hypot L x y \<Longrightarrow> 0 \<le> measured_length L points"
proof -
  assume h: "\<forall>x y. 0 \<le> hypot L x y"
  have "0 \<le> foldl (\<lambda>s (p, q). fl (s + distance L p q)) c ps" if "0 \<le> c" for c ps
    using that
  proof (induction ps arbitrary: c)
    case (Cons a ps)
    have "0 \<le> distance L (fst a) (snd a)" using h by (simp add: distance_def)
    with Cons.prems have "0 \<le> fl (c + distance L (fst a) (snd a))" by (intro fl_nonneg add_nonneg_nonneg)
    from Cons.IH [OF this] show ?case by (simp add: case_prod_beta)
  qed simp
  then show ?thesis by (simp add: measured_length_def)
qed

lemma accepted_plannable:
  assumes "normalize_graph L gdigest bytes annotations geometry payload = Inr g" "\<forall>x y. 0 \<le> hypot L x y"
  shows "plannable g" "distinct (map nd_id (gr_nodes g))" "\<exists>poses. pose_index annotations = Inr poses"
proof -
  from assms(1) obtain raw_edges poses where n: "pose_index annotations = Inr poses"
    "normalize_edges L geometry poses (gr_nodes g) [] 0 raw_edges = Inr (gr_edges g)"
    by (rule normalize_graph_cases)
  show "\<exists>poses. pose_index annotations = Inr poses" using n(1) ..
  have ok: "graph_ok g" using normalize_graph_ok [OF assms(1)] ..
  then show "distinct (map nd_id (gr_nodes g))" by (simp add: graph_ok_def)
  have "0 \<le> ed_distance e" if "e \<in> set (gr_edges g)" for e
    using normalize_edges_cases(1) [OF n(2)] that measured_nonneg [OF assms(2), of "ed_polyline e"]
      py_round_mono [of 0 "measured_length L (ed_polyline e)" 6]
    by (auto simp: list_all_iff edge_accepted_def py_round_numeral)
  moreover have "edge_ok (nd_id ` set (gr_nodes g)) e" if "e \<in> set (gr_edges g)" for e
    using ok that unfolding graph_ok_def list_all_iff by blast
  then have "endpoints_known g e \<and> ed_from e \<noteq> ed_to e \<and> 0 \<le> ed_wait e \<and> 0 \<le> ed_risk e \<and> 0 \<le> ed_penalty e"
    if "e \<in> set (gr_edges g)" for e
    using that unfolding endpoints_known_def node_by_id_known edge_ok_def by blast
  ultimately show "plannable g" by (simp add: plannable_def list_all_iff)
qed

lemma route_permitted_profiles: "route_permitted g m projection z start r \<Longrightarrow> route_permitted g m projection z start (r\<lparr>ro_profiles := ps\<rparr>)"
  by (simp add: route_permitted_def)

lemma check_request_cases:
  "mode_of om = Some m \<Longrightarrow> check_request z g start om = Inr m \<or> (\<exists>e. check_request z g start om = Inl e \<and> planning_error e)"
  by (auto simp: check_request_def order_error_def guard_def)

lemma recommend_cases:
  assumes g: "distinct (map nd_id (gr_nodes g))" "plannable g" "no_parallel g m"
    and p: "requirement_states perception = Inr projection" "pose_index annotations = Inr poses" and m: "mode_of om = Some m"
  shows "(\<exists>rs. recommend_routes L digest z g annotations start om perception = Some (Inr rs) \<and> rs \<noteq> [] \<and> length rs \<le> 3
      \<and> list_all (route_permitted g m projection z start) rs)
    \<or> (\<exists>e. recommend_routes L digest z g annotations start om perception = Some (Inl e) \<and> planning_error e)"
proof -
  let ?f = "\<lambda>p. try_orders (candidate L digest z g annotations start m perception p) (visit_orders (restaurant_ids z) (destination_ids z))"
  have f: "\<exists>rs es. ?f p = Some (Inr (rs, es)) \<and> list_all (route_permitted g m projection z start) rs \<and> list_all planning_error es" for p
  proof (rule try_orders_return)
    fix v assume v: "v \<in> set (visit_orders (restaurant_ids z) (destination_ids z))"
    obtain rs ds where "v = (rs, ds)" by (cases v)
    with v show "(\<exists>r. candidate L digest z g annotations start m perception p v = Some (Inr r) \<and> route_permitted g m projection z start r)
      \<or> (\<exists>e. candidate L digest z g annotations start m perception p v = Some (Inl e) \<and> planning_error e)"
      using candidate_cases [OF g p, of rs z ds L digest start p] by (simp add: visit_orders_set)
  qed
  have three: "length PROFILES = 3" "PROFILES \<noteq> []" by (simp_all add: PROFILES_def)
  from per_profile_return [where f = ?f and results = "[]" and ps = PROFILES, OF f route_permitted_profiles] three
  have profiles: "(\<exists>rs. per_profile ?f PROFILES [] = Some (Inr rs) \<and> list_all (route_permitted g m projection z start) rs
      \<and> length rs \<le> 3 \<and> rs \<noteq> []) \<or> (\<exists>e. per_profile ?f PROFILES [] = Some (Inl e) \<and> planning_error e)" by simp
  from check_request_cases [OF m, of z g start] show ?thesis
  proof
    assume "check_request z g start om = Inr m"
    with profiles show ?thesis by (auto simp: recommend_routes_def tbind_def)
  next
    assume "\<exists>e. check_request z g start om = Inl e \<and> planning_error e"
    then show ?thesis by (auto simp: recommend_routes_def tbind_def)
  qed
qed

lemma candidate_profile:
  assumes "candidate L digest z g annotations start m perception p v = Some (Inr r)"
  shows "ro_profile r = p" "ro_profiles r = [p]"
  using assms by (auto simp: candidate_def tbind_def finish_candidate_def Let_def sbind_Inr_iff split: prod.splits option.splits sum.splits)

lemma shortest_self: "shortest g s s p m = (case adjacency g m of Inl e \<Rightarrow> Some (Inl e) | Inr adj \<Rightarrow> Some (Inr []))"
  by (simp add: shortest_def shortest_path_def search.simps [of _ _ s s "\<lambda>n. None"] heappop_def already_better_def split: sum.splits)

lemma per_profile_length: "per_profile f ps results = Some (Inr rs) \<Longrightarrow> length rs \<le> length results + length ps"
proof (induction ps arbitrary: results)
  case (Cons p ps)
  then obtain w where "per_profile f ps (add_winner w results) = Some (Inr rs)"
    by (auto simp: tbind_def split: option.splits sum.splits)
  from Cons.IH [OF this] add_winner_props(1) [of w results] show ?case by simp
qed simp

lemma legs_from_start:
  "legs g p m s [] (map (\<lambda>v. s) vs @ ds) = Some (Inr (path, marks)) \<Longrightarrow> set (take (length vs) marks) \<subseteq> {0}"
proof (induction vs arbitrary: marks)
  case (Cons v vs)
  then obtain marks' where "legs g p m s [] (map (\<lambda>v. s) vs @ ds) = Some (Inr (path, marks'))" "marks = 0 # marks'"
    by (auto simp: tbind_def shortest_self split: option.splits sum.splits)
  with Cons.IH show ?case by auto
qed simp

lemma py_round_zero: "py_round n 0 = 0"
  using py_round_of_int [of 0 n] by simp

lemma finish_without_wait:
  assumes "finish_candidate L digest z g annotations start m perception p restaurants stops path marks = Inr r"
    "set (take (length restaurants) marks) \<subseteq> {0}"
  shows "rm_food (ro_metrics r) = 0"
proof -
  have turn: "ta_food (add_turn L ps t) = ta_food t" for ps t by (simp add: add_turn_def Let_def split: list.splits)
  have costs: "ta_food (add_edge_costs e t) = ta_food t" for e t by (simp add: add_edge_costs_def Let_def)
  have "Suc i \<notin> set (take (length restaurants) marks)" for i using assms(2) by auto
  then have step: "ta_food (add_segment L z restaurants marks m projection (i, a) t) = ta_food t" for projection i a t
    by (simp add: add_segment_def add_food_wait_def Let_def turn costs)
  have "ta_food (foldl (\<lambda>t step. add_segment L z restaurants marks m projection step t) t steps) = ta_food t" for projection t steps
    by (induction steps arbitrary: t) (auto simp: step)
  with assms(1) show ?thesis
    by (auto simp: finish_candidate_def sbind_Inr_iff Let_def final_metrics_def no_tally_def py_round_zero)
qed

subsection \<open>A delivery from one node to the other\<close>

definition demo_batch :: order where
  "demo_batch = \<lparr>or_id = key_a 32, or_label = ''Order'', or_destination = Some ''WHIMOON'', or_destinations = [''WHIMOON''],
     or_lines = [\<lparr>ol_sequence = 1, ol_destination = ''WHIMOON'', ol_restaurant = ''DOMINO'', ol_menu = ''CHEESE_PIZZA'',
                 ol_quantity = 1, ol_ready_at = 20, ol_origin = None\<rparr>],
     or_count = 1, or_mode = Multi_Destination, or_total = 1, or_restaurants = 1, or_difficulty = ''LOW'', or_started_at = None,
     or_sheets = None, or_locked = False, or_revision = ''r''\<rparr>"

definition demo_view :: perception where
  "demo_view = \<lparr>p_sequence = VInt 1, p_fresh = VBool False, p_traffic = [], p_people = [], p_crosswalks = [], p_aruco = [],
     p_underpass_blocked = VNone\<rparr>"

definition demo_projection :: "(string \<times> string) list" where
  "demo_projection = map (\<lambda>r. (r, ''UNKNOWN'')) [''TRAFFIC_GREEN'', ''PEDESTRIAN_CLEAR'', ''CROSSWALK_ALIGNMENT'',
     ''LANE_BOUNDARY_VALID'', ''ARUCO_DOCKING''] @ OPERATOR_STATES"

lemma demo_ids: "restaurant_ids demo_batch = [''DOMINO'']" "destination_ids demo_batch = [''WHIMOON'']"
  by (simp_all add: restaurant_ids_def destination_ids_def demo_batch_def destination_of_def)

lemma demo_requirements: "requirement_states demo_view = Inr demo_projection"
  by (simp add: requirement_states_def demo_view_def demo_projection_def)

lemma demo_nodes: "node_by_id (demo_map w) ''AA'' = Some (demo_place ''AA'' (key_a 24) ''RESTAURANT_DOCK'' (Some ''DOMINO''))"
    "node_by_id (demo_map w) ''BB'' = Some (demo_place ''BB'' (key_b 24) ''DESTINATION_DOCK'' (Some ''WHIMOON''))"
  by (simp_all add: node_by_id_def demo_map_def demo_place_def)

lemma demo_arcs: "arc_list (demo_map w) m (gr_edges (demo_map w))
    = [(''AA'', ''BB'', demo_edge w, False), (''BB'', ''AA'', demo_edge w, True)]"
proof -
  have "edge_allows m (demo_edge w)" by (cases m) (simp_all add: edge_allows_def demo_edge_def)
  moreover have "nodes_allow (demo_map w) m (demo_edge w)"
    using demo_nodes [of w] by (cases m) (simp_all add: nodes_allow_def demo_edge_def node_allows_def demo_place_def)
  moreover have "gr_edges (demo_map w) = [demo_edge w]" by (simp add: demo_map_def)
  ultimately show ?thesis by (simp add: arc_list_def edge_arcs_def) (simp add: demo_edge_def)
qed

lemma demo_no_parallel: "no_parallel (demo_map w) m"
  by (simp add: no_parallel_def demo_arcs)

lemma manhattan_nonneg: "\<forall>x y. 0 \<le> hypot manhattan x y"
  by (simp add: manhattan_def)

lemma demo_accepted1: "normalize_graph manhattan (\<lambda>g. ''r'') (\<lambda>g. 0) (demo_annotations 1) None (demo_payload 1 1) = Inr (demo_map 1)"
  by (rule demo_accepted) simp

lemma demo_shortest: "\<exists>path. shortest (demo_map 1) ''AA'' ''BB'' p m = Some (Inr path)"
proof -
  note plan = accepted_plannable(1) [OF demo_accepted1 manhattan_nonneg]
  have known: "list_all (\<lambda>e. endpoints_known (demo_map 1) e \<and> ed_from e \<noteq> ed_to e) (gr_edges (demo_map 1))"
    using plan by (auto simp: plannable_def list_all_iff)
  obtain adj where adj: "adjacency (demo_map 1) m = Inr adj"
    "\<And>w. arcs_of adj w = sort_key arc_key (map snd (filter (\<lambda>x. fst x = w) (arc_list (demo_map 1) m (gr_edges (demo_map 1)))))"
    using adjacency_arcs [OF known] by metis
  obtain adj' where "adjacency (demo_map 1) m = Inr adj'" "searchable (edge_cost p) adj'"
    using adjacency_searchable [OF plan demo_no_parallel] by metis
  with adj(1) have "searchable (edge_cost p) adj" by simp
  from shortest_path_correct [OF this, of "''AA''" "''BB''"] obtain r where r: "shortest_path adj ''AA'' ''BB'' (edge_cost p) = Some r"
    "search_outcome (edge_cost p) adj ''AA'' ''BB'' r" by blast
  have "walk adj ''AA'' [(''BB'', demo_edge 1, False)] ''BB''" using adj(2) [of "''AA''"] by (simp add: demo_arcs)
  then have "\<exists>q. walk adj ''AA'' q ''BB''" by (rule exI [of _ "[(''BB'', demo_edge 1, False)]"])
  with r(2) obtain path where "r = Inr path" unfolding search_outcome_def by (cases r) auto
  with r(1) adj(1) show ?thesis by (simp add: shortest_def)
qed

lemma demo_stops: "stop_nodes (demo_map 1) m [''DOMINO''] [''WHIMOON''] = Inr [''AA'', ''BB'']"
  by (cases m) (simp_all add: stop_nodes_def venue_node_def demo_map_def demo_place_def node_allows_def)

lemma demo_candidate:
  "\<exists>r. candidate manhattan (\<lambda>k. ''d'') demo_batch (demo_map 1) (demo_annotations 1) ''AA'' m demo_view p ([''DOMINO''], [''WHIMOON'']) = Some (Inr r)"
proof -
  obtain adj where "adjacency (demo_map 1) m = Inr adj"
    using adjacency_searchable [OF accepted_plannable(1) [OF demo_accepted1 manhattan_nonneg] demo_no_parallel] by metis
  moreover obtain path where "shortest (demo_map 1) ''AA'' ''BB'' p m = Some (Inr path)" using demo_shortest by blast
  ultimately obtain q where q: "legs (demo_map 1) p m ''AA'' [] [''AA'', ''BB''] = Some (Inr q)"
    by (simp add: shortest_self tbind_def)
  have poses: "\<exists>poses. node_poses (demo_map 1) (demo_annotations 1) = Inr poses"
    using demo_poses [of 1] by (simp add: node_poses_def)
  obtain whole marks where "q = (whole, marks)" by (cases q)
  with q poses show ?thesis
    by (auto simp: candidate_def demo_stops tbind_def finish_candidate_def demo_requirements make_stop_def lookup_node_def demo_nodes Let_def)
qed

lemma demo_visits: "visit_orders [''DOMINO''] [''WHIMOON''] = [([''DOMINO''], [''WHIMOON''])]"
  by (simp add: visit_orders_def perms_ne)

lemma demo_recommended:
  "\<exists>rs. recommend_routes manhattan (\<lambda>k. ''d'') demo_batch (demo_map 1) (demo_annotations 1) ''AA'' ''MANUAL_GUIDANCE'' demo_view = Some (Inr rs)"
proof -
  have "mode_of ''MANUAL_GUIDANCE'' = Some Manual_Guidance" by (simp add: mode_of_def)
  then have check: "check_request demo_batch (demo_map 1) ''AA'' ''MANUAL_GUIDANCE'' = Inr Manual_Guidance"
    by (simp add: check_request_def demo_ids demo_nodes) (simp add: demo_batch_def CAPACITY_def)
  let ?f = "candidate manhattan (\<lambda>k. ''d'') demo_batch (demo_map 1) (demo_annotations 1) ''AA'' Manual_Guidance demo_view"
  have one: "\<exists>r. try_orders (?f p) [([''DOMINO''], [''WHIMOON''])] = Some (Inr ([r], []))" for p
    using demo_candidate [of Manual_Guidance p] by (auto simp: tbind_def)
  have w: "winner ([r], []) = Inr r" for r by (simp add: winner_def)
  show ?thesis using one [of Balanced] one [of Fastest] one [of Safest]
    by (elim exE) (simp add: recommend_routes_def check demo_ids demo_visits PROFILES_def tbind_def w del: try_orders.simps)
qed

subsection \<open>The properties\<close>



text \<open>C30. No two recommended routes have the same nodes, and every profile is answered: one of the routes that names the profile has the
  nodes of a candidate that, by rounded score, distance, risk and nodes, no candidate of any order of visiting the restaurants and
  then the destinations comes before.\<close>

theorem every_profile_gets_its_best:
  assumes "recommend_routes L digest z g annotations start om perception = Some (Inr rs)" "mode_of om = Some m"
  shows "distinct (map ro_nodes rs) \<and> (\<forall>p. \<exists>w visit. candidate L digest z g annotations start m perception p visit = Some (Inr w)
      \<and> (\<exists>r\<in>set rs. ro_nodes r = ro_nodes w \<and> p \<in> set (ro_profiles r))
      \<and> (\<forall>restaurants destinations c. mset restaurants = mset (restaurant_ids z) \<and> mset destinations = mset (destination_ids z)
           \<and> candidate L digest z g annotations start m perception p (restaurants, destinations) = Some (Inr c)
           \<longrightarrow> preference w \<le> preference c))"
proof -
  let ?c = "candidate L digest z g annotations start m perception"
  let ?v = "visit_orders (restaurant_ids z) (destination_ids z)"
  from assms obtain results where r: "per_profile (\<lambda>p. try_orders (?c p) ?v) PROFILES [] = Some (Inr results)" "rs = take 3 results"
    using check_request_cases [OF assms(2), of z g start]
    by (auto simp: recommend_routes_def tbind_def split: option.splits sum.splits)
  have own: "ro_profile w \<in> set (ro_profiles w)" if "try_orders (?c p) ?v = Some (Inr tried)" "w \<in> set (fst tried)" for p tried w
    using that try_orders_found [of "?c p" ?v "fst tried" "snd tried" w] candidate_profile by fastforce
  have all: "distinct (map ro_nodes results)" "answered (\<lambda>p. try_orders (?c p) ?v) p results" for p
    using per_profile_answers [OF r(1) _ own] by (cases p; simp add: PROFILES_def)+
  have "length results \<le> 3" using per_profile_length [OF r(1)] by (simp add: PROFILES_def)
  then have rs: "rs = results" using r(2) by simp
  have "\<exists>w visit. ?c p visit = Some (Inr w) \<and> (\<exists>r\<in>set rs. ro_nodes r = ro_nodes w \<and> p \<in> set (ro_profiles r))
      \<and> (\<forall>restaurants destinations c. mset restaurants = mset (restaurant_ids z) \<and> mset destinations = mset (destination_ids z)
           \<and> ?c p (restaurants, destinations) = Some (Inr c) \<longrightarrow> preference w \<le> preference c)" for p
  proof -
    from all(2) [of p] obtain found errors w where t: "try_orders (?c p) ?v = Some (Inr (found, errors))" "winner (found, errors) = Inr w"
      "\<exists>r\<in>set results. ro_nodes r = ro_nodes w \<and> ro_profile w \<in> set (ro_profiles r)" by (auto simp: answered_def)
    have w: "w \<in> set found" "\<And>c. c \<in> set found \<Longrightarrow> preference w \<le> preference c" using winner_best [OF t(2)] by auto
    from w(1) obtain visit where v: "?c p visit = Some (Inr w)" using try_orders_found [OF t(1)] by blast
    have "preference w \<le> preference c" if "mset restaurants = mset (restaurant_ids z)" "mset destinations = mset (destination_ids z)"
      "?c p (restaurants, destinations) = Some (Inr c)" for restaurants destinations c
      using that try_orders_found [OF t(1), of c] visit_orders_set [of restaurants destinations "restaurant_ids z" "destination_ids z"] w(2) by blast
    with v t(3) candidate_profile(1) [OF v] show ?thesis unfolding rs by blast
  qed
  with all(1) show ?thesis unfolding rs by blast
qed

lemma every_profile_gets_its_best_witness:
  "\<exists>rs. recommend_routes manhattan (\<lambda>k. ''d'') demo_batch (demo_map 1) (demo_annotations 1) ''AA'' ''MANUAL_GUIDANCE'' demo_view = Some (Inr rs)
     \<and> distinct (map ro_nodes rs) \<and> (\<exists>r\<in>set rs. Safest \<in> set (ro_profiles r))"
proof -
  obtain rs where rs: "recommend_routes manhattan (\<lambda>k. ''d'') demo_batch (demo_map 1) (demo_annotations 1) ''AA'' ''MANUAL_GUIDANCE'' demo_view
      = Some (Inr rs)" using demo_recommended ..
  have "mode_of ''MANUAL_GUIDANCE'' = Some Manual_Guidance" by (simp add: mode_of_def)
  from every_profile_gets_its_best [OF rs this] rs show ?thesis by (metis (no_types, lifting))
qed

text \<open>C31. A pickup at the start node never waits for the food: when every restaurant's node is the start node, the candidate's
  food wait is zero, whatever time the orders need, because the wait is added only where an edge ends at the pickup.\<close>

theorem pickup_at_start_skips_food_wait:
  assumes "candidate L digest z g annotations start m perception p (restaurants, destinations) = Some (Inr r)"
    "\<forall>v\<in>set restaurants. venue_node g v [''RESTAURANT_DOCK'', ''RESTAURANT_APPROACH''] m = Inr start"
  shows "rm_food (ro_metrics r) = 0"
proof -
  from assms(1) obtain stops path marks where s: "stop_nodes g m restaurants destinations = Inr stops"
    "legs g p m start [] stops = Some (Inr (path, marks))"
    "finish_candidate L digest z g annotations start m perception p restaurants stops path marks = Inr r"
    by (auto simp: candidate_def tbind_def split: option.splits sum.splits)
  have "map_exn (\<lambda>v. venue_node g v [''RESTAURANT_DOCK'', ''RESTAURANT_APPROACH''] m) restaurants = Inr (map (\<lambda>v. start) restaurants)"
    using assms(2) by (induction restaurants) auto
  with s(1) obtain ds where ds: "stops = map (\<lambda>v. start) restaurants @ ds" by (auto simp: stop_nodes_def sbind_Inr_iff)
  have "set (take (length restaurants) marks) \<subseteq> {0}"
    using legs_from_start [of g p m start restaurants ds path marks] s(2) ds by simp
  with s(3) show ?thesis by (rule finish_without_wait)
qed

lemma pickup_at_start_skips_food_wait_witness:
  "food_ready_at demo_batch ''DOMINO'' = 20 \<and> (\<exists>r. candidate manhattan (\<lambda>k. ''d'') demo_batch (demo_map 1) (demo_annotations 1) ''AA''
      Manual_Guidance demo_view Fastest ([''DOMINO''], [''WHIMOON'']) = Some (Inr r) \<and> rm_food (ro_metrics r) = 0)"
proof -
  obtain r where r: "candidate manhattan (\<lambda>k. ''d'') demo_batch (demo_map 1) (demo_annotations 1) ''AA''
      Manual_Guidance demo_view Fastest ([''DOMINO''], [''WHIMOON'']) = Some (Inr r)" using demo_candidate by blast
  have "rm_food (ro_metrics r) = 0"
    by (rule pickup_at_start_skips_food_wait [OF r])
      (simp add: venue_node_def demo_map_def demo_place_def node_allows_def)
  with r show ?thesis by (simp add: food_ready_at_def demo_batch_def fl_numeral)
qed

end
