(* ===== verification/Route_Guidance.thy ===== *)
theory Route_Guidance
  imports Route_Planner
begin

text \<open>
  \<^verbatim>\<open>route_planner/guidance.py\<close>: where on a recommended route a pose is, and what the operator is told to do there. The
  route is one \<^verbatim>\<open>recommend_routes\<close> returns, so the points of its polylines are numbers; the pose is a dictionary of the
  navigation view. The texts of the instructions, which are Korean sentences, are left out, their types are kept. As in
  the rest of the planner a product beyond the largest double is not an infinity.
\<close>

definition OFF_ROUTE_WARNING_M :: rat where "OFF_ROUTE_WARNING_M = fl (75 / 100)"
definition OFF_ROUTE_REPLAN_M :: rat where "OFF_ROUTE_REPLAN_M = fl (3 / 2)"

subsection \<open>Distance to a polyline\<close>

text \<open>\<^verbatim>\<open>_point\<close>: a missing key and a value without a float are caught, the overflow of a large integer is not.\<close>

definition point_of :: "pydict \<Rightarrow> exn + (rat \<times> rat) option" where
  "point_of value =
     (if \<not> has_key value ''x'' then Inr None
      else case py_float (dget value ''x'') of
        Inl e \<Rightarrow> if e = TypeError \<or> e = ValueError then Inr None else Inl e
      | Inr x \<Rightarrow>
          if \<not> has_key value ''y'' then Inr None
          else case py_float (dget value ''y'') of
            Inl e \<Rightarrow> if e = TypeError \<or> e = ValueError then Inr None else Inl e
          | Inr y \<Rightarrow> Inr (if is_finite x \<and> is_finite y then Some (fin_val x, fin_val y) else None))"

definition fraction_along :: "rat \<times> rat \<Rightarrow> rat \<times> rat \<Rightarrow> rat \<times> rat \<Rightarrow> rat" where
  "fraction_along p left right =
     (let dx = fl (fst right - fst left); dy = fl (snd right - snd left); length_sq = fl (fl (dx * dx) + fl (dy * dy))
      in if length_sq \<le> fl (1 / 10 ^ 12) then 0
         else max 0 (min 1 (fl (fl (fl (fl (fst p - fst left) * dx) + fl (fl (snd p - snd left) * dy)) / length_sq))))"

text \<open>\<^verbatim>\<open>_projection\<close>: the distance to a line and how far along it the nearest point is.\<close>

definition projection :: "libm \<Rightarrow> rat \<times> rat \<Rightarrow> rat \<times> rat \<Rightarrow> rat \<times> rat \<Rightarrow> rat \<times> rat" where
  "projection L p left right =
     (let dx = fl (fst right - fst left); dy = fl (snd right - snd left); fraction = fraction_along p left right;
          x = fl (fst left + fl (fraction * dx)); y = fl (snd left + fl (fraction * dy))
      in (hypot L (fl (fst p - x)) (fl (snd p - y)), fraction))"

text \<open>The loop over the lines: per line the distance and the way up to the nearest point, and the whole length.\<close>

fun line_pairs :: "libm \<Rightarrow> rat \<times> rat \<Rightarrow> rat \<Rightarrow> (rat \<times> rat) list \<Rightarrow> (rat \<times> rat) list \<times> rat" where
  "line_pairs L p accumulated (left # right # points) =
     (let len = hypot L (fl (fst right - fst left)) (fl (snd right - snd left)); (d, fraction) = projection L p left right;
          (pairs, whole) = line_pairs L p (fl (accumulated + len)) (right # points)
      in ((d, fl (accumulated + fl (fraction * len))) # pairs, whole))"
| "line_pairs L p accumulated points = ([], accumulated)"

text \<open>\<^verbatim>\<open>min(xs, key=f)\<close>: the first element of the least key.\<close>

fun first_min :: "('a \<Rightarrow> 'k::linorder) \<Rightarrow> 'a list \<Rightarrow> 'a \<Rightarrow> 'a" where
  "first_min f [] best = best"
| "first_min f (x # xs) best = first_min f xs (if f x < f best then x else best)"

text \<open>\<^verbatim>\<open>_segment_progress\<close>. A distance is \<open>None\<close> where the code has an infinity, on a polyline without a line.\<close>

definition segment_progress :: "libm \<Rightarrow> rat \<times> rat \<Rightarrow> (rat \<times> rat) list \<Rightarrow> rat option \<times> rat \<times> rat" where
  "segment_progress L p points =
     (case line_pairs L p 0 points of
        ([], whole) \<Rightarrow> (None, 0, 0)
      | (pair # pairs, whole) \<Rightarrow>
          let best = first_min (\<lambda>(d, along). (d, - along)) pairs pair in (Some (fst best), snd best, whole))"

subsection \<open>Instructions\<close>

datatype instruction =
    Wait_Traffic_Green | Wait_Pedestrian_Clear | Align_Crosswalk | Cross_Straight | Enter_Underpass | Aruco_Dock
  | Approach_Restaurant | Turn_Left | Turn_Right | Continue_Straight | Off_Route | Replan_Available

definition heading :: "libm \<Rightarrow> rat \<times> rat \<Rightarrow> rat \<times> rat \<Rightarrow> rat" where
  "heading L p q = atan2 L (fl (snd q - snd p)) (fl (fst q - fst p))"

definition turn_type :: "libm \<Rightarrow> segment \<Rightarrow> segment option \<Rightarrow> instruction" where
  "turn_type L current following =
     (case following of
        None \<Rightarrow> Continue_Straight
      | Some f \<Rightarrow>
          (case (rev (sg_polyline current), sg_polyline f) of
             (b # a # _, c # d # _) \<Rightarrow>
               let turn = fl (heading L c d - heading L a b); delta = atan2 L (sin_of L turn) (cos_of L turn)
               in if turn_limit < delta then Turn_Left else if delta < - turn_limit then Turn_Right else Continue_Straight
           | _ \<Rightarrow> Continue_Straight))"

definition asks_for :: "segment \<Rightarrow> string \<Rightarrow> bool" where
  "asks_for s r \<longleftrightarrow> r \<in> set (map fst (sg_requirements s))"

definition not_ready :: "(string \<times> string) list \<Rightarrow> string \<Rightarrow> bool" where
  "not_ready states r \<longleftrightarrow> map_of states r \<noteq> Some ''READY''"

text \<open>\<^verbatim>\<open>_instruction\<close>\<close>

definition instruct :: "libm \<Rightarrow> segment \<Rightarrow> segment option \<Rightarrow> (string \<times> string) list \<Rightarrow> instruction" where
  "instruct L s following states =
     (if asks_for s ''TRAFFIC_GREEN'' \<and> not_ready states ''TRAFFIC_GREEN'' then Wait_Traffic_Green
      else if asks_for s ''PEDESTRIAN_CLEAR'' \<and> not_ready states ''PEDESTRIAN_CLEAR'' then Wait_Pedestrian_Clear
      else if sg_type s = ''CROSSWALK''
      then if list_ex (\<lambda>r. r \<in> {''CROSSWALK_ALIGNMENT'', ''LANE_BOUNDARY_VALID''} \<and> not_ready states r) (map fst (sg_requirements s))
           then Align_Crosswalk else Cross_Straight
      else if sg_type s = ''UNDERPASS'' then Enter_Underpass
      else if sg_type s = ''DOCKING_APPROACH''
      then if asks_for s ''ARUCO_DOCKING'' \<and> not_ready states ''ARUCO_DOCKING'' then Aruco_Dock else Approach_Restaurant
      else turn_type L s following)"

subsection \<open>The projection of a pose\<close>

record guidance_fix =
  fx_index :: nat
  fx_segment :: segment
  fx_instruction :: instruction
  fx_progress :: rat
  fx_cross :: "rat option"
  fx_remaining :: rat
  fx_eta :: rat
  fx_requirements :: "(string \<times> string) list"
  fx_off_route :: bool
  fx_replan :: bool

datatype guidance_where = Route_Empty | Pose_Unavailable nat | Placed guidance_fix

record guidance_view =
  gv_where :: guidance_where
  gv_pickups :: "string list"
  gv_dropoffs :: "string list"
  gv_complete :: bool

text \<open>\<^verbatim>\<open>projection.get("current_segment_index", 0)\<close>\<close>

definition view_index :: "guidance_view \<Rightarrow> nat" where
  "view_index v = (case gv_where v of Route_Empty \<Rightarrow> 0 | Pose_Unavailable i \<Rightarrow> i | Placed f \<Rightarrow> fx_index f)"

text \<open>The candidates: distance, with a penalty on what lies two segments back, and the index; an infinity is
  greater than every number.\<close>

definition penalty :: "nat \<Rightarrow> nat \<Rightarrow> rat" where
  "penalty previous i = (if i < previous - 1 then fl (1 / 2) else 0)"

definition nearness :: "nat \<times> rat option \<Rightarrow> nat \<Rightarrow> bool \<times> rat \<times> int" where
  "nearness c previous =
     (case snd c of None \<Rightarrow> (True, 0, - int (fst c)) | Some d \<Rightarrow> (False, fl (d + penalty previous (fst c)), - int (fst c)))"

definition crosses :: "libm \<Rightarrow> rat \<times> rat \<Rightarrow> segment list \<Rightarrow> (nat \<times> rat option) list" where
  "crosses L p segments = map (\<lambda>(i, s). (i, fst (segment_progress L p (sg_polyline s)))) (zip [0..<length segments] segments)"

definition no_farther :: "rat option \<Rightarrow> rat \<Rightarrow> bool" where
  "no_farther cross limit = (case cross of None \<Rightarrow> False | Some d \<Rightarrow> d \<le> limit)"

text \<open>The segment the pose is on: no earlier than the last one while the pose is near the route.\<close>

definition chosen_index :: "libm \<Rightarrow> rat \<times> rat \<Rightarrow> segment list \<Rightarrow> nat \<Rightarrow> nat" where
  "chosen_index L p segments previous =
     (let cs = crosses L p segments; best = first_min (\<lambda>c. nearness c previous) (tl cs) (hd cs)
      in if no_farther (snd best) OFF_ROUTE_WARNING_M then max (min previous (length segments - 1)) (fst best) else fst best)"

definition place_pose :: "libm \<Rightarrow> route \<Rightarrow> segment list \<Rightarrow> rat \<times> rat \<Rightarrow> nat \<Rightarrow> (string \<times> string) list \<Rightarrow> guidance_fix" where
  "place_pose L r segments p previous states =
     (let i = chosen_index L p segments previous; s = segments ! i;
          (cross, along, len) = segment_progress L p (sg_polyline s);
          remaining = fl (max 0 (fl (len - along)) + foldl (\<lambda>t s. fl (t + sg_distance s)) 0 (drop (i + 1) segments));
          off = \<not> no_farther cross OFF_ROUTE_WARNING_M; replan = (\<not> no_farther cross OFF_ROUTE_REPLAN_M \<and> sg_replan s);
          whole = max (rm_distance (ro_metrics r)) (fl (1 / 1000))
      in \<lparr>fx_index = i, fx_segment = s,
          fx_instruction = (if off then if replan then Replan_Available else Off_Route
             else instruct L s (if i + 1 < length segments then Some (segments ! (i + 1)) else None) states),
          fx_progress = py_round 4 (if len \<le> 0 then 0 else min 1 (fl (along / len))),
          fx_cross = map_option (py_round 3) cross, fx_remaining = py_round 3 remaining,
          fx_eta = py_round 3 (fl (rm_eta (ro_metrics r) * min 1 (fl (remaining / whole)))),
          fx_requirements = states, fx_off_route = off, fx_replan = replan\<rparr>)"

text \<open>\<^verbatim>\<open>project_guidance\<close>; \<open>pose\<close> is \<open>None\<close> where the caller passes no mapping.\<close>

definition project_guidance :: "libm \<Rightarrow> route \<Rightarrow> pydict option \<Rightarrow> perception \<Rightarrow> nat \<Rightarrow> string list \<Rightarrow> string list \<Rightarrow> bool
    \<Rightarrow> exn + guidance_view" where
  "project_guidance L r pose perception previous pickups dropoffs delivered =
     (let segments = take 512 (ro_segments r);
          view = (\<lambda>w. \<lparr>gv_where = w, gv_pickups = take 5 (from_keys pickups), gv_dropoffs = take 4 (from_keys dropoffs),
                       gv_complete = delivered\<rparr>);
          lost = view (Pose_Unavailable (min previous (length segments - 1)))
      in if segments = [] then Inr (view Route_Empty)
         else case pose of
           None \<Rightarrow> Inr lost
         | Some d \<Rightarrow>
             sbind (point_of d) (\<lambda>point.
             case point of
               None \<Rightarrow> Inr lost
             | Some p \<Rightarrow>
                 sbind (requirement_states perception) (\<lambda>states.
                   Inr (view (Placed (place_pose L r segments p previous states))))))"

end
