(* ===== verification/Route_Guidance_Claims.thy ===== *)
theory Route_Guidance_Claims
  imports Route_Guidance Route_Planner_Claims
begin

text \<open>
  The properties of the guidance: what perception must have reported before the operator is told to cross, and how the
  position on the route moves.
\<close>

subsection \<open>Evidence behind a requirement\<close>

definition evidence_for :: "string \<Rightarrow> perception \<Rightarrow> bool" where
  "evidence_for q perception \<longleftrightarrow> p_fresh perception = VBool True \<and>
     (if q = ''TRAFFIC_GREEN'' then p_traffic perception \<noteq> [] \<and> (\<forall>item\<in>set (p_traffic perception). dget item ''signal'' = VStr ''GREEN''
           \<and> (\<exists>n\<ge>2. py_int (dget_or item ''consecutive_frames'' (VInt 2)) = Inr n))
      else if q = ''PEDESTRIAN_CLEAR'' then p_people perception \<noteq> []
           \<and> (\<forall>item\<in>set (p_people perception). dget_or item ''occupancy'' (VStr ''UNKNOWN'') = VStr ''CLEAR'')
      else if q = ''CROSSWALK_ALIGNMENT'' then p_crosswalks perception \<noteq> [] \<and> (\<forall>item\<in>set (p_crosswalks perception). dget item ''visible'' = VBool True
           \<and> (\<exists>x. py_float (dget_or item ''lateral_offset_m'' (VInt 99)) = Inr (Fin x) \<and> \<bar>x\<bar> \<le> fl (15 / 100))
           \<and> (\<exists>x. py_float (dget_or item ''heading_error_rad'' (VInt 99)) = Inr (Fin x) \<and> \<bar>x\<bar> \<le> fl (2 / 10)))
      else if q = ''LANE_BOUNDARY_VALID'' then p_crosswalks perception \<noteq> [] \<and> (\<forall>item\<in>set (p_crosswalks perception).
           (\<exists>f. py_float (dget_or item ''left_boundary_distance_m'' (VInt (- 1))) = Inr f \<and> pf_le (Fin 0) f)
           \<and> (\<exists>f. py_float (dget_or item ''right_boundary_distance_m'' (VInt (- 1))) = Inr f \<and> pf_le (Fin 0) f))
      else if q = ''ARUCO_DOCKING'' then \<exists>item\<in>set (p_aruco perception). dget item ''docking_ready'' = VBool True
      else False)"

lemma some_all_True: "some_all f xs = Inr True \<longleftrightarrow> xs \<noteq> [] \<and> (\<forall>x\<in>set xs. f x = Inr True)"
  by (auto simp: some_all_def all_exn_True list_all_iff)

lemma green_twice_True: "green_twice item = Inr True \<longleftrightarrow> dget item ''signal'' = VStr ''GREEN''
    \<and> (\<exists>n\<ge>2. py_int (dget_or item ''consecutive_frames'' (VInt 2)) = Inr n)"
  by (auto simp: green_twice_def and_exn_True sbind_Inr_iff)

lemma field_within_True: "field_within item key limit = Inr True \<longleftrightarrow> (\<exists>x. py_float (dget_or item key (VInt 99)) = Inr (Fin x) \<and> \<bar>x\<bar> \<le> limit)"
  by (auto simp: field_within_def sbind_Inr_iff is_finite_iff)

lemma field_nonnegative_True: "field_nonnegative item key = Inr True \<longleftrightarrow> (\<exists>f. py_float (dget_or item key (VInt (- 1))) = Inr f \<and> pf_le (Fin 0) f)"
  by (auto simp: field_nonnegative_def sbind_Inr_iff)

lemma requirement_ready:
  assumes "requirement_states perception = Inr states" "map_of states q = Some ''READY''"
  shows "evidence_for q perception"
proof (cases "p_fresh perception = VBool True")
  case False
  with assms show ?thesis by (auto simp: requirement_states_def OPERATOR_STATES_def split: if_splits)
next
  case True
  from assms(1) True obtain green alignment boundary where f: "some_all green_twice (p_traffic perception) = Inr green"
    "some_all crosswalk_aligned (p_crosswalks perception) = Inr alignment"
    "some_all crosswalk_bounded (p_crosswalks perception) = Inr boundary"
    by (auto simp: requirement_states_def sbind_Inr_iff)
  have q: "q = ''TRAFFIC_GREEN'' \<and> green \<or> q = ''PEDESTRIAN_CLEAR'' \<and> p_people perception \<noteq> []
        \<and> list_all (\<lambda>item. text_field item ''occupancy'' = VStr ''CLEAR'') (p_people perception)
      \<or> q = ''CROSSWALK_ALIGNMENT'' \<and> alignment \<or> q = ''LANE_BOUNDARY_VALID'' \<and> boundary
      \<or> q = ''ARUCO_DOCKING'' \<and> list_ex (\<lambda>item. dget item ''docking_ready'' = VBool True) (p_aruco perception)"
  proof -
    have words: "''READY'' = (if b then ''READY'' else if b' then ''BLOCKED'' else ''UNKNOWN'') \<longleftrightarrow> b"
      "''READY'' = (if b then ''READY'' else ''UNKNOWN'') \<longleftrightarrow> b" for b b' by simp_all
    obtain red occupied where states: "states = [(''TRAFFIC_GREEN'', if green then ''READY'' else if red then ''BLOCKED'' else ''UNKNOWN''),
        (''PEDESTRIAN_CLEAR'', if map (\<lambda>item. text_field item ''occupancy'') (p_people perception) \<noteq> []
            \<and> list_all (\<lambda>v. v = VStr ''CLEAR'') (map (\<lambda>item. text_field item ''occupancy'') (p_people perception))
           then ''READY'' else if occupied then ''BLOCKED'' else ''UNKNOWN''),
        (''CROSSWALK_ALIGNMENT'', if alignment then ''READY'' else ''UNKNOWN''),
        (''LANE_BOUNDARY_VALID'', if boundary then ''READY'' else ''UNKNOWN''),
        (''ARUCO_DOCKING'', if list_ex (\<lambda>item. dget item ''docking_ready'' = VBool True) (p_aruco perception) then ''READY'' else ''UNKNOWN'')]
        @ OPERATOR_STATES"
      using assms(1) by (simp only: requirement_states_def True f sbind_simps Let_def sum.inject not_True_eq_False if_False refl simp_thms)
        blast
    have "(q, ''READY'') \<in> set states" using assms(2) by (rule map_of_SomeD)
    then consider "q = ''TRAFFIC_GREEN''" "green" | "q = ''PEDESTRIAN_CLEAR''" "p_people perception \<noteq> []"
        "list_all (\<lambda>v. v = VStr ''CLEAR'') (map (\<lambda>item. text_field item ''occupancy'') (p_people perception))"
      | "q = ''CROSSWALK_ALIGNMENT''" "alignment" | "q = ''LANE_BOUNDARY_VALID''" "boundary"
      | "q = ''ARUCO_DOCKING''" "list_ex (\<lambda>item. dget item ''docking_ready'' = VBool True) (p_aruco perception)"
      unfolding states by (simp only: OPERATOR_STATES_def set_append set_simps Un_iff insert_iff prod.inject words empty_iff map_is_Nil_conv)
        (elim disjE conjE; simp)
    then show ?thesis by cases (simp_all add: list_all_iff)
  qed
  have green: "green \<Longrightarrow> p_traffic perception \<noteq> [] \<and> (\<forall>item\<in>set (p_traffic perception). green_twice item = Inr True)"
    using f(1) by (simp add: some_all_True)
  have aligned: "alignment \<Longrightarrow> p_crosswalks perception \<noteq> [] \<and> (\<forall>item\<in>set (p_crosswalks perception). crosswalk_aligned item = Inr True)"
    using f(2) by (simp add: some_all_True)
  have bounded: "boundary \<Longrightarrow> p_crosswalks perception \<noteq> [] \<and> (\<forall>item\<in>set (p_crosswalks perception). crosswalk_bounded item = Inr True)"
    using f(3) by (simp add: some_all_True)
  from q show ?thesis
  proof (elim disjE conjE)
    assume "q = ''TRAFFIC_GREEN''" green
    with green True show ?thesis by (simp add: evidence_for_def green_twice_True)
  next
    assume "q = ''PEDESTRIAN_CLEAR''" "p_people perception \<noteq> []"
      "list_all (\<lambda>item. text_field item ''occupancy'' = VStr ''CLEAR'') (p_people perception)"
    with True show ?thesis by (simp add: evidence_for_def text_field_def list_all_iff)
  next
    assume "q = ''CROSSWALK_ALIGNMENT''" alignment
    with aligned True show ?thesis by (simp add: evidence_for_def crosswalk_aligned_def and_exn_True field_within_True)
  next
    assume "q = ''LANE_BOUNDARY_VALID''" boundary
    with bounded True show ?thesis by (simp add: evidence_for_def crosswalk_bounded_def and_exn_True field_nonnegative_True)
  next
    assume "q = ''ARUCO_DOCKING''" "list_ex (\<lambda>item. dget item ''docking_ready'' = VBool True) (p_aruco perception)"
    with True show ?thesis by (simp add: evidence_for_def list_ex_iff)
  qed
qed

subsection \<open>The place on the route\<close>

lemma first_min_in: "first_min f xs b \<in> insert b (set xs)"
proof (induction xs arbitrary: b)
  case (Cons x xs)
  from Cons [of "if f x < f b then x else b"] show ?case by auto
qed simp

lemma placed:
  assumes "project_guidance L r pose perception previous ps ds c = Inr v" "gv_where v = Placed f"
  obtains d p states where "pose = Some d" "point_of d = Inr (Some p)" "requirement_states perception = Inr states"
    "f = place_pose L r (take 512 (ro_segments r)) p previous states" "take 512 (ro_segments r) \<noteq> []"
  using assms by (auto simp: project_guidance_def Let_def sbind_Inr_iff split: if_splits option.splits)

lemma place_pose_fields:
  assumes "f = place_pose L r segments p previous states"
  shows "fx_index f = chosen_index L p segments previous" "fx_segment f = segments ! fx_index f"
    "fx_off_route f \<longleftrightarrow> \<not> no_farther (fst (segment_progress L p (sg_polyline (fx_segment f)))) OFF_ROUTE_WARNING_M"
    "fx_replan f \<longleftrightarrow> \<not> no_farther (fst (segment_progress L p (sg_polyline (fx_segment f)))) OFF_ROUTE_REPLAN_M \<and> sg_replan (fx_segment f)"
    "fx_instruction f = (if fx_off_route f then if fx_replan f then Replan_Available else Off_Route
       else instruct L (fx_segment f) (if fx_index f + 1 < length segments then Some (segments ! (fx_index f + 1)) else None) states)"
    "fx_progress f = (case segment_progress L p (sg_polyline (fx_segment f)) of (cross, along, len) \<Rightarrow>
       py_round 4 (if len \<le> 0 then 0 else min 1 (fl (along / len))))"
  unfolding assms by (simp_all add: place_pose_def Let_def split: prod.splits)

lemma chosen_index_cases:
  assumes "segments \<noteq> []"
  shows "chosen_index L p segments previous < length segments"
    "chosen_index L p segments previous < min previous (length segments - 1)
      \<Longrightarrow> \<not> no_farther (fst (segment_progress L p (sg_polyline (segments ! chosen_index L p segments previous)))) OFF_ROUTE_WARNING_M"
proof -
  let ?cs = "crosses L p segments"
  define best where "best = first_min (\<lambda>c. nearness c previous) (tl ?cs) (hd ?cs)"
  have ne: "?cs \<noteq> []" using assms by (simp add: crosses_def)
  have "best \<in> set ?cs" using first_min_in [of "\<lambda>c. nearness c previous" "tl ?cs" "hd ?cs"] ne
    unfolding best_def by (metis list.exhaust_sel list.simps(15))
  then have b: "fst best < length segments" "snd best = fst (segment_progress L p (sg_polyline (segments ! fst best)))"
    by (auto simp: crosses_def set_zip)
  have c: "chosen_index L p segments previous
      = (if no_farther (snd best) OFF_ROUTE_WARNING_M then max (min previous (length segments - 1)) (fst best) else fst best)"
    by (simp add: chosen_index_def Let_def best_def)
  have n: "length segments - 1 < length segments" using assms by simp
  show "chosen_index L p segments previous < length segments"
    unfolding c using b(1) n by (simp add: less_max_iff_disj min_less_iff_disj max_def min_def)
  show "chosen_index L p segments previous < min previous (length segments - 1)
      \<Longrightarrow> \<not> no_farther (fst (segment_progress L p (sg_polyline (segments ! chosen_index L p segments previous)))) OFF_ROUTE_WARNING_M"
    unfolding c b(2) [symmetric] by (auto split: if_splits simp: b(2))
qed

lemma fraction_bounds: "0 \<le> fraction_along p a b \<and> fraction_along p a b \<le> 1"
  by (simp add: fraction_along_def Let_def)

lemma line_pairs_nonneg:
  assumes h: "\<forall>x y. 0 \<le> hypot L x y"
  shows "0 \<le> acc \<Longrightarrow> (d, a) \<in> set (fst (line_pairs L p acc points)) \<Longrightarrow> 0 \<le> a"
proof (induction points arbitrary: acc)
  case (Cons left points)
  show ?case
  proof (cases points)
    case (Cons right rest)
    let ?len = "hypot L (fl (fst right - fst left)) (fl (snd right - snd left))"
    have len: "0 \<le> ?len" using h by blast
    have frac: "0 \<le> snd (projection L p left right)" using fraction_bounds by (simp add: projection_def Let_def)
    have step: "set (fst (line_pairs L p acc (left # points)))
        = insert (fst (projection L p left right), fl (acc + fl (snd (projection L p left right) * ?len)))
            (set (fst (line_pairs L p (fl (acc + ?len)) points)))"
      by (simp add: Cons Let_def split: prod.splits)
    have "0 \<le> fl (acc + ?len)" using Cons.prems(1) len by (intro fl_nonneg add_nonneg_nonneg)
    moreover have "0 \<le> fl (acc + fl (snd (projection L p left right) * ?len))"
      using Cons.prems(1) len frac by (intro fl_nonneg add_nonneg_nonneg mult_nonneg_nonneg)
    ultimately show ?thesis using Cons.prems(2) Cons.IH unfolding step by auto
  qed (use Cons.prems in simp)
qed simp

lemma along_nonneg:
  assumes "\<forall>x y. 0 \<le> hypot L x y" "segment_progress L p points = (cross, along, len)"
  shows "0 \<le> along"
proof -
  obtain pairs whole where l: "line_pairs L p 0 points = (pairs, whole)" by (cases "line_pairs L p 0 points")
  show ?thesis
  proof (cases pairs)
    case Nil
    with assms(2) l show ?thesis by (simp add: segment_progress_def)
  next
    case (Cons pair rest)
    obtain best where best: "best = first_min (\<lambda>(d, along). (d, - along)) rest pair" by simp
    have "best \<in> set pairs" using first_min_in [of "\<lambda>(d, along). (d, - along)" rest pair] by (simp add: best Cons)
    moreover have "along = snd best" using assms(2) l Cons best by (simp add: segment_progress_def Let_def)
    ultimately have "(fst best, along) \<in> set (fst (line_pairs L p 0 points))" using l by simp
    from line_pairs_nonneg [OF assms(1) _ this] show ?thesis by simp
  qed
qed

lemma cross_straight_ready:
  assumes "instruct L s following states = Cross_Straight" "asks_for s q"
    "q \<in> {''TRAFFIC_GREEN'', ''PEDESTRIAN_CLEAR'', ''CROSSWALK_ALIGNMENT'', ''LANE_BOUNDARY_VALID''}"
  shows "sg_type s = ''CROSSWALK''" "map_of states q = Some ''READY''"
proof -
  have turn: "turn_type L s following \<noteq> Cross_Straight"
    by (simp add: turn_type_def Let_def split: option.splits list.splits)
  with assms(1) show "sg_type s = ''CROSSWALK''" by (auto simp: instruct_def split: if_splits)
  have "\<not> (asks_for s ''TRAFFIC_GREEN'' \<and> not_ready states ''TRAFFIC_GREEN'')"
    "\<not> (asks_for s ''PEDESTRIAN_CLEAR'' \<and> not_ready states ''PEDESTRIAN_CLEAR'')"
    "\<not> list_ex (\<lambda>r. r \<in> {''CROSSWALK_ALIGNMENT'', ''LANE_BOUNDARY_VALID''} \<and> not_ready states r) (map fst (sg_requirements s))"
    using assms(1) turn unfolding instruct_def by (auto split: if_splits)
  moreover from this(3) have "\<forall>r. asks_for s r \<longrightarrow> r \<in> {''CROSSWALK_ALIGNMENT'', ''LANE_BOUNDARY_VALID''} \<longrightarrow> \<not> not_ready states r"
    unfolding list_ex_iff asks_for_def by blast
  ultimately have "\<not> not_ready states q" using assms(2,3) by auto
  then show "map_of states q = Some ''READY''" by (simp add: not_ready_def)
qed

lemma cross_straight_crosswalk: "instruct L s following states = Cross_Straight \<Longrightarrow> sg_type s = ''CROSSWALK''"
  by (auto simp: instruct_def turn_type_def Let_def split: if_splits option.splits list.splits)

subsection \<open>A crossing\<close>

definition demo_crosswalk :: segment where
  "demo_crosswalk = \<lparr>sg_index = 0, sg_edge = ''AB'', sg_from = ''AA'', sg_to = ''BB'', sg_type = ''CROSSWALK'', sg_polyline = [(0, 0), (1, 0)],
     sg_distance = 1, sg_travel = 1, sg_wait = 0, sg_risk = 0, sg_requirements = [(''TRAFFIC_GREEN'', ''UNKNOWN'')], sg_replan = True\<rparr>"

definition demo_crossing :: route where
  "demo_crossing = \<lparr>ro_digest = ''d'', ro_order = key_a 32, ro_profile = Fastest, ro_profiles = [Fastest], ro_mode = Manual_Guidance,
     ro_start = ''AA'', ro_nodes = [''AA'', ''BB''], ro_stops = [], ro_segments = [demo_crosswalk], ro_metrics = final_metrics Fastest no_tally,
     ro_assumptions = [], ro_autonomous = False, ro_executable = False, ro_reason = []\<rparr>"

definition demo_green :: perception where
  "demo_green = \<lparr>p_sequence = VInt 1, p_fresh = VBool True, p_traffic = [[(''signal'', VStr ''GREEN''), (''consecutive_frames'', VInt 3)]],
     p_people = [], p_crosswalks = [], p_aruco = [], p_underpass_blocked = VNone\<rparr>"

lemma demo_progress: "segment_progress manhattan (0, 0) [(0, 0), (1, 0)] = (Some 0, 0, 1)"
proof -
  have "fl (1 / 1000000000000) \<le> 1 / 2" by (rule fl_le_double) simp_all
  then have "\<not> 1 \<le> fl (1 / 1000000000000)" by linarith
  then show ?thesis by (simp add: segment_progress_def projection_def fraction_along_def Let_def manhattan_def)
qed

lemma demo_crossing_placed:
  "\<exists>v f. project_guidance manhattan demo_crossing (Some [(''x'', VInt 0), (''y'', VInt 0)]) demo_green 0 [] [] False = Inr v
     \<and> gv_where v = Placed f \<and> fx_instruction f = Cross_Straight \<and> fx_index f = 0"
proof -
  have point: "point_of [(''x'', VInt 0), (''y'', VInt 0)] = Inr (Some (0, 0))"
    using float_of_int_small [of 0] by (simp add: point_of_def has_key_def dget_def dget_or_def)
  obtain states where states: "requirement_states demo_green = Inr states" "map_of states ''TRAFFIC_GREEN'' = Some ''READY''"
    by (simp add: requirement_states_def demo_green_def some_all_def green_twice_def and_exn_def dget_def dget_or_def)
  have cross: "crosses manhattan (0, 0) [demo_crosswalk] = [(0, Some 0)]"
    by (simp add: crosses_def demo_crosswalk_def demo_progress)
  have near: "no_farther (Some 0) OFF_ROUTE_WARNING_M" by (simp add: no_farther_def OFF_ROUTE_WARNING_M_def fl_nonneg)
  have index: "chosen_index manhattan (0, 0) [demo_crosswalk] 0 = 0" by (simp add: chosen_index_def Let_def cross)
  have "instruct manhattan demo_crosswalk None states = Cross_Straight"
    by (simp add: instruct_def asks_for_def demo_crosswalk_def not_ready_def states(2))
  then have "fx_instruction (place_pose manhattan demo_crossing [demo_crosswalk] (0, 0) 0 states) = Cross_Straight"
    using near by (simp add: place_pose_def index) (simp add: demo_crosswalk_def demo_progress)
  moreover have "fx_index (place_pose manhattan demo_crossing [demo_crosswalk] (0, 0) 0 states) = 0"
    by (simp add: place_pose_def index Let_def split: prod.splits)
  moreover have "take 512 (ro_segments demo_crossing) = [demo_crosswalk]" by (simp add: demo_crossing_def)
  ultimately show ?thesis by (simp add: project_guidance_def Let_def point states(1))
qed

subsection \<open>The properties\<close>





end
