(* ===== verification/Mission_Draft.thy ===== *)
theory Mission_Draft
  imports Route_Planner
begin

text \<open>
  \<^verbatim>\<open>route_planner/mission_dry_run.py\<close>: the mission a recommended route would become. A recommendation is a route
  together with the pins it copies from the order and the graph it was made for. The constant fields of the result are left out.
\<close>

record recommendation =
  rc_route :: route
  rc_order_revision :: string
  rc_graph_revision :: string
  rc_map :: string
  rc_map_revision :: string
  rc_annotation_revision :: string

definition pinned :: "order \<Rightarrow> route_graph \<Rightarrow> route \<Rightarrow> recommendation" where
  "pinned z g r =
     \<lparr>rc_route = r, rc_order_revision = or_revision z, rc_graph_revision = gr_revision g, rc_map = gr_map g,
      rc_map_revision = gr_map_revision g, rc_annotation_revision = gr_annotation g\<rparr>"

definition rc_revision :: "recommendation \<Rightarrow> string" where
  "rc_revision r = ro_digest (rc_route r)"

definition rc_id :: "recommendation \<Rightarrow> string" where
  "rc_id r = take 32 (ro_digest (rc_route r))"

definition MAX_MISSION_WAYPOINTS :: nat where "MAX_MISSION_WAYPOINTS = 32"

definition MISSION_NODE_ROLES :: "string list" where
  "MISSION_NODE_ROLES = [''SAFE_HOLD'', ''RESTAURANT_APPROACH'', ''RESTAURANT_DOCK'', ''DESTINATION_APPROACH'',
     ''DESTINATION_DOCK'', ''CROSSWALK_WAIT'', ''CROSSWALK_EXIT'', ''UNDERPASS_ENTRY'', ''UNDERPASS_EXIT'']"

definition CONFIRMATION_ROLES :: "string list" where
  "CONFIRMATION_ROLES = [''CROSSWALK_WAIT'', ''SAFE_HOLD'', ''RESTAURANT_DOCK'', ''DESTINATION_DOCK'']"

record waypoint =
  wp_annotation :: string
  wp_label :: string
  wp_confirm :: bool
  wp_role :: string

record special_link =
  sl_index :: nat
  sl_edge :: string
  sl_type :: string
  sl_requirements :: "string list"

record draft =
  dr_route :: string
  dr_revision :: string
  dr_label :: string
  dr_waypoints :: "waypoint list"
  dr_links :: "special_link list"
  dr_eligible :: bool
  dr_rejection :: "string option"

text \<open>The middle dot between the order's label and the profile.\<close>

definition dotted :: "string \<Rightarrow> string \<Rightarrow> string" where
  "dotted s t = s @ '' '' @ [char_of (183::nat)] @ '' '' @ t"

text \<open>\<^verbatim>\<open>_base\<close>\<close>

definition draft_base :: "recommendation \<Rightarrow> order \<Rightarrow> draft" where
  "draft_base r z =
     \<lparr>dr_route = take 32 (rc_id r), dr_revision = take 64 (rc_revision r),
      dr_label = take 64 (dotted (take 48 (or_label z)) (take 16 (profile_text (ro_profile (rc_route r))))),
      dr_waypoints = [], dr_links = [], dr_eligible = False, dr_rejection = None\<rparr>"

definition rejected :: "string \<Rightarrow> draft \<Rightarrow> draft" where
  "rejected reason d = d\<lparr>dr_rejection := Some reason\<rparr>"

text \<open>\<^verbatim>\<open>annotations.get("points", [])\<close> as a loop takes it: the elements of a list; the keys and the characters that a dictionary
  and a text give are no mappings and are skipped anyway.\<close>

definition annotation_points :: "pydict \<Rightarrow> exn + pyval list" where
  "annotation_points annotations =
     (case dget_or annotations ''points'' (VList []) of
        VList points \<Rightarrow> Inr points
      | VDict _ \<Rightarrow> Inr []
      | VStr _ \<Rightarrow> Inr []
      | _ \<Rightarrow> Inl TypeError)"

definition point_id :: "pyval \<Rightarrow> string option" where
  "point_id point =
     (case point of
        VDict p \<Rightarrow> (let i = py_str (dget_or p ''id'' (VStr [])) in if is_hex_n 24 i then Some i else None)
      | _ \<Rightarrow> None)"

text \<open>The nodes of the path that a mission has waypoints for, none twice in a row.\<close>

fun waypoint_nodes :: "route_graph \<Rightarrow> string list \<Rightarrow> node list \<Rightarrow> node list" where
  "waypoint_nodes g [] acc = acc"
| "waypoint_nodes g (i # rest) acc =
     waypoint_nodes g rest
       (case node_by_id g i of
          None \<Rightarrow> acc
        | Some n \<Rightarrow> if nd_role n \<notin> set MISSION_NODE_ROLES \<or> (acc \<noteq> [] \<and> nd_id (last acc) = nd_id n) then acc
                   else acc @ [n])"

definition make_waypoint :: "node \<Rightarrow> waypoint" where
  "make_waypoint n =
     \<lparr>wp_annotation = nd_annotation n, wp_label = take 64 (nd_label n), wp_confirm = (nd_role n \<in> set CONFIRMATION_ROLES),
      wp_role = nd_role n\<rparr>"

definition resolved :: "pyval list \<Rightarrow> node \<Rightarrow> bool" where
  "resolved points n \<longleftrightarrow> is_hex_n 24 (nd_annotation n) \<and> Some (nd_annotation n) \<in> set (map point_id points)"

definition special_links :: "segment list \<Rightarrow> special_link list" where
  "special_links segments =
     map (\<lambda>s. \<lparr>sl_index = sg_index s, sl_edge = take 64 (sg_edge s), sl_type = take 32 (sg_type s),
               sl_requirements = map (\<lambda>(r, state). take 32 r) (take 7 (sg_requirements s))\<rparr>)
       (filter (\<lambda>s. sg_requirements s \<noteq> []) (take 512 segments))"

definition same_pins :: "recommendation \<Rightarrow> route_graph \<Rightarrow> bool" where
  "same_pins r g \<longleftrightarrow> rc_map r = gr_map g \<and> rc_map_revision r = gr_map_revision g \<and> rc_annotation_revision r = gr_annotation g
     \<and> rc_graph_revision r = gr_revision g"

text \<open>What the annotation store must still say: the same map, revision and annotations.\<close>

definition annotations_match :: "pydict \<Rightarrow> string \<Rightarrow> string \<Rightarrow> string \<Rightarrow> bool" where
  "annotations_match annotations map_id revision annotation \<longleftrightarrow>
     dget annotations ''map_id'' = VStr map_id \<and> dget annotations ''map_revision'' = VStr revision
     \<and> dget annotations ''annotation_revision'' = VStr annotation"

text \<open>\<^verbatim>\<open>compile_mission_dry_run\<close>\<close>

definition compile_draft :: "recommendation \<Rightarrow> route_graph \<Rightarrow> order \<Rightarrow> pydict \<Rightarrow> exn + draft" where
  "compile_draft r g z annotations =
     (let base = draft_base r z in
      if \<not> same_pins r g then Inr (rejected ''REVISION_MISMATCH'' base)
      else if \<not> annotations_match annotations (rc_map r) (rc_map_revision r) (rc_annotation_revision r)
      then Inr (rejected ''ANNOTATION_REVISION_MISMATCH'' base)
      else sbind (annotation_points annotations) (\<lambda>points.
        let nodes = waypoint_nodes g (ro_nodes (rc_route r)) [] in
        if nodes = [] then Inr (rejected ''NO_MISSION_WAYPOINTS'' base)
        else if MAX_MISSION_WAYPOINTS < length nodes then Inr (rejected ''MISSION_WAYPOINT_LIMIT'' base)
        else if \<not> list_all (resolved points) nodes then Inr (rejected ''MISSING_ANNOTATION'' base)
        else Inr (base\<lparr>dr_waypoints := map make_waypoint nodes, dr_links := take 64 (special_links (ro_segments (rc_route r))),
                       dr_eligible := True\<rparr>)))"

end
