(* ===== verification/Planner_Session.thy ===== *)
theory Planner_Session
  imports Route_Guidance Mission_Draft Orders
begin

text \<open>
  The planner's one session: \<^verbatim>\<open>RoutePlannerCoordinator\<close> (\<^verbatim>\<open>application/route_planner_coordinator.py\<close>) over the state store
  (\<^verbatim>\<open>route_planner/state_store.py\<close>). The record \<open>session\<close> is the dictionary \<^verbatim>\<open>self._state\<close>, \<open>planner\<close> the object with the document on
  the disk, \<open>world\<close> what the objects it calls answer during one operation: the annotation store, the mission service, the views of
  navigation and mapping, perception, the schematic and the rehearsal session, and the file system. Every method that changes state is
  one definition, taken as one step because it runs under the lock; it returns its result or exception beside the object.
\<close>

subsection \<open>State\<close>

datatype planner_state =
    S_Empty | S_Draft | S_Validating_Order | S_Order_Ready | S_Planning | S_Recommendations_Ready | S_Route_Selected
  | S_Guidance_Active | S_Mission_Exported | S_Stale | S_Invalid | S_Failed

record plan_context =
  cx_order :: string
  cx_graph :: string
  cx_map :: string
  cx_annotation :: string
  cx_config :: string
  cx_start :: string
  cx_mode :: string

record guidance =
  gu_active :: bool
  gu_pickups :: "string list"
  gu_dropoffs :: "string list"
  gu_complete :: bool
  gu_index :: nat

record mission_link =
  ml_route :: string
  ml_revision :: string
  ml_mission :: string
  ml_map :: string
  ml_annotation :: string
  ml_requirements :: "(nat \<times> string list) list"

record session =
  se_state :: planner_state
  se_order :: "order option"
  se_graph :: "route_graph option"
  se_routes :: "recommendation list"
  se_selected :: "string option"
  se_context :: "plan_context option"
  se_guidance :: guidance
  se_links :: "mission_link list"
  se_error :: "string option"

definition no_guidance :: guidance where
  "no_guidance = \<lparr>gu_active = False, gu_pickups = [], gu_dropoffs = [], gu_complete = False, gu_index = 0\<rparr>"

definition empty_state :: session where
  "empty_state = \<lparr>se_state = S_Empty, se_order = None, se_graph = None, se_routes = [], se_selected = None, se_context = None,
     se_guidance = no_guidance, se_links = [], se_error = None\<rparr>"

text \<open>Library code and configuration that do not change: the math library, the SHA-256 of an order, of a graph and of a route
  key, the length of a graph's JSON, the reading of a time text, and two flags of the constructor.\<close>

record library =
  lb_math :: libm
  lb_order :: "pydict \<Rightarrow> string"
  lb_graph :: "pydict \<Rightarrow> string"
  lb_route :: "pydict \<Rightarrow> string"
  lb_bytes :: "pydict \<Rightarrow> nat"
  lb_clock :: "string \<Rightarrow> clock_reading"
  lb_custom :: bool
  lb_rehearsal :: bool
  lb_scenarios :: "string list"

record world =
  wo_annotations :: "string \<Rightarrow> exn + pydict"
  wo_geometry :: "string \<Rightarrow> string \<Rightarrow> exn + geometry option"
  wo_blocked :: bool  \<comment> \<open>\<^verbatim>\<open>mission.blocks_navigation_goal()\<close>\<close>
  wo_navigation :: pydict
  wo_mapping :: bool
  wo_perception :: "exn + perception"
  wo_context :: string  \<comment> \<open>the schematic session's context\<close>
  wo_schematic :: "(exn + unit) option"  \<comment> \<open>what a schematic command does; \<open>None\<close> where the session is not available\<close>
  wo_rehearsal :: "exn + unit"  \<comment> \<open>what opening or controlling a rehearsal does\<close>
  wo_mission :: "string \<Rightarrow> bool"  \<comment> \<open>the missions the service knows\<close>
  wo_create :: "exn + string"  \<comment> \<open>the mission the service creates\<close>
  wo_fresh :: string
  wo_save :: "exn + unit"
  wo_replaced :: bool  \<comment> \<open>a save that raises has replaced the document already\<close>

record planner =
  pl_session :: session
  pl_disk :: "session option"
  pl_failed :: string  \<comment> \<open>\<^verbatim>\<open>_storage_error\<close>\<close>
  pl_rehearsing :: bool

type_synonym 'a planned = "(planner, 'a) outcome"

abbreviation conflict :: "string \<Rightarrow> exn + 'a" where
  "conflict m \<equiv> Inl (RoutePlannerConflict m)"

abbreviation require :: "bool \<Rightarrow> string \<Rightarrow> exn + unit" where
  "require c m \<equiv> guard c (RoutePlannerConflict m)"

definition STORAGE_ERROR :: string where
  "STORAGE_ERROR = ''route planner state storage is unavailable''"

text \<open>The clauses \<^verbatim>\<open>except OrderValidationError as exc\<close> and their like: what they take from an exception of their class.\<close>

definition order_detail :: "exn \<Rightarrow> string option" where
  "order_detail e = (case e of OrderValidationError m \<Rightarrow> Some m | _ \<Rightarrow> None)"

definition graph_detail :: "exn \<Rightarrow> string option" where
  "graph_detail e = (case e of RouteGraphError m \<Rightarrow> Some m | _ \<Rightarrow> None)"

definition planning_detail :: "exn \<Rightarrow> (string \<times> string) option" where
  "planning_detail e = (case e of RoutePlanningError reason detail \<Rightarrow> Some (reason, detail) | _ \<Rightarrow> None)"

definition rehearsal_detail :: "exn \<Rightarrow> string option" where
  "rehearsal_detail e = (case e of RehearsalError m \<Rightarrow> Some m | _ \<Rightarrow> None)"

definition is_storage_error :: "exn \<Rightarrow> bool" where
  "is_storage_error e \<longleftrightarrow> (case e of RoutePlannerStorageError _ \<Rightarrow> True | _ \<Rightarrow> False)"

subsection \<open>The store\<close>

text \<open>\<^verbatim>\<open>_save\<close>: after the first refusal of the store every save raises.\<close>

definition save :: "world \<Rightarrow> planner \<Rightarrow> unit planned" where
  "save w p =
     (if pl_failed p \<noteq> [] then (Inl (RoutePlannerUnavailable (pl_failed p)), p)
      else case wo_save w of
        Inr _ \<Rightarrow> (Inr (), p\<lparr>pl_disk := Some (pl_session p)\<rparr>)
      | Inl e \<Rightarrow>
          if is_storage_error e then (Inl (RoutePlannerUnavailable STORAGE_ERROR), p\<lparr>pl_failed := STORAGE_ERROR\<rparr>)
          else (Inl e, if wo_replaced w then p\<lparr>pl_disk := Some (pl_session p)\<rparr> else p))"

definition stopped :: "guidance \<Rightarrow> guidance" where
  "stopped g = g\<lparr>gu_active := False, gu_pickups := take 5 (gu_pickups g), gu_dropoffs := take 4 (gu_dropoffs g)\<rparr>"

definition resting_state :: "session \<Rightarrow> planner_state" where
  "resting_state s = (if se_selected s \<notin> {None, Some []} then S_Route_Selected else S_Recommendations_Ready)"

text \<open>\<^verbatim>\<open>_restore\<close> on a document the store wrote: guidance never resumes.\<close>

definition restore :: "session \<Rightarrow> session" where
  "restore s =
     (let s = s\<lparr>se_guidance := stopped (se_guidance s)\<rparr>
      in if se_state s = S_Guidance_Active then s\<lparr>se_state := resting_state s\<rparr> else s)"

definition load :: "session option \<Rightarrow> session" where
  "load disk = (case disk of None \<Rightarrow> empty_state | Some s \<Rightarrow> restore s)"

text \<open>The constructor. \<open>opened\<close> is what opening and reading the store does; the exceptions it catches leave an empty
  session that no save succeeds for.\<close>

definition storage_lost :: "exn \<Rightarrow> bool" where
  "storage_lost e \<longleftrightarrow> (case e of RoutePlannerStorageError _ \<Rightarrow> True | RoutePlannerUnavailable _ \<Rightarrow> True | RoutePlannerConflict _ \<Rightarrow> True
     | RoutePlannerNotFound _ \<Rightarrow> True | RoutePlannerValidationError _ \<Rightarrow> True | ValueError \<Rightarrow> True | TypeError \<Rightarrow> True | _ \<Rightarrow> False)"

definition validate_loaded :: "session \<Rightarrow> exn + unit" where
  "validate_loaded s =
     sbind (guard (length (se_routes s) \<le> 3) (RoutePlannerUnavailable ''route planner recommendation state is invalid'')) (\<lambda>_.
       guard (length (se_links s) \<le> 32) (RoutePlannerUnavailable ''route planner mission link state is invalid''))"

definition start_planner :: "exn + unit \<Rightarrow> world \<Rightarrow> session option \<Rightarrow> exn + planner" where
  "start_planner opened w disk =
     (let p = \<lparr>pl_session = load disk, pl_disk = disk, pl_failed = [], pl_rehearsing = False\<rparr>;
          lost = (\<lambda>p. Inr (p\<lparr>pl_session := empty_state, pl_failed := STORAGE_ERROR\<rparr>))
      in case sbind opened (\<lambda>_. validate_loaded (pl_session p)) of
           Inl e \<Rightarrow> if storage_lost e then lost p else Inl e
         | Inr _ \<Rightarrow> (case save w p of
               (Inr _, p') \<Rightarrow> Inr p'
             | (Inl e, p') \<Rightarrow> if storage_lost e then lost p' else Inl e))"

subsection \<open>Guards\<close>

definition sub_dict :: "pydict \<Rightarrow> string \<Rightarrow> pydict" where
  \<comment> \<open>\<^verbatim>\<open>d.get(key) if isinstance(d.get(key), Mapping) else {}\<close>\<close>
  "sub_dict d key = (case dget d key of VDict e \<Rightarrow> e | _ \<Rightarrow> [])"

definition activity :: "pydict \<Rightarrow> string \<Rightarrow> string" where
  "activity d key = lower (py_str (dget_or (sub_dict d key) ''state'' (VStr ''idle'')))"

definition navigation_active :: "pydict \<Rightarrow> bool" where
  "navigation_active view \<longleftrightarrow> activity view ''pipeline'' \<in> set [''starting'', ''running'', ''stopping'']
     \<or> activity view ''goal'' \<in> set [''pending'', ''active'', ''canceling'']"

definition not_rehearsing :: "string \<Rightarrow> planner \<Rightarrow> exn + unit" where
  "not_rehearsing action p = require (\<not> pl_rehearsing p) (action @ '' is disabled in rehearsal mode'')"

definition saved_context :: "world \<Rightarrow> exn + unit" where
  "saved_context w = require (wo_context w = ''SAVED_OCCUPANCY'')
     ''schematic context cannot use SavedMap, Mission, preview or pose guidance operations''"

text \<open>\<^verbatim>\<open>_require_editable\<close>\<close>

definition editable :: "world \<Rightarrow> string \<Rightarrow> bool \<Rightarrow> bool \<Rightarrow> planner \<Rightarrow> exn + unit" where
  "editable w action graph schematic p =
     sbind (not_rehearsing action p) (\<lambda>_.
     sbind (if schematic then Inr () else saved_context w) (\<lambda>_.
     sbind (require (\<not> gu_active (se_guidance (pl_session p))) (action @ '' is blocked while guidance is active'')) (\<lambda>_.
     sbind (require (\<not> wo_blocked w) (action @ '' is blocked while a mission is active'')) (\<lambda>_.
     sbind (require (\<not> navigation_active (wo_navigation w)) (action @ '' is blocked while navigation is active'')) (\<lambda>_.
       require (\<not> (graph \<and> wo_mapping w)) (action @ '' is blocked while mapping is active''))))))"

text \<open>\<^verbatim>\<open>_annotations\<close> of a graph.\<close>

definition current_annotations :: "world \<Rightarrow> route_graph \<Rightarrow> exn + pydict" where
  "current_annotations w g =
     (case wo_annotations w (gr_map g) of
        Inl _ \<Rightarrow> conflict ''route graph annotations are unavailable''
      | Inr a \<Rightarrow> sbind (require (annotations_match a (gr_map g) (gr_map_revision g) (gr_annotation g))
                         ''route graph map or annotations changed'') (\<lambda>_. Inr a))"

text \<open>\<^verbatim>\<open>_selected\<close>: the recommendation of an id, of the selected one where the caller gives none.\<close>

definition wanted :: "session \<Rightarrow> string \<Rightarrow> string option" where
  "wanted s route_id = (if route_id \<noteq> [] then Some route_id else se_selected s)"

definition selected_route :: "world \<Rightarrow> session \<Rightarrow> string \<Rightarrow> exn + recommendation" where
  "selected_route w s route_id =
     sbind (saved_context w) (\<lambda>_.
     case filter (\<lambda>r. Some (rc_id r) = wanted s route_id) (se_routes s) of
       [] \<Rightarrow> Inl (RoutePlannerNotFound ''selected route was not found'')
     | r # _ \<Rightarrow> Inr r)"

text \<open>\<^verbatim>\<open>_is_stale\<close>: the reason, where the route is stale. The annotations of a graph raise nothing but a conflict.\<close>

definition stale_reason :: "world \<Rightarrow> session \<Rightarrow> string option" where
  "stale_reason w s =
     (case (se_order s, se_graph s, se_context s) of
        (Some z, Some g, Some c) \<Rightarrow>
          if cx_order c \<noteq> or_revision z then Some ''ORDER_REVISION_CHANGED''
          else if cx_graph c \<noteq> gr_revision g then Some ''GRAPH_REVISION_CHANGED''
          else if cx_map c \<noteq> gr_map_revision g then Some ''MAP_REVISION_CHANGED''
          else if cx_annotation c \<noteq> gr_annotation g then Some ''ANNOTATION_REVISION_CHANGED''
          else if cx_config c \<noteq> CATALOG_REVISION then Some ''PLANNER_CONFIG_REVISION_CHANGED''
          else (case current_annotations w g of
                  Inl e \<Rightarrow> Some ''MAP_OR_ANNOTATION_REVISION_CHANGED''
                | Inr _ \<Rightarrow> None)
      | _ \<Rightarrow> None)"

definition fresh :: "world \<Rightarrow> string \<Rightarrow> session \<Rightarrow> exn + unit" where
  "fresh w prefix s = (case stale_reason w s of None \<Rightarrow> Inr () | Some reason \<Rightarrow> conflict (prefix @ reason))"

subsection \<open>Views\<close>

definition current_pose :: "pydict \<Rightarrow> exn + pydict option" where
  "current_pose view =
     (let localization = sub_dict view ''localization''; health = dget (sub_dict view ''localization_health'') ''state'';
          pose = Inr (case dget localization ''pose'' of VDict d \<Rightarrow> Some d | _ \<Rightarrow> None)
      in if dget localization ''state'' \<noteq> VStr ''localized'' then Inr None
         else if \<not> hashable health then Inl TypeError
         else if health \<notin> {VNone, VStr ''READY''} then Inr None
         else pose)"

definition guidance_snapshot :: "library \<Rightarrow> world \<Rightarrow> session \<Rightarrow> recommendation \<Rightarrow> exn + guidance_view" where
  "guidance_snapshot lib w s r =
     sbind (current_pose (wo_navigation w)) (\<lambda>pose.
     sbind (wo_perception w) (\<lambda>perception.
       project_guidance (lb_math lib) (rc_route r) pose perception (gu_index (se_guidance s)) (gu_pickups (se_guidance s))
         (gu_dropoffs (se_guidance s)) (gu_complete (se_guidance s))))"

record view =
  vw_session :: session
  vw_stale :: "string option"
  vw_route :: "recommendation option"
  vw_available :: bool
  vw_error :: "string option"
  vw_perception :: perception
  vw_guidance :: "guidance_view option"

text \<open>\<^verbatim>\<open>snapshot\<close>: a stale plan is shown without its selection.\<close>

definition snapshot :: "library \<Rightarrow> world \<Rightarrow> planner \<Rightarrow> exn + view" where
  "snapshot lib w p =
     (let s = pl_session p;
          stale = (if se_routes s \<noteq> [] then stale_reason w s else None);
          shown = (if stale \<noteq> None then s\<lparr>se_state := S_Stale, se_selected := None\<rparr> else s);
          route = (if se_selected shown \<in> {None, Some []} then None
                   else List.find (\<lambda>r. Some (rc_id r) = se_selected shown) (se_routes shown))
      in sbind (wo_perception w) (\<lambda>perception.
         sbind (case route of
             Some r \<Rightarrow> if gu_active (se_guidance s) then sbind (guidance_snapshot lib w s r) (\<lambda>g. Inr (Some g)) else Inr None
           | None \<Rightarrow> Inr None) (\<lambda>guided.
           Inr \<lparr>vw_session = shown, vw_stale = stale, vw_route = route, vw_available = (pl_failed p = []),
                vw_error = (if pl_failed p \<noteq> [] then Some (pl_failed p) else se_error s),
                vw_perception = perception, vw_guidance = guided\<rparr>)))"

subsection \<open>Orders and the graph\<close>

text \<open>How an operation ends: the changed session is saved and the snapshot goes back with the result.\<close>

definition commit :: "library \<Rightarrow> world \<Rightarrow> session \<Rightarrow> planner \<Rightarrow> view planned" where
  "commit lib w s p = obind (save w (p\<lparr>pl_session := s\<rparr>)) (\<lambda>_ p. (snapshot lib w p, p))"

text \<open>A new order ends everything that was planned for the last one.\<close>

definition with_order :: "order \<Rightarrow> session \<Rightarrow> session" where
  "with_order z s = s\<lparr>se_state := S_Order_Ready, se_order := Some z, se_routes := [], se_selected := None, se_context := None,
     se_guidance := no_guidance, se_links := [], se_error := None\<rparr>"

definition create_order :: "library \<Rightarrow> world \<Rightarrow> pyval \<Rightarrow> planner \<Rightarrow> (order \<times> view) planned" where
  "create_order lib w payload p =
     obind (editable w ''order creation'' False False p, p) (\<lambda>_ p.
     let s = (pl_session p)\<lparr>se_state := S_Validating_Order\<rparr> in
     case normalize_order (lb_clock lib) (lb_order lib) None (wo_fresh w) (lb_custom lib) payload of
       Inl e \<Rightarrow>
         (case order_detail e of
            Some m \<Rightarrow>
              obind (save w (p\<lparr>pl_session := s\<lparr>se_state := S_Invalid, se_error := Some m\<rparr>\<rparr>)) (\<lambda>_ p.
                (Inl (RoutePlannerValidationError m), p))
          | None \<Rightarrow> (Inl e, p\<lparr>pl_session := s\<rparr>))
     | Inr z \<Rightarrow> obind (commit lib w (with_order z s) p) (\<lambda>v p. (Inr (z, v), p)))"

definition current_order :: "session \<Rightarrow> string \<Rightarrow> exn + order" where
  "current_order s order_id =
     (case se_order s of
        Some z \<Rightarrow> if or_id z = order_id then Inr z else Inl (RoutePlannerNotFound ''order was not found'')
      | None \<Rightarrow> Inl (RoutePlannerNotFound ''order was not found''))"

text \<open>What update and unlock have in common.\<close>

definition replace_order :: "library \<Rightarrow> world \<Rightarrow> string \<Rightarrow> pyval \<Rightarrow> planner \<Rightarrow> (order \<times> view) planned" where
  "replace_order lib w order_id payload p =
     (case normalize_order (lb_clock lib) (lb_order lib) (Some order_id) (wo_fresh w) (lb_custom lib) payload of
        Inl e \<Rightarrow> (Inl (case order_detail e of Some m \<Rightarrow> RoutePlannerValidationError m | None \<Rightarrow> e), p)
      | Inr z \<Rightarrow> obind (commit lib w (with_order z (pl_session p)) p) (\<lambda>v p. (Inr (z, v), p)))"

definition update_order :: "library \<Rightarrow> world \<Rightarrow> string \<Rightarrow> string \<Rightarrow> pyval \<Rightarrow> planner \<Rightarrow> (order \<times> view) planned" where
  "update_order lib w order_id base_revision payload p =
     obind (editable w ''order update'' False False p, p) (\<lambda>_ p.
     obind (current_order (pl_session p) order_id, p) (\<lambda>z p.
     obind (require (or_revision z = base_revision) ''order revision changed'', p) (\<lambda>_ p.
     obind (require (\<not> or_locked z) ''locked order cannot be changed'', p) (\<lambda>_ p.
       replace_order lib w order_id payload p))))"

definition unlock_line :: "order_line \<Rightarrow> pydict" where
  "unlock_line l =
     [(''sequence'', VInt (ol_sequence l)), (''destination_id'', VStr (ol_destination l)),
      (''restaurant_id'', VStr (ol_restaurant l)), (''menu_id'', VStr (ol_menu l)), (''quantity'', VInt (ol_quantity l))]"

definition unlock_payload :: "order \<Rightarrow> pydict" where
  "unlock_payload z =
     [(''label'', VStr (or_label z))]
     @ (if or_sheets z = None then [(''lines'', VList (map (VDict \<circ> unlock_line) (or_lines z)))] else [])
     @ [(''order_started_at'', opt_str (or_started_at z)), (''locked'', VBool False)] @ sheets_value z"

definition unlock_order :: "library \<Rightarrow> world \<Rightarrow> string \<Rightarrow> string \<Rightarrow> planner \<Rightarrow> (order \<times> view) planned" where
  "unlock_order lib w order_id base_revision p =
     obind (editable w ''order unlock'' False False p, p) (\<lambda>_ p.
     obind (current_order (pl_session p) order_id, p) (\<lambda>z p.
     obind (require (or_revision z = base_revision) ''order revision changed'', p) (\<lambda>_ p.
     obind (require (or_locked z) ''order is not locked'', p) (\<lambda>_ p.
       replace_order lib w order_id (VDict (unlock_payload z)) p))))"

text \<open>The new graph: every exception becomes one of the planner's, and the session is left without a plan.\<close>

definition accept_graph :: "library \<Rightarrow> world \<Rightarrow> pydict \<Rightarrow> exn + route_graph" where
  "accept_graph lib w payload =
     (let text = (\<lambda>key. py_str (dget_or payload key (VStr []))) in
      case sbind (wo_annotations w (text ''map_id'')) (\<lambda>annotations.
           sbind (wo_geometry w (text ''map_id'') (text ''map_revision'')) (\<lambda>geometry.
             normalize_graph (lb_math lib) (lb_graph lib) (lb_bytes lib) annotations geometry (VDict payload))) of
        Inr g \<Rightarrow> Inr g
      | Inl e \<Rightarrow> Inl (RoutePlannerValidationError
          (case graph_detail e of Some m \<Rightarrow> m | None \<Rightarrow> ''route graph map geometry is unavailable'')))"

definition with_graph :: "route_graph \<Rightarrow> session \<Rightarrow> session" where
  "with_graph g s = s\<lparr>se_state := (if se_order s = None then S_Draft else S_Order_Ready), se_graph := Some g, se_routes := [],
     se_selected := None, se_context := None, se_guidance := no_guidance, se_links := [], se_error := None\<rparr>"

definition base_matches :: "route_graph option \<Rightarrow> string option \<Rightarrow> exn + unit" where
  "base_matches current base_revision =
     (case current of
        Some g \<Rightarrow> require (Some (gr_revision g) = base_revision) ''route graph revision changed''
      | None \<Rightarrow> require (base_revision \<in> {None, Some []}) ''route graph does not yet have a revision'')"

definition put_graph :: "library \<Rightarrow> world \<Rightarrow> pydict \<Rightarrow> string option \<Rightarrow> planner \<Rightarrow> (route_graph \<times> view) planned" where
  "put_graph lib w payload base_revision p =
     obind (editable w ''route graph update'' True False p, p) (\<lambda>_ p.
     obind (base_matches (se_graph (pl_session p)) base_revision, p) (\<lambda>_ p.
     obind (accept_graph lib w payload, p) (\<lambda>g p.
     obind (commit lib w (with_graph g (pl_session p)) p) (\<lambda>v p. (Inr (g, v), p)))))"

subsection \<open>Recommendations\<close>

definition plan_pins :: "order \<Rightarrow> route_graph \<Rightarrow> string \<Rightarrow> string \<Rightarrow> plan_context" where
  "plan_pins z g start mode =
     \<lparr>cx_order = or_revision z, cx_graph = gr_revision g, cx_map = gr_map_revision g, cx_annotation = gr_annotation g,
      cx_config = CATALOG_REVISION, cx_start = start, cx_mode = mode\<rparr>"

definition with_routes :: "order \<Rightarrow> route_graph \<Rightarrow> string \<Rightarrow> string \<Rightarrow> route list \<Rightarrow> session \<Rightarrow> session" where
  "with_routes z g start mode rs s =
     s\<lparr>se_state := S_Recommendations_Ready, se_routes := map (pinned z g) rs, se_selected := None,
       se_context := Some (plan_pins z g start mode), se_guidance := no_guidance, se_links := [], se_error := None\<rparr>"

text \<open>The end of the operation after the optimizer; a planning error is kept in the session.\<close>

definition finish_planning :: "library \<Rightarrow> world \<Rightarrow> order \<Rightarrow> route_graph \<Rightarrow> string \<Rightarrow> string \<Rightarrow> session \<Rightarrow> exn + route list
    \<Rightarrow> planner \<Rightarrow> (recommendation list \<times> view) planned" where
  "finish_planning lib w z g start mode s r p =
     (case r of
        Inl e \<Rightarrow>
          (case planning_detail e of
             Some (reason, detail) \<Rightarrow>
               obind (save w (p\<lparr>pl_session := s\<lparr>se_state := S_Failed, se_error := Some reason\<rparr>\<rparr>)) (\<lambda>_ p.
                 (conflict (reason @ '': '' @ detail), p))
           | None \<Rightarrow> (Inl e, p\<lparr>pl_session := s\<rparr>))
      | Inr rs \<Rightarrow>
          let s = with_routes z g start mode rs s in
          obind (commit lib w s p) (\<lambda>v p. (Inr (se_routes s, v), p)))"

text \<open>The checks before it. An order of the model carries the revision of the present catalog, so that check is left out.\<close>

definition check_plan :: "world \<Rightarrow> string \<Rightarrow> string \<Rightarrow> string \<Rightarrow> planner \<Rightarrow> exn + order \<times> route_graph \<times> pydict" where
  "check_plan w order_id order_revision graph_revision p =
     sbind (editable w ''route recommendation'' True False p) (\<lambda>_.
     sbind (current_order (pl_session p) order_id) (\<lambda>z.
     sbind (require (or_revision z = order_revision) ''order revision changed'') (\<lambda>_.
     case se_graph (pl_session p) of
       None \<Rightarrow> conflict ''route graph revision changed''
     | Some g \<Rightarrow>
         sbind (require (gr_revision g = graph_revision) ''route graph revision changed'') (\<lambda>_.
         sbind (current_annotations w g) (\<lambda>annotations. Inr (z, g, annotations))))))"

text \<open>\<^verbatim>\<open>recommendations\<close>; \<open>None\<close> is an optimizer that does not return.\<close>

definition recommend :: "library \<Rightarrow> world \<Rightarrow> string \<Rightarrow> string \<Rightarrow> string \<Rightarrow> string \<Rightarrow> string \<Rightarrow> planner
    \<Rightarrow> (recommendation list \<times> view) planned option" where
  "recommend lib w order_id order_revision graph_revision start mode p =
     (case check_plan w order_id order_revision graph_revision p of
        Inl e \<Rightarrow> Some (Inl e, p)
      | Inr (z, g, annotations) \<Rightarrow>
          let s = (pl_session p)\<lparr>se_state := S_Planning, se_error := None\<rparr> in
          case wo_perception w of
            Inl e \<Rightarrow> Some (finish_planning lib w z g start mode s (Inl e) p)
          | Inr perception \<Rightarrow>
              map_option (\<lambda>r. finish_planning lib w z g start mode s r p)
                (recommend_routes (lb_math lib) (lb_route lib) z g annotations start mode perception))"

definition select_route :: "library \<Rightarrow> world \<Rightarrow> string \<Rightarrow> string \<Rightarrow> planner \<Rightarrow> (recommendation \<times> view) planned" where
  "select_route lib w route_id route_revision p =
     obind (editable w ''route selection'' False False p, p) (\<lambda>_ p.
     obind (fresh w ''route recommendations are stale: '' (pl_session p), p) (\<lambda>_ p.
     obind (selected_route w (pl_session p) route_id, p) (\<lambda>r p.
     obind (require (rc_revision r = route_revision) ''route revision changed'', p) (\<lambda>_ p.
     obind (commit lib w ((pl_session p)\<lparr>se_selected := Some route_id, se_state := S_Route_Selected, se_error := None\<rparr>) p)
       (\<lambda>v p. (Inr (r, v), p))))))"

text \<open>The route of a request that must name the selected one in its present revision.\<close>

definition chosen_route :: "world \<Rightarrow> session \<Rightarrow> string \<Rightarrow> string \<Rightarrow> exn + recommendation" where
  "chosen_route w s route_id route_revision =
     sbind (selected_route w s route_id) (\<lambda>r.
     sbind (require (se_selected s = Some route_id \<and> rc_revision r = route_revision) ''selected route revision changed'') (\<lambda>_.
       Inr r))"

subsection \<open>Guidance\<close>

definition start_guidance :: "library \<Rightarrow> world \<Rightarrow> string \<Rightarrow> string \<Rightarrow> planner \<Rightarrow> (guidance_view \<times> view) planned" where
  "start_guidance lib w route_id route_revision p =
     obind (not_rehearsing ''manual guidance start'' p, p) (\<lambda>_ p.
     obind (fresh w ''route is stale: '' (pl_session p), p) (\<lambda>_ p.
     obind (chosen_route w (pl_session p) route_id route_revision, p) (\<lambda>r p.
     obind (require (\<not> wo_blocked w) ''guidance cannot start while a mission is active'', p) (\<lambda>_ p.
     let s = (pl_session p)\<lparr>se_guidance := no_guidance\<lparr>gu_active := True\<rparr>, se_state := S_Guidance_Active\<rparr> in
     obind (save w (p\<lparr>pl_session := s\<rparr>)) (\<lambda>_ p.
     obind (guidance_snapshot lib w s r, p) (\<lambda>g p.
     obind (snapshot lib w p, p) (\<lambda>v p. (Inr (g, v), p))))))))"

definition resting :: "session \<Rightarrow> session" where
  "resting s = s\<lparr>se_guidance := stopped (se_guidance s), se_state := resting_state s\<rparr>"

definition stop_guidance :: "library \<Rightarrow> world \<Rightarrow> planner \<Rightarrow> (guidance \<times> view) planned" where
  "stop_guidance lib w p =
     obind (not_rehearsing ''manual guidance stop'' p, p) (\<lambda>_ p.
     let s = resting (pl_session p) in
     obind (commit lib w s p) (\<lambda>v p. (Inr (se_guidance s, v), p)))"

definition stop_venues :: "string list \<Rightarrow> recommendation \<Rightarrow> string list" where
  "stop_venues roles r =
     map (\<lambda>s. case st_venue s of None \<Rightarrow> ''None'' | Some v \<Rightarrow> v) (filter (\<lambda>s. st_role s \<in> set roles) (ro_stops (rc_route r)))"

definition pickup_venues :: "recommendation \<Rightarrow> string list" where
  "pickup_venues = stop_venues [''RESTAURANT_APPROACH'', ''RESTAURANT_DOCK'']"

definition dropoff_venues :: "recommendation \<Rightarrow> string list" where
  "dropoff_venues = stop_venues [''DESTINATION_APPROACH'', ''DESTINATION_DOCK'']"

definition noted :: "string \<Rightarrow> string list \<Rightarrow> string list" where
  "noted i marked = (if i \<in> set marked then marked else marked @ [i])"

text \<open>The end of a confirmation: the projection sets the segment, and only then the session is saved.\<close>

definition project_and_save :: "library \<Rightarrow> world \<Rightarrow> recommendation \<Rightarrow> guidance \<Rightarrow> planner \<Rightarrow> (guidance_view \<times> view) planned" where
  "project_and_save lib w r g p =
     (let s = (pl_session p)\<lparr>se_guidance := g\<rparr> in
      obind (guidance_snapshot lib w s r, p\<lparr>pl_session := s\<rparr>) (\<lambda>v p.
      obind (commit lib w (s\<lparr>se_guidance := g\<lparr>gu_index := view_index v\<rparr>\<rparr>) p) (\<lambda>u p. (Inr (v, u), p))))"

definition guided_route :: "world \<Rightarrow> string \<Rightarrow> planner \<Rightarrow> exn + recommendation" where
  "guided_route w action p =
     sbind (not_rehearsing action p) (\<lambda>_.
     sbind (require (gu_active (se_guidance (pl_session p))) ''guidance is not active'') (\<lambda>_.
       selected_route w (pl_session p) []))"

definition mark_pickup :: "library \<Rightarrow> world \<Rightarrow> string \<Rightarrow> planner \<Rightarrow> (guidance_view \<times> view) planned" where
  "mark_pickup lib w venue p =
     obind (guided_route w ''manual pickup confirmation'' p, p) (\<lambda>r p.
     obind (guard (venue \<in> set (pickup_venues r))
              (RoutePlannerValidationError ''pickup venue is not on the selected route''), p) (\<lambda>_ p.
     let g = se_guidance (pl_session p)
     in project_and_save lib w r (g\<lparr>gu_pickups := take 5 (noted venue (gu_pickups g))\<rparr>) p))"

definition mark_dropoff :: "library \<Rightarrow> world \<Rightarrow> string \<Rightarrow> planner \<Rightarrow> (guidance_view \<times> view) planned" where
  "mark_dropoff lib w destination p =
     obind (guided_route w ''manual dropoff confirmation'' p, p) (\<lambda>r p.
     obind (guard (destination \<in> set (dropoff_venues r))
              (RoutePlannerValidationError ''dropoff destination is not on the selected route''), p) (\<lambda>_ p.
     let g = se_guidance (pl_session p); delivered = noted destination (gu_dropoffs g)
     in project_and_save lib w r (g\<lparr>gu_dropoffs := take 4 delivered,
          gu_complete := set (dropoff_venues r) \<subseteq> set delivered\<rparr>) p))"

subsection \<open>Missions\<close>

definition mission_draft :: "world \<Rightarrow> session \<Rightarrow> string \<Rightarrow> string \<Rightarrow> exn + draft" where
  "mission_draft w s route_id route_revision =
     sbind (fresh w ''route is stale: '' s) (\<lambda>_.
     sbind (chosen_route w s route_id route_revision) (\<lambda>r.
     case (se_graph s, se_order s) of
       (Some g, Some z) \<Rightarrow> sbind (current_annotations w g) (\<lambda>a. compile_draft r g z a)
     | _ \<Rightarrow> conflict ''route graph or order is unavailable''))"

text \<open>What the planner hands to the mission service.\<close>

record submission =
  su_label :: string
  su_map :: string
  su_map_revision :: string
  su_annotation :: string
  su_waypoints :: "waypoint list"

datatype exported = Known mission_link | Created submission mission_link

definition link_of :: "recommendation \<Rightarrow> string \<Rightarrow> mission_link" where
  "link_of r mission =
     \<lparr>ml_route = rc_id r, ml_revision = rc_revision r, ml_mission = mission, ml_map = rc_map_revision r,
      ml_annotation = rc_annotation_revision r,
      ml_requirements = map (\<lambda>s. (sg_index s, map fst (sg_requirements s)))
        (filter (\<lambda>s. sg_requirements s \<noteq> []) (ro_segments (rc_route r)))\<rparr>"

definition last_links :: "mission_link list \<Rightarrow> mission_link list" where
  \<comment> \<open>\<^verbatim>\<open>links[-32:]\<close>\<close>
  "last_links links = drop (length links - 32) links"

text \<open>A mission the service still knows for this route; the first link of the revision decides.\<close>

definition known_mission :: "world \<Rightarrow> session \<Rightarrow> string \<Rightarrow> mission_link option" where
  "known_mission w s route_revision =
     (case filter (\<lambda>l. ml_revision l = route_revision) (se_links s) of
        l # _ \<Rightarrow> if wo_mission w (ml_mission l) then Some l else None
      | [] \<Rightarrow> None)"

definition make_submission :: "recommendation \<Rightarrow> order \<Rightarrow> draft \<Rightarrow> submission" where
  "make_submission r z d =
     \<lparr>su_label = dotted (or_label z) (profile_text (ro_profile (rc_route r))), su_map = rc_map r, su_map_revision = rc_map_revision r,
      su_annotation = rc_annotation_revision r, su_waypoints = dr_waypoints d\<rparr>"

text \<open>The part of \<^verbatim>\<open>export_mission\<close> after the search for a mission that exists.\<close>

definition create_mission :: "world \<Rightarrow> string \<Rightarrow> string \<Rightarrow> recommendation \<Rightarrow> planner \<Rightarrow> exported planned" where
  "create_mission w route_id route_revision r p =
     (case se_order (pl_session p) of
        None \<Rightarrow> (conflict ''route graph or order is unavailable'', p)
      | Some z \<Rightarrow>
          obind (mission_draft w (pl_session p) route_id route_revision, p) (\<lambda>d p.
          obind (require (dr_eligible d) (case dr_rejection d of None \<Rightarrow> ''None'' | Some m \<Rightarrow> m), p) (\<lambda>_ p.
          obind (wo_create w, p) (\<lambda>mission p.
          let s = pl_session p; l = link_of r mission in
          obind (save w (p\<lparr>pl_session := s\<lparr>se_links := last_links (se_links s @ [l]), se_state := S_Mission_Exported\<rparr>\<rparr>))
            (\<lambda>_ p. (Inr (Created (make_submission r z d) l), p))))))"

definition export_mission :: "world \<Rightarrow> string \<Rightarrow> string \<Rightarrow> planner \<Rightarrow> exported planned" where
  "export_mission w route_id route_revision p =
     obind (not_rehearsing ''mission draft export'' p, p) (\<lambda>_ p.
     obind (require (\<not> wo_blocked w) ''mission export is blocked while a mission is active'', p) (\<lambda>_ p.
     obind (fresh w ''route is stale: '' (pl_session p), p) (\<lambda>_ p.
     obind (chosen_route w (pl_session p) route_id route_revision, p) (\<lambda>r p.
     case known_mission w (pl_session p) route_revision of
       Some l \<Rightarrow> (Inr (Known l), p)
     | None \<Rightarrow> create_mission w route_id route_revision r p))))"

subsection \<open>Schematic commands, rehearsals, the end\<close>

definition schematic_command :: "world \<Rightarrow> string \<Rightarrow> planner \<Rightarrow> unit planned" where
  "schematic_command w action p =
     obind (editable w (''schematic '' @ action) True True p, p) (\<lambda>_ p.
     case wo_schematic w of
       None \<Rightarrow> (Inl (RoutePlannerUnavailable ''schematic local assets/storage unavailable''), p)
     | Some r \<Rightarrow>
         obind (r, p) (\<lambda>_ p.
         if action = ''CONTEXT''
         then save w (p\<lparr>pl_session := (pl_session p)\<lparr>se_state := S_Stale, se_routes := [], se_selected := None, se_context := None\<rparr>\<rparr>)
         else (Inr (), p)))"

definition rehearsal_enabled :: "library \<Rightarrow> exn + unit" where
  "rehearsal_enabled lib =
     guard (lb_rehearsal lib) (RoutePlannerUnavailable ''route planner rehearsal is disabled by server configuration'')"

definition begin_rehearsal :: "library \<Rightarrow> world \<Rightarrow> string \<Rightarrow> string \<Rightarrow> string \<Rightarrow> planner \<Rightarrow> unit planned" where
  "begin_rehearsal lib w route_id route_revision scenario p =
     obind (rehearsal_enabled lib, p) (\<lambda>_ p.
     obind (require (\<not> gu_active (se_guidance (pl_session p))) ''stop manual guidance before rehearsal'', p) (\<lambda>_ p.
     obind (require (\<not> (wo_blocked w \<or> navigation_active (wo_navigation w))) ''rehearsal requires idle mission and navigation'', p) (\<lambda>_ p.
     obind (require (\<not> wo_mapping w) ''rehearsal requires idle mapping'', p) (\<lambda>_ p.
     obind (chosen_route w (pl_session p) route_id route_revision, p) (\<lambda>r p.
     obind (guard (scenario \<in> set (lb_scenarios lib)) (RoutePlannerNotFound ''rehearsal scenario was not found''), p) (\<lambda>_ p.
     obind (mission_draft w (pl_session p) route_id route_revision, p) (\<lambda>d p.
     obind (wo_rehearsal w, p) (\<lambda>_ p. (Inr (), p\<lparr>pl_rehearsing := True\<rparr>)))))))))"

definition control_rehearsal :: "library \<Rightarrow> world \<Rightarrow> string \<Rightarrow> pydict \<Rightarrow> planner \<Rightarrow> unit planned" where
  "control_rehearsal lib w action payload p =
     obind (rehearsal_enabled lib, p) (\<lambda>_ p.
     obind (require (pl_rehearsing p) ''rehearsal session is not active'', p) (\<lambda>_ p.
     if action = ''EXIT''
     then if payload \<noteq> [] then (Inl (RoutePlannerValidationError ''rehearsal exit payload must be empty''), p)
          else (Inr (), p\<lparr>pl_rehearsing := False\<rparr>)
     else case wo_rehearsal w of
            Inl e \<Rightarrow> (Inl (case rehearsal_detail e of Some m \<Rightarrow> RoutePlannerValidationError m | None \<Rightarrow> e), p)
          | Inr _ \<Rightarrow> (Inr (), p)))"

definition close_planner :: "world \<Rightarrow> planner \<Rightarrow> unit planned" where
  "close_planner w p =
     (let p = p\<lparr>pl_rehearsing := False\<rparr> in
      if gu_active (se_guidance (pl_session p)) then save w (p\<lparr>pl_session := resting (pl_session p)\<rparr>) else (Inr (), p))"

subsection \<open>Steps\<close>

datatype request =
    Create_Order pyval | Update_Order string string pyval | Unlock_Order string string | Put_Graph pydict "string option"
  | Recommend string string string string string | Select_Route string string | Start_Guidance string string | Stop_Guidance
  | Mark_Pickup string | Mark_Dropoff string | Export_Mission string string | Schematic_Command string
  | Begin_Rehearsal string string string | Control_Rehearsal string pydict | Close_Planner

definition quiet :: "'a planned \<Rightarrow> unit planned" where
  "quiet r = (map_sum id (\<lambda>_. ()) (fst r), snd r)"

fun serve :: "library \<Rightarrow> world \<Rightarrow> request \<Rightarrow> planner \<Rightarrow> unit planned option" where
  "serve lib w (Create_Order payload) p = Some (quiet (create_order lib w payload p))"
| "serve lib w (Update_Order i revision payload) p = Some (quiet (update_order lib w i revision payload p))"
| "serve lib w (Unlock_Order i revision) p = Some (quiet (unlock_order lib w i revision p))"
| "serve lib w (Put_Graph payload revision) p = Some (quiet (put_graph lib w payload revision p))"
| "serve lib w (Recommend i revision graph start mode) p = map_option quiet (recommend lib w i revision graph start mode p)"
| "serve lib w (Select_Route i revision) p = Some (quiet (select_route lib w i revision p))"
| "serve lib w (Start_Guidance i revision) p = Some (quiet (start_guidance lib w i revision p))"
| "serve lib w Stop_Guidance p = Some (quiet (stop_guidance lib w p))"
| "serve lib w (Mark_Pickup venue) p = Some (quiet (mark_pickup lib w venue p))"
| "serve lib w (Mark_Dropoff destination) p = Some (quiet (mark_dropoff lib w destination p))"
| "serve lib w (Export_Mission i revision) p = Some (quiet (export_mission w i revision p))"
| "serve lib w (Schematic_Command action) p = Some (schematic_command w action p)"
| "serve lib w (Begin_Rehearsal i revision scenario) p = Some (begin_rehearsal lib w i revision scenario p)"
| "serve lib w (Control_Rehearsal action payload) p = Some (control_rehearsal lib w action payload p)"
| "serve lib w Close_Planner p = Some (close_planner w p)"

text \<open>The planners that requests and restarts lead to, from an empty disk.\<close>

inductive reachable :: "library \<Rightarrow> planner \<Rightarrow> bool" for lib where
  first_start: "start_planner opened w None = Inr p \<Longrightarrow> reachable lib p"
| served: "reachable lib p \<Longrightarrow> serve lib w req p = Some (r, p') \<Longrightarrow> reachable lib p'"
| restart: "reachable lib p \<Longrightarrow> start_planner opened w (pl_disk p) = Inr p' \<Longrightarrow> reachable lib p'"

end
