(* ===== verification/Planner_Session_Laws.thy ===== *)
theory Planner_Session_Laws
  imports Planner_Session Route_Planner_Claims
begin

text \<open>
  The laws of the planner's session: the invariant every request and restart keeps, the plan that guidance and missions
  leave alone, that a request which returns has saved the session, and what a mission is made of.
\<close>

subsection \<open>Steps that keep a predicate\<close>

lemma step_keeps: "P p \<Longrightarrow> (\<And>x. r = Inr x \<Longrightarrow> P (snd (f x p))) \<Longrightarrow> P (snd (obind (r, p) f))"
  by (cases r) simp_all

lemma obind_tail [simp]: "snd (obind r (\<lambda>x p. (f x p, p))) = snd r"
  by (auto simp: obind_def split: prod.splits sum.splits)

lemma save_result:
  "(save w p = (Inr (), p\<lparr>pl_disk := Some (pl_session p)\<rparr>) \<and> pl_failed p = [])
   \<or> (\<exists>e. save w p = (Inl e, p) \<or> save w p = (Inl e, p\<lparr>pl_failed := STORAGE_ERROR\<rparr>)
        \<or> save w p = (Inl e, p\<lparr>pl_disk := Some (pl_session p)\<rparr>))"
  by (cases "pl_failed p = []"; cases "wo_save w"; cases "wo_replaced w") (auto simp: save_def)

lemma save_cases:
  obtains "save w p = (Inr (), p\<lparr>pl_disk := Some (pl_session p)\<rparr>)" "pl_failed p = []"
  | e where "save w p = (Inl e, p)"
  | e where "save w p = (Inl e, p\<lparr>pl_failed := STORAGE_ERROR\<rparr>)"
  | e where "save w p = (Inl e, p\<lparr>pl_disk := Some (pl_session p)\<rparr>)"
  using save_result [of w p] by blast

lemma save_session [simp]: "pl_session (snd (save w p)) = pl_session p" "pl_rehearsing (snd (save w p)) = pl_rehearsing p"
  by (cases rule: save_cases [of w p]; simp)+

lemma commit_snd: "snd (commit lib w s p) = snd (save w (p\<lparr>pl_session := s\<rparr>))"
  by (cases rule: save_cases [of w "p\<lparr>pl_session := s\<rparr>"]) (simp_all add: commit_def)

lemma commit_session [simp]:
  "pl_session (snd (commit lib w s p)) = s" "pl_rehearsing (snd (commit lib w s p)) = pl_rehearsing p"
  by (simp_all add: commit_snd)

subsection \<open>The invariant\<close>

definition id_matches :: "session \<Rightarrow> recommendation list" where
  "id_matches s = filter (\<lambda>r. Some (rc_id r) = se_selected s) (se_routes s)"

definition progress_ok :: "guidance \<Rightarrow> recommendation \<Rightarrow> bool" where
  "progress_ok g r \<longleftrightarrow> distinct (gu_pickups g) \<and> set (gu_pickups g) \<subseteq> set (pickup_venues r)
     \<and> distinct (gu_dropoffs g) \<and> set (gu_dropoffs g) \<subseteq> set (dropoff_venues r)
     \<and> (gu_complete g \<longleftrightarrow> gu_dropoffs g \<noteq> [] \<and> set (gu_dropoffs g) = set (dropoff_venues r))"

definition plan_ok :: "session \<Rightarrow> bool" where
  "plan_ok s \<longleftrightarrow> (se_context s = None \<longrightarrow> se_routes s = [])
     \<and> (\<forall>c. se_context s = Some c \<longrightarrow> (\<exists>z g. se_order s = Some z \<and> se_graph s = Some g
         \<and> c = plan_pins z g (cx_start c) (cx_mode c)
         \<and> (\<forall>r\<in>set (se_routes s). r = pinned z g (rc_route r) \<and> card (set (dropoff_venues r)) \<le> 4
              \<and> card (set (pickup_venues r)) \<le> 3)))"

lemma plan_ok_frame [simp]:
  "plan_ok (s\<lparr>se_state := t\<rparr>) = plan_ok s" "plan_ok (s\<lparr>se_guidance := g\<rparr>) = plan_ok s" "plan_ok (s\<lparr>se_links := ls\<rparr>) = plan_ok s"
  "plan_ok (s\<lparr>se_error := e\<rparr>) = plan_ok s" "plan_ok (s\<lparr>se_selected := i\<rparr>) = plan_ok s"
  by (simp_all add: plan_ok_def)

lemma id_matches_frame [simp]:
  "id_matches (s\<lparr>se_state := t\<rparr>) = id_matches s" "id_matches (s\<lparr>se_guidance := g\<rparr>) = id_matches s"
  "id_matches (s\<lparr>se_links := ls\<rparr>) = id_matches s" "id_matches (s\<lparr>se_error := e\<rparr>) = id_matches s"
  by (simp_all add: id_matches_def)

definition session_ok :: "session \<Rightarrow> bool" where
  "session_ok s \<longleftrightarrow> length (se_routes s) \<le> 3 \<and> length (se_links s) \<le> 32 \<and> plan_ok s
     \<and> (\<forall>g. se_graph s = Some g \<longrightarrow> distinct (map nd_id (gr_nodes g)))
     \<and> (\<forall>i. se_selected s = Some i \<longrightarrow> i = [] \<or> i \<in> rc_id ` set (se_routes s))
     \<and> (gu_active (se_guidance s) \<longrightarrow> id_matches s \<noteq> [] \<and> progress_ok (se_guidance s) (hd (id_matches s)))
     \<and> (se_state s = S_Guidance_Active \<longrightarrow> gu_active (se_guidance s))
     \<and> (se_state s = S_Route_Selected \<longrightarrow> se_selected s \<noteq> None)"

definition planner_ok :: "planner \<Rightarrow> bool" where
  "planner_ok p \<longleftrightarrow> session_ok (pl_session p) \<and> (\<forall>s. pl_disk p = Some s \<longrightarrow> session_ok s)
     \<and> (pl_rehearsing p \<longrightarrow> \<not> gu_active (se_guidance (pl_session p)))"

lemma save_ok [inv_intro]: "planner_ok p \<Longrightarrow> planner_ok (snd (save w p))"
  by (cases rule: save_cases [of w p]) (auto simp: planner_ok_def)

lemma set_session_ok:
  "planner_ok p \<Longrightarrow> session_ok s \<Longrightarrow> (pl_rehearsing p \<longrightarrow> \<not> gu_active (se_guidance s)) \<Longrightarrow> planner_ok (p\<lparr>pl_session := s\<rparr>)"
  by (simp add: planner_ok_def)

lemma commit_ok [inv_intro]:
  "planner_ok p \<Longrightarrow> session_ok s \<Longrightarrow> (pl_rehearsing p \<longrightarrow> \<not> gu_active (se_guidance s)) \<Longrightarrow> planner_ok (snd (commit lib w s p))"
  unfolding commit_snd by (intro save_ok set_session_ok)

lemma planner_okD: "planner_ok p \<Longrightarrow> session_ok (pl_session p)"
  by (simp add: planner_ok_def)

lemma planner_ok_exclusive: "planner_ok p \<Longrightarrow> pl_rehearsing p \<Longrightarrow> \<not> gu_active (se_guidance (pl_session p))"
  by (simp add: planner_ok_def)

text \<open>Sessions that plan nothing.\<close>

lemma cleared_ok:
  assumes "se_routes s = []" "se_selected s = None" "se_context s = None" "\<not> gu_active (se_guidance s)"
    "length (se_links s) \<le> 32" "\<forall>g. se_graph s = Some g \<longrightarrow> distinct (map nd_id (gr_nodes g))"
    "se_state s \<notin> {S_Guidance_Active, S_Route_Selected}"
  shows "session_ok s"
  using assms by (simp add: session_ok_def plan_ok_def)

lemma empty_state_ok: "session_ok empty_state"
  by (rule cleared_ok) (simp_all add: empty_state_def no_guidance_def)

text \<open>Changes of the fields the plan does not depend on.\<close>

lemma session_ok_state:
  assumes "session_ok s" "t = S_Guidance_Active \<longrightarrow> gu_active (se_guidance s)" "t = S_Route_Selected \<longrightarrow> se_selected s \<noteq> None"
  shows "session_ok (s\<lparr>se_state := t\<rparr>)" "session_ok (s\<lparr>se_state := t, se_error := e\<rparr>)"
  using assms by (auto simp: session_ok_def)

lemma inactive [simp]: "\<not> gu_active (se_guidance (with_order z s))" "\<not> gu_active (se_guidance (with_graph g s))"
    "\<not> gu_active (se_guidance (with_routes z g start mode rs s))"
  by (simp_all add: with_order_def with_graph_def with_routes_def no_guidance_def)

lemma with_order_ok: "session_ok s \<Longrightarrow> session_ok (with_order z s)"
  by (rule cleared_ok) (auto simp: with_order_def no_guidance_def session_ok_def)

lemma with_graph_ok: "session_ok s \<Longrightarrow> distinct (map nd_id (gr_nodes g)) \<Longrightarrow> session_ok (with_graph g s)"
  by (rule cleared_ok) (auto simp: with_graph_def no_guidance_def session_ok_def)

lemma resting_ok: "session_ok s \<Longrightarrow> session_ok (resting s)"
  by (auto simp: session_ok_def resting_def stopped_def resting_state_def)

lemma resting_inactive [simp]: "\<not> gu_active (se_guidance (resting s))"
  by (simp add: resting_def stopped_def)

lemma restore_ok: "session_ok s \<Longrightarrow> session_ok (restore s)"
  by (auto simp: session_ok_def restore_def Let_def stopped_def resting_state_def)

lemma editable_idle: "editable w action graph schematic p = Inr u \<Longrightarrow> \<not> gu_active (se_guidance (pl_session p)) \<and> \<not> pl_rehearsing p"
  by (auto simp: editable_def not_rehearsing_def sbind_Inr_iff)

subsection \<open>Every operation keeps it\<close>

lemma create_order_ok [inv_intro]: "planner_ok p \<Longrightarrow> planner_ok (snd (create_order lib w payload p))"
proof -
  assume p: "planner_ok p"
  then have s: "session_ok ((pl_session p)\<lparr>se_state := S_Validating_Order\<rparr>)" by (intro session_ok_state planner_okD) simp_all
  have invalid: "session_ok ((pl_session p)\<lparr>se_state := S_Invalid, se_error := e\<rparr>)" for e
    using p by (intro session_ok_state planner_okD) simp_all
  show ?thesis unfolding create_order_def
    by (intro step_keeps [where P = planner_ok] p)
      (auto simp: Let_def p s invalid dest!: editable_idle split: sum.splits option.splits
        intro!: save_ok set_session_ok commit_ok with_order_ok)
qed

lemma replace_order_ok [inv_intro]: "planner_ok p \<Longrightarrow> planner_ok (snd (replace_order lib w i payload p))"
  by (auto simp: replace_order_def split: sum.splits intro!: commit_ok with_order_ok planner_okD)

lemma update_order_ok [inv_intro]: "planner_ok p \<Longrightarrow> planner_ok (snd (update_order lib w i revision payload p))"
  unfolding update_order_def by (intro step_keeps [where P = planner_ok] replace_order_ok)

lemma unlock_order_ok [inv_intro]: "planner_ok p \<Longrightarrow> planner_ok (snd (unlock_order lib w i revision p))"
  unfolding unlock_order_def by (intro step_keeps [where P = planner_ok] replace_order_ok)

lemma accept_graph_distinct: "accept_graph lib w payload = Inr g \<Longrightarrow> distinct (map nd_id (gr_nodes g))"
  by (auto simp: accept_graph_def Let_def sbind_Inr_iff graph_ok_def dest!: normalize_graph_ok split: sum.splits)

lemma put_graph_ok [inv_intro]: "planner_ok p \<Longrightarrow> planner_ok (snd (put_graph lib w payload base p))"
  unfolding put_graph_def
  by (intro step_keeps [where P = planner_ok]) (auto intro!: commit_ok with_graph_ok planner_okD dest: accept_graph_distinct)

text \<open>What the optimizer returns: three routes at most, each through the venues of the order.\<close>

lemma per_profile_all:
  assumes "per_profile f ps results = Some (Inr rs)" "list_all P results"
    and found: "\<And>p tried w. f p = Some (Inr tried) \<Longrightarrow> w \<in> set (fst tried) \<Longrightarrow> P w"
    and keep: "\<And>r qs. P r \<Longrightarrow> P (r\<lparr>ro_profiles := qs\<rparr>)"
  shows "list_all P rs"
  using assms(1,2)
proof (induction ps arbitrary: results)
  case (Cons p ps)
  then obtain tried w where t: "f p = Some (Inr tried)" "winner tried = Inr w" "per_profile f ps (add_winner w results) = Some (Inr rs)"
    by (auto simp: tbind_def split: option.splits sum.splits)
  have "P w" using found [OF t(1) winner_best(1) [OF t(2)]] .
  then have "list_all P (add_winner w results)" using Cons.prems(2) keep by (rule add_winner_all)
  with Cons.IH [OF t(3)] show ?case .
qed simp

lemma stops_venues:
  assumes "list_all2 (stop_is g m roles) vs ss" "set roles \<inter> set others = {}"
  shows "filter (\<lambda>s. st_role s \<in> set others) ss = []" "set roles \<subseteq> set names
    \<Longrightarrow> map (\<lambda>s. case st_venue s of None \<Rightarrow> ''None'' | Some v \<Rightarrow> v) (filter (\<lambda>s. st_role s \<in> set names) ss) = vs"
  using assms by (induction rule: list_all2_induct) (auto simp: stop_is_def)

lemma candidate_venues:
  assumes "distinct (map nd_id (gr_nodes g))"
    "candidate L digest z g annotations start m perception p (rs, ds) = Some (Inr r)" "ro_stops r' = ro_stops r"
  shows "pickup_venues (pinned z g r') = rs" "dropoff_venues (pinned z g r') = ds"
proof -
  from assms(2) obtain stops path marks where s: "stop_nodes g m rs ds = Inr stops"
    "finish_candidate L digest z g annotations start m perception p rs stops path marks = Inr r"
    by (auto simp: candidate_def tbind_def split: option.splits sum.splits)
  from s(2) have halts: "map_exn (make_stop g) stops = Inr (ro_stops r)"
    by (auto simp: finish_candidate_def sbind_Inr_iff Let_def)
  from stop_nodes_cases [of g m rs ds] s(1) obtain us js where n: "stops = us @ js" "list_all2 (stop_ok g m RESTAURANT_ROLES) rs us"
    "list_all2 (stop_ok g m DESTINATION_ROLES) ds js" by auto
  from make_stops_ok [OF assms(1) n(2)] make_stops_ok [OF assms(1) n(3)] obtain hs ks where
    h: "map_exn (make_stop g) us = Inr hs" "list_all2 (stop_is g m RESTAURANT_ROLES) rs hs"
       "map_exn (make_stop g) js = Inr ks" "list_all2 (stop_is g m DESTINATION_ROLES) ds ks" by blast
  have "ro_stops r = hs @ ks" using halts by (simp add: n(1) map_exn_append h(1,3))
  then show "pickup_venues (pinned z g r') = rs" "dropoff_venues (pinned z g r') = ds"
    using stops_venues [OF h(2), of "[''DESTINATION_APPROACH'', ''DESTINATION_DOCK'']"]
      stops_venues(2) [OF h(2), of "[]" "[''RESTAURANT_APPROACH'', ''RESTAURANT_DOCK'']"]
      stops_venues [OF h(4), of "[''RESTAURANT_APPROACH'', ''RESTAURANT_DOCK'']"]
      stops_venues(2) [OF h(4), of "[]" "[''DESTINATION_APPROACH'', ''DESTINATION_DOCK'']"]
    by (simp_all add: pickup_venues_def dropoff_venues_def stop_venues_def pinned_def assms(3))
qed

definition venues_few :: "order \<Rightarrow> route_graph \<Rightarrow> route \<Rightarrow> bool" where
  "venues_few z g r \<longleftrightarrow> card (set (dropoff_venues (pinned z g r))) \<le> 4 \<and> card (set (pickup_venues (pinned z g r))) \<le> 3"

lemma recommended_few:
  assumes "recommend_routes L digest z g annotations start om perception = Some (Inr rs)" "distinct (map nd_id (gr_nodes g))"
  shows "length rs \<le> 3" "list_all (venues_few z g) rs"
proof -
  from assms(1) obtain m results where r: "check_request z g start om = Inr m" "rs = take 3 results"
    "per_profile (\<lambda>p. try_orders (candidate L digest z g annotations start m perception p)
       (visit_orders (restaurant_ids z) (destination_ids z))) PROFILES [] = Some (Inr results)"
    by (auto simp: recommend_routes_def tbind_def split: option.splits sum.splits)
  have few: "length (restaurant_ids z) \<le> 3" "length (destination_ids z) \<le> 4"
    using r(1) by (auto simp: check_request_def sbind_Inr_iff split: option.splits)
  have "list_all (venues_few z g) results"
  proof (rule per_profile_all [OF r(3)])
    fix p tried w
    assume t: "try_orders (candidate L digest z g annotations start m perception p)
        (visit_orders (restaurant_ids z) (destination_ids z)) = Some (Inr tried)" "w \<in> set (fst tried)"
    obtain visits es where tried: "tried = (visits, es)" by (cases tried)
    obtain us ds where v: "(us, ds) \<in> set (visit_orders (restaurant_ids z) (destination_ids z))"
      "candidate L digest z g annotations start m perception p (us, ds) = Some (Inr w)"
      using try_orders_found [OF t(1) [unfolded tried], of w] t(2) tried by auto
    then have "length us = length (restaurant_ids z)" "length ds = length (destination_ids z)"
      by (auto simp: visit_orders_set dest: mset_eq_length)
    with few card_length [of us] card_length [of ds] show "venues_few z g w"
      by (simp add: venues_few_def candidate_venues [OF assms(2) v(2)])
  qed (simp_all add: venues_few_def dropoff_venues_def pickup_venues_def stop_venues_def pinned_def)
  then show "length rs \<le> 3" "list_all (venues_few z g) rs" unfolding r(2) by (auto simp: list_all_iff dest: in_set_takeD)
qed

lemma with_routes_ok:
  assumes "session_ok s" "se_order s = Some z" "se_graph s = Some g" "length rs \<le> 3" "list_all (venues_few z g) rs"
  shows "session_ok (with_routes z g start mode rs s)"
  using assms by (auto simp: session_ok_def with_routes_def plan_ok_def plan_pins_def no_guidance_def venues_few_def list_all_iff pinned_def)

lemma current_order_Inr: "current_order s i = Inr z \<Longrightarrow> se_order s = Some z \<and> or_id z = i"
  by (auto simp: current_order_def split: option.splits if_splits)

lemma check_plan_Inr:
  assumes "check_plan w i revision graph p = Inr (z, g, a)"
  shows "se_order (pl_session p) = Some z" "se_graph (pl_session p) = Some g" "\<not> gu_active (se_guidance (pl_session p))"
    "\<not> pl_rehearsing p"
  using assms editable_idle [of w "''route recommendation''" True False p]
  by (auto simp: check_plan_def sbind_Inr_iff split: option.splits dest: current_order_Inr)

lemma recommend_ok [inv_intro]:
  assumes p: "planner_ok p" and r: "recommend lib w i revision graph start mode p = Some r"
  shows "planner_ok (snd r)"
proof (cases "check_plan w i revision graph p")
  case (Inl e)
  with p r show ?thesis by (auto simp: recommend_def)
next
  case (Inr c)
  obtain z g a where c: "c = (z, g, a)" by (cases c)
  note k = check_plan_Inr [OF Inr [unfolded c]]
  let ?s = "(pl_session p)\<lparr>se_state := S_Planning, se_error := None\<rparr>"
  have s: "session_ok ?s" using p by (intro session_ok_state planner_okD) simp_all
  then have failed: "session_ok (?s\<lparr>se_state := S_Failed, se_error := e\<rparr>)" for e by (rule session_ok_state) simp_all
  have graph: "distinct (map nd_id (gr_nodes g))" using planner_okD [OF p] k(2) by (auto simp: session_ok_def)
  have fin: "planner_ok (snd (finish_planning lib w z g start mode ?s q p))"
    if "\<And>rs. q = Inr rs \<Longrightarrow> length rs \<le> 3 \<and> list_all (venues_few z g) rs" for q
    using that p k s failed
    by (auto simp: finish_planning_def Let_def split: sum.splits option.splits
        intro!: save_ok set_session_ok commit_ok with_routes_ok)
  show ?thesis
  proof (cases "wo_perception w")
    case (Inl e)
    with r have "r = finish_planning lib w z g start mode ?s (Inl e) p" by (simp add: recommend_def Inr c)
    with fin [of "Inl e"] show ?thesis by simp
  next
    case (Inr perception)
    with r obtain q where q: "recommend_routes (lb_math lib) (lb_route lib) z g a start mode perception = Some q"
      "r = finish_planning lib w z g start mode ?s q p" by (auto simp: recommend_def \<open>check_plan w i revision graph p = Inr c\<close> c)
    show ?thesis unfolding q(2) using q(1) graph by (intro fin) (auto dest: recommended_few)
  qed
qed

lemma selected_route_Inr:
  assumes "selected_route w s i = Inr r"
  shows "r \<in> set (se_routes s)" "i \<noteq> [] \<Longrightarrow> rc_id r = i" "wanted s i = se_selected s \<Longrightarrow> id_matches s \<noteq> [] \<and> r = hd (id_matches s)"
proof -
  from assms obtain rs where f: "filter (\<lambda>r. Some (rc_id r) = wanted s i) (se_routes s) = r # rs"
    by (auto simp: selected_route_def sbind_Inr_iff split: list.splits)
  then have "r \<in> set (filter (\<lambda>r. Some (rc_id r) = wanted s i) (se_routes s))" by simp
  then show "r \<in> set (se_routes s)" "i \<noteq> [] \<Longrightarrow> rc_id r = i" by (auto simp: wanted_def)
  show "wanted s i = se_selected s \<Longrightarrow> id_matches s \<noteq> [] \<and> r = hd (id_matches s)" using f by (simp add: id_matches_def)
qed

lemma chosen_route_Inr:
  assumes "chosen_route w s i revision = Inr r"
  shows "se_selected s = Some i" "rc_revision r = revision" "id_matches s \<noteq> []" "r = hd (id_matches s)" "r \<in> set (se_routes s)"
proof -
  from assms have r: "selected_route w s i = Inr r" "se_selected s = Some i" "rc_revision r = revision"
    by (auto simp: chosen_route_def sbind_Inr_iff)
  moreover have "wanted s i = se_selected s" using r(2) by (simp add: wanted_def)
  ultimately show "se_selected s = Some i" "rc_revision r = revision" "id_matches s \<noteq> []" "r = hd (id_matches s)" "r \<in> set (se_routes s)"
    using selected_route_Inr [OF r(1)] by auto
qed

lemma select_route_ok [inv_intro]: "planner_ok p \<Longrightarrow> planner_ok (snd (select_route lib w i revision p))"
proof -
  assume p: "planner_ok p"
  have "session_ok ((pl_session p)\<lparr>se_selected := Some i, se_state := S_Route_Selected, se_error := None\<rparr>)"
    if "selected_route w (pl_session p) i = Inr r" "\<not> gu_active (se_guidance (pl_session p))" for r
    using selected_route_Inr(1,2) [OF that(1)] that(2) planner_okD [OF p] by (auto simp: session_ok_def)
  with p show ?thesis unfolding select_route_def
    by (intro step_keeps [where P = planner_ok]) (auto intro!: commit_ok dest: editable_idle)
qed

lemma start_guidance_ok [inv_intro]: "planner_ok p \<Longrightarrow> planner_ok (snd (start_guidance lib w i revision p))"
proof -
  assume p: "planner_ok p"
  let ?s = "(pl_session p)\<lparr>se_guidance := no_guidance\<lparr>gu_active := True\<rparr>, se_state := S_Guidance_Active\<rparr>"
  have "session_ok ?s" if "chosen_route w (pl_session p) i revision = Inr r" for r
    using chosen_route_Inr(3) [OF that] planner_okD [OF p] by (auto simp: session_ok_def progress_ok_def no_guidance_def)
  with p have saved: "planner_ok (snd (save w (p\<lparr>pl_session := ?s\<rparr>)))"
    if "chosen_route w (pl_session p) i revision = Inr r" "\<not> pl_rehearsing p" for r
    using that by (intro save_ok set_session_ok) auto
  then have after: "planner_ok q"
    if "save w (p\<lparr>pl_session := ?s\<rparr>) = (x, q)" "chosen_route w (pl_session p) i revision = Inr r" "\<not> pl_rehearsing p" for q r x
    using that by (metis snd_conv)
  show ?thesis unfolding start_guidance_def Let_def
    using p by (intro step_keeps [where P = planner_ok] obind_keeps [where P = planner_ok])
      (auto simp: not_rehearsing_def intro: saved after)
qed

lemma stop_guidance_ok [inv_intro]: "planner_ok p \<Longrightarrow> planner_ok (snd (stop_guidance lib w p))"
  unfolding stop_guidance_def Let_def
  by (intro step_keeps [where P = planner_ok]) (auto intro!: commit_ok resting_ok planner_okD)

lemma noted_props:
  assumes "distinct ds" "set ds \<subseteq> D" "d \<in> D" "finite D" "card D \<le> n"
  shows "distinct (noted d ds)" "set (noted d ds) = insert d (set ds)" "take n (noted d ds) = noted d ds"
proof -
  show a: "distinct (noted d ds)" "set (noted d ds) = insert d (set ds)" using assms(1) by (auto simp: noted_def)
  have "length (noted d ds) = card (set (noted d ds))" using a(1) by (simp add: distinct_card)
  also have "\<dots> \<le> card D" using a(2) assms(2-4) by (intro card_mono) auto
  finally show "take n (noted d ds) = noted d ds" using assms(5) by simp
qed

lemma guided_route_Inr:
  assumes "guided_route w action p = Inr r"
  shows "gu_active (se_guidance (pl_session p))" "id_matches (pl_session p) \<noteq> []" "r = hd (id_matches (pl_session p))"
    "r \<in> set (se_routes (pl_session p))"
proof -
  from assms have "gu_active (se_guidance (pl_session p))" "selected_route w (pl_session p) [] = Inr r"
    by (auto simp: guided_route_def sbind_Inr_iff)
  with selected_route_Inr [OF this(2)] show "gu_active (se_guidance (pl_session p))" "id_matches (pl_session p) \<noteq> []"
    "r = hd (id_matches (pl_session p))" "r \<in> set (se_routes (pl_session p))" by (auto simp: wanted_def)
qed

lemma guided_progress:
  assumes "planner_ok p" "guided_route w action p = Inr r"
  shows "progress_ok (se_guidance (pl_session p)) r" "card (set (dropoff_venues r)) \<le> 4" "card (set (pickup_venues r)) \<le> 3"
proof -
  note s = planner_okD [OF assms(1)] and g = guided_route_Inr [OF assms(2)]
  show "progress_ok (se_guidance (pl_session p)) r" using s g by (simp add: session_ok_def)
  have "se_routes (pl_session p) \<noteq> []" using g(4) by auto
  with s have "\<exists>z h. \<forall>r\<in>set (se_routes (pl_session p)). r = pinned z h (rc_route r) \<and> card (set (dropoff_venues r)) \<le> 4
      \<and> card (set (pickup_venues r)) \<le> 3" by (cases "se_context (pl_session p)") (auto simp: session_ok_def plan_ok_def)
  with g(4) show "card (set (dropoff_venues r)) \<le> 4" "card (set (pickup_venues r)) \<le> 3" by blast+
qed

lemma guided_session_ok:
  assumes "planner_ok p" "guided_route w action p = Inr r" "progress_ok g r" "gu_active g"
  shows "session_ok ((pl_session p)\<lparr>se_guidance := g\<rparr>)"
  using planner_okD [OF assms(1)] guided_route_Inr [OF assms(2)] assms(3,4) by (auto simp: session_ok_def)

lemma project_and_save_ok:
  assumes "planner_ok p" "guided_route w action p = Inr r" "progress_ok g r" "gu_active g"
  shows "planner_ok (snd (project_and_save lib w r' g p))"
proof -
  have idle: "\<not> pl_rehearsing p" using assms(2) by (auto simp: guided_route_def not_rehearsing_def sbind_Inr_iff)
  have g: "progress_ok (g\<lparr>gu_index := i\<rparr>) r" "gu_active (g\<lparr>gu_index := i\<rparr>)" for i using assms(3,4) by (simp_all add: progress_ok_def)
  have "planner_ok (p\<lparr>pl_session := (pl_session p)\<lparr>se_guidance := g\<rparr>\<rparr>)"
    using assms idle by (intro set_session_ok guided_session_ok) auto
  moreover have "session_ok ((pl_session p)\<lparr>se_guidance := g\<lparr>gu_index := i\<rparr>\<rparr>)" for i
    by (rule guided_session_ok [OF assms(1,2) g])
  ultimately show ?thesis unfolding project_and_save_def Let_def
    using idle by (intro step_keeps [where P = planner_ok]) (auto intro!: commit_ok)
qed

lemma mark_pickup_ok [inv_intro]: "planner_ok p \<Longrightarrow> planner_ok (snd (mark_pickup lib w venue p))"
proof -
  assume p: "planner_ok p"
  let ?g = "se_guidance (pl_session p)"
  have "planner_ok (snd (project_and_save lib w r (?g\<lparr>gu_pickups := take 5 (noted venue (gu_pickups ?g))\<rparr>) p))"
    if r: "guided_route w action p = Inr r" "venue \<in> set (pickup_venues r)" for action r
  proof (rule project_and_save_ok [OF p r(1)])
    note g = guided_progress [OF p r(1)]
    have "card (set (pickup_venues r)) \<le> 5" using g(3) by simp
    from noted_props [OF _ _ r(2) finite_set this, of "gu_pickups ?g"] g(1) r(2)
    show "progress_ok (?g\<lparr>gu_pickups := take 5 (noted venue (gu_pickups ?g))\<rparr>) r" by (auto simp: progress_ok_def)
  qed (simp add: guided_route_Inr [OF r(1)])
  with p show ?thesis unfolding mark_pickup_def Let_def by (intro step_keeps [where P = planner_ok]) auto
qed

lemma mark_dropoff_ok [inv_intro]: "planner_ok p \<Longrightarrow> planner_ok (snd (mark_dropoff lib w destination p))"
proof -
  assume p: "planner_ok p"
  let ?g = "se_guidance (pl_session p)" and ?new = "noted destination (gu_dropoffs (se_guidance (pl_session p)))"
  have "planner_ok (snd (project_and_save lib w r (?g\<lparr>gu_dropoffs := take 4 ?new, gu_complete := set (dropoff_venues r) \<subseteq> set ?new\<rparr>) p))"
    if r: "guided_route w action p = Inr r" "destination \<in> set (dropoff_venues r)" for action r
  proof (rule project_and_save_ok [OF p r(1)])
    note g = guided_progress [OF p r(1)]
    have new: "distinct ?new" "set ?new = insert destination (set (gu_dropoffs ?g))" "take 4 ?new = ?new"
      using noted_props [OF _ _ r(2) finite_set g(2), of "gu_dropoffs ?g"] g(1) by (auto simp: progress_ok_def)
    moreover have "?new \<noteq> []" by (simp add: noted_def) auto
    ultimately show "progress_ok (?g\<lparr>gu_dropoffs := take 4 ?new, gu_complete := set (dropoff_venues r) \<subseteq> set ?new\<rparr>) r"
      using g(1) r(2) by (auto simp: progress_ok_def)
  qed (simp add: guided_route_Inr [OF r(1)])
  with p show ?thesis unfolding mark_dropoff_def Let_def by (intro step_keeps [where P = planner_ok]) auto
qed

lemma exported_session_ok:
  "session_ok s \<Longrightarrow> session_ok (s\<lparr>se_links := last_links ls, se_state := S_Mission_Exported\<rparr>)"
  by (auto simp: session_ok_def last_links_def)

lemma create_mission_ok: "planner_ok p \<Longrightarrow> planner_ok (snd (create_mission w i revision r p))"
  unfolding create_mission_def Let_def
  by (cases "se_order (pl_session p)")
    (auto intro!: step_keeps [where P = planner_ok] save_ok set_session_ok exported_session_ok planner_okD
      simp: planner_ok_exclusive)

lemma export_mission_ok [inv_intro]: "planner_ok p \<Longrightarrow> planner_ok (snd (export_mission w i revision p))"
  unfolding export_mission_def
  by (intro step_keeps [where P = planner_ok]) (auto split: option.splits intro: create_mission_ok)

lemma schematic_command_ok [inv_intro]: "planner_ok p \<Longrightarrow> planner_ok (snd (schematic_command w action p))"
proof -
  assume p: "planner_ok p"
  then have "session_ok ((pl_session p)\<lparr>se_state := S_Stale, se_routes := [], se_selected := None, se_context := None\<rparr>)"
    if "\<not> gu_active (se_guidance (pl_session p))" using planner_okD [OF p] that by (intro cleared_ok) (auto simp: session_ok_def)
  with p show ?thesis unfolding schematic_command_def
    by (intro step_keeps [where P = planner_ok])
      (auto split: option.splits intro!: step_keeps [where P = planner_ok] save_ok set_session_ok dest: editable_idle)
qed

lemma begin_rehearsal_ok [inv_intro]: "planner_ok p \<Longrightarrow> planner_ok (snd (begin_rehearsal lib w i revision scenario p))"
  unfolding begin_rehearsal_def by (intro step_keeps [where P = planner_ok]) (auto simp: planner_ok_def)

lemma control_rehearsal_ok [inv_intro]: "planner_ok p \<Longrightarrow> planner_ok (snd (control_rehearsal lib w action payload p))"
  unfolding control_rehearsal_def
  by (intro step_keeps [where P = planner_ok]) (auto simp: planner_ok_def split: sum.splits)

lemma close_planner_ok [inv_intro]: "planner_ok p \<Longrightarrow> planner_ok (snd (close_planner w p))"
  by (auto simp: close_planner_def Let_def planner_ok_def [of "p\<lparr>pl_rehearsing := False\<rparr>"]
      intro!: save_ok set_session_ok resting_ok planner_okD) (simp_all add: planner_ok_def)

lemma quiet_snd [simp]: "snd (quiet r) = snd r"
  by (simp add: quiet_def)

text \<open>A predicate every operation keeps holds after every request.\<close>

lemma serve_keeps:
  assumes s: "serve lib w req p = Some (r, p')"
    and ops: "\<And>payload. P (snd (create_order lib w payload p))" "\<And>i v payload. P (snd (update_order lib w i v payload p))"
      "\<And>i v. P (snd (unlock_order lib w i v p))" "\<And>payload base. P (snd (put_graph lib w payload base p))"
      "\<And>i v graph start mode q. recommend lib w i v graph start mode p = Some q \<Longrightarrow> P (snd q)"
      "\<And>i v. P (snd (select_route lib w i v p))" "\<And>i v. P (snd (start_guidance lib w i v p))" "P (snd (stop_guidance lib w p))"
      "\<And>venue. P (snd (mark_pickup lib w venue p))" "\<And>destination. P (snd (mark_dropoff lib w destination p))"
      "\<And>i v. P (snd (export_mission w i v p))" "\<And>action. P (snd (schematic_command w action p))"
      "\<And>i v scenario. P (snd (begin_rehearsal lib w i v scenario p))"
      "\<And>action payload. P (snd (control_rehearsal lib w action payload p))" "P (snd (close_planner w p))"
  shows "P p'"
proof -
  have after: "p' = snd q" if "q = (r, p')" for q using that by simp
  have planned: "P p'" if "recommend lib w i v graph start mode p = Some (a, p')" for i v graph start mode a
    using ops(5) [OF that] by simp
  show ?thesis using s by (cases req) (auto dest!: after intro: ops planned)
qed

lemma serve_ok: "planner_ok p \<Longrightarrow> serve lib w req p = Some (r, p') \<Longrightarrow> planner_ok p'"
  by (erule serve_keeps [where P = planner_ok]) (intro inv_intro; assumption)+

lemma load_ok: "(\<And>s. disk = Some s \<Longrightarrow> session_ok s) \<Longrightarrow> session_ok (load disk)"
  by (auto simp: load_def empty_state_ok restore_ok split: option.splits)

lemma start_planner_ok:
  assumes "start_planner opened w disk = Inr p" "\<And>s. disk = Some s \<Longrightarrow> session_ok s"
  shows "planner_ok p"
proof -
  let ?p = "\<lparr>pl_session = load disk, pl_disk = disk, pl_failed = [], pl_rehearsing = False\<rparr>"
  have fresh: "planner_ok ?p" using load_ok [of disk] assms(2) by (auto simp: planner_ok_def)
  have lost: "planner_ok (q\<lparr>pl_session := empty_state, pl_failed := f\<rparr>)" if "planner_ok q" for q f
    using that empty_state_ok by (auto simp: planner_ok_def empty_state_def no_guidance_def)
  have saved: "planner_ok q" if "save w ?p = (r, q)" for r q using save_ok [OF fresh, of w] that by simp
  from assms(1) show ?thesis using fresh lost [OF fresh, of STORAGE_ERROR]
    by (auto simp: start_planner_def Let_def split: sum.splits prod.splits if_splits dest!: saved intro: lost)
qed

lemma reachable_ok: "reachable lib p \<Longrightarrow> planner_ok p"
proof (induction rule: reachable.induct)
  case (first_start opened w p)
  then show ?case by (rule start_planner_ok) simp
next
  case (served p w req r p')
  then show ?case by (blast intro: serve_ok)
next
  case (restart p opened w p')
  then show ?case by (auto simp: planner_ok_def [of p] intro: start_planner_ok)
qed

subsection \<open>What guidance locks\<close>

definition same_plan :: "session \<Rightarrow> session \<Rightarrow> bool" where
  "same_plan s t \<longleftrightarrow> se_order s = se_order t \<and> se_graph s = se_graph t \<and> se_routes s = se_routes t
     \<and> se_selected s = se_selected t \<and> se_context s = se_context t"

definition is_edit :: "request \<Rightarrow> bool" where
  "is_edit req \<longleftrightarrow> (case req of Create_Order _ \<Rightarrow> True | Update_Order _ _ _ \<Rightarrow> True | Unlock_Order _ _ \<Rightarrow> True | Put_Graph _ _ \<Rightarrow> True
     | Recommend _ _ _ _ _ \<Rightarrow> True | Select_Route _ _ \<Rightarrow> True | Schematic_Command _ \<Rightarrow> True | _ \<Rightarrow> False)"

lemma editable_blocked:
  assumes "gu_active (se_guidance (pl_session p))"
  obtains m where "editable w action graph schematic p = Inl (RoutePlannerConflict m)"
proof -
  have "\<exists>m. editable w action graph schematic p = Inl (RoutePlannerConflict m)"
    using assms by (auto simp: editable_def not_rehearsing_def saved_context_def guard_def)
  then show ?thesis using that by blast
qed

lemma edit_blocked:
  assumes "gu_active (se_guidance (pl_session p))" "is_edit req"
  shows "\<exists>m. serve lib w req p = Some (Inl (RoutePlannerConflict m), p)"
proof -
  have "\<forall>action graph schematic. \<exists>m. editable w action graph schematic p = Inl (RoutePlannerConflict m)"
    using editable_blocked [OF assms(1)] by metis
  then obtain f where f: "editable w action graph schematic p = Inl (RoutePlannerConflict (f action graph schematic))"
    for action graph schematic by metis
  show ?thesis using assms(2)
    by (cases req) (simp_all add: is_edit_def quiet_def create_order_def update_order_def unlock_order_def put_graph_def recommend_def
        check_plan_def select_route_def schematic_command_def f)
qed

lemma same_plan_refl [simp]: "same_plan s s"
  by (simp add: same_plan_def)

text \<open>The operations on guidance, missions and rehearsals keep the plan.\<close>

lemma resting_same_plan [simp]: "same_plan (resting s) t = same_plan s t"
  by (simp add: resting_def same_plan_def)

lemma same_plan_frame [simp]:
  "same_plan (s\<lparr>se_state := x\<rparr>) t = same_plan s t" "same_plan (s\<lparr>se_guidance := g\<rparr>) t = same_plan s t"
  "same_plan (s\<lparr>se_links := ls\<rparr>) t = same_plan s t" "same_plan (s\<lparr>se_error := e\<rparr>) t = same_plan s t"
  by (simp_all add: same_plan_def)

lemma obind_same_plan:
  assumes "same_plan (pl_session (snd q)) t" "\<And>x p. q = (Inr x, p) \<Longrightarrow> same_plan (pl_session (snd (f x p))) t"
  shows "same_plan (pl_session (snd (obind q f))) t"
  using assms by (rule obind_keeps [where P = "\<lambda>p. same_plan (pl_session p) t"])

lemma saved_session: "save w p = (r, q) \<Longrightarrow> pl_session q = pl_session p"
  by (metis save_session(1) snd_conv)

lemma committed_session: "commit lib w s p = (r, q) \<Longrightarrow> pl_session q = s"
  by (metis commit_session(1) snd_conv)

lemma guidance_same_plan:
  "same_plan (pl_session (snd (start_guidance lib w i v p))) (pl_session p)"
  "same_plan (pl_session (snd (stop_guidance lib w p))) (pl_session p)"
  "same_plan (pl_session (snd (project_and_save lib w r g p))) (pl_session p)"
  "same_plan (pl_session (snd (create_mission w i v r p))) (pl_session p)"
  "same_plan (pl_session (snd (begin_rehearsal lib w i v scenario p))) (pl_session p)"
  "same_plan (pl_session (snd (control_rehearsal lib w action payload p))) (pl_session p)"
  "same_plan (pl_session (snd (close_planner w p))) (pl_session p)"
  unfolding start_guidance_def stop_guidance_def project_and_save_def create_mission_def begin_rehearsal_def control_rehearsal_def
    close_planner_def Let_def
  by (auto intro!: obind_same_plan dest!: saved_session committed_session split: option.splits sum.splits)

lemma mark_same_plan:
  "same_plan (pl_session (snd (mark_pickup lib w venue p))) (pl_session p)"
  "same_plan (pl_session (snd (mark_dropoff lib w venue p))) (pl_session p)"
  "same_plan (pl_session (snd (export_mission w i v p))) (pl_session p)"
  unfolding mark_pickup_def mark_dropoff_def export_mission_def Let_def
  by (auto intro!: obind_same_plan simp: guidance_same_plan split: option.splits)

lemma locked_plan:
  assumes "gu_active (se_guidance (pl_session p))" "serve lib w req p = Some (r, p')"
  shows "same_plan (pl_session p') (pl_session p)"
proof (cases "is_edit req")
  case True
  with edit_blocked [OF assms(1), of req lib w] assms(2) show ?thesis by auto
next
  case False
  have after: "p' = snd q" if "q = (r, p')" for q using that by simp
  show ?thesis using False assms(2)
    by (cases req) (auto simp: is_edit_def guidance_same_plan mark_same_plan dest!: after)
qed

subsection \<open>What is saved\<close>

lemma obind_Inr: "obind q f = (Inr y, s') \<longleftrightarrow> (\<exists>x s. q = (Inr x, s) \<and> f x s = (Inr y, s'))"
  by (auto simp: obind_def split: prod.splits sum.splits)

definition in_step :: "planner \<Rightarrow> bool" where
  "in_step p \<longleftrightarrow> pl_disk p = Some (pl_session p)"

lemma in_step_frame [simp]: "in_step (p\<lparr>pl_rehearsing := b\<rparr>) = in_step p"
  by (simp add: in_step_def)

lemma save_in_step: "save w p = (Inr u, q) \<Longrightarrow> in_step q \<and> pl_session q = pl_session p"
  using save_result [of w p] by (auto simp: in_step_def)

lemma commit_in_step: "commit lib w s p = (Inr v, q) \<Longrightarrow> in_step q \<and> pl_session q = s"
  by (auto simp: commit_def obind_Inr dest!: save_in_step)

lemma quiet_Inr: "quiet q = (Inr u, p) \<longleftrightarrow> (\<exists>x. q = (Inr x, p))"
  by (cases q; cases "fst q") (auto simp: quiet_def)

lemma project_in_step: "project_and_save lib w r g p = (Inr v, q) \<Longrightarrow> in_step q"
  by (auto simp: project_and_save_def Let_def obind_Inr dest!: commit_in_step)

lemma replace_in_step: "replace_order lib w i payload p = (Inr v, q) \<Longrightarrow> in_step q"
  by (auto simp: replace_order_def obind_Inr dest!: commit_in_step split: sum.splits)

lemma planning_in_step: "finish_planning lib w z g start mode s r p = (Inr v, q) \<Longrightarrow> in_step q"
  by (auto simp: finish_planning_def Let_def obind_Inr dest!: commit_in_step split: sum.splits option.splits)

lemma mission_in_step: "create_mission w i v r p = (Inr x, q) \<Longrightarrow> in_step q"
  by (auto simp: create_mission_def Let_def obind_Inr dest!: save_in_step split: option.splits)

lemma serve_in_step:
  assumes "serve lib w req p = Some (Inr u, p')" "in_step p"
  shows "in_step p'"
  using assms
  by (cases req)
    (auto simp: quiet_Inr obind_Inr Let_def create_order_def update_order_def unlock_order_def put_graph_def recommend_def
        select_route_def start_guidance_def stop_guidance_def mark_pickup_def mark_dropoff_def export_mission_def schematic_command_def
        begin_rehearsal_def control_rehearsal_def close_planner_def
      dest!: commit_in_step save_in_step project_in_step replace_in_step planning_in_step mission_in_step
      split: sum.splits option.splits if_splits prod.splits)

subsection \<open>What a mission is made of\<close>

text \<open>The nodes a mission has waypoints for, along a path.\<close>

definition mission_stops :: "route_graph \<Rightarrow> string list \<Rightarrow> node list" where
  "mission_stops g nodes = filter (\<lambda>n. nd_role n \<in> set MISSION_NODE_ROLES) (List.map_filter (node_by_id g) nodes)"

lemma node_by_id_Some: "node_by_id g i = Some n \<Longrightarrow> nd_id n = i \<and> n \<in> set (gr_nodes g)"
  by (auto simp: node_by_id_def dest: map_of_SomeD)

lemma remdups_adj_snoc: "remdups_adj (xs @ [x]) = (if xs \<noteq> [] \<and> last xs = x then remdups_adj xs else remdups_adj xs @ [x])"
  by (induction xs rule: remdups_adj.induct) auto

lemma waypoint_nodes_from:
  assumes "\<forall>n\<in>set xs. node_by_id g (nd_id n) = Some n"
  shows "waypoint_nodes g nodes (remdups_adj xs) = remdups_adj (xs @ mission_stops g nodes)"
  using assms
proof (induction nodes arbitrary: xs)
  case Nil
  show ?case by (simp add: mission_stops_def List.map_filter_def)
next
  case (Cons i nodes)
  show ?case
  proof (cases "\<exists>n. node_by_id g i = Some n \<and> nd_role n \<in> set MISSION_NODE_ROLES")
    case False
    then have "mission_stops g (i # nodes) = mission_stops g nodes"
      by (cases "node_by_id g i") (auto simp: mission_stops_def List.map_filter_def)
    with Cons.IH [OF Cons.prems] False show ?thesis by (cases "node_by_id g i") auto
  next
    case True
    then obtain n where n: "node_by_id g i = Some n" "nd_role n \<in> set MISSION_NODE_ROLES" by blast
    then have "mission_stops g (i # nodes) = n # mission_stops g nodes" by (simp add: mission_stops_def List.map_filter_def)
    moreover have "nd_id (last xs) = nd_id n \<longleftrightarrow> last xs = n" if "xs \<noteq> []"
    proof
      assume "nd_id (last xs) = nd_id n"
      moreover have "node_by_id g (nd_id (last xs)) = Some (last xs)" using Cons.prems that by simp
      ultimately show "last xs = n" using n(1) node_by_id_Some [OF n(1)] by simp
    qed simp
    then have "(if nd_role n \<notin> set MISSION_NODE_ROLES \<or> (remdups_adj xs \<noteq> [] \<and> nd_id (last (remdups_adj xs)) = nd_id n)
        then remdups_adj xs else remdups_adj xs @ [n]) = remdups_adj (xs @ [n])" using n(2) by (auto simp: remdups_adj_snoc)
    moreover have "\<forall>m\<in>set (xs @ [n]). node_by_id g (nd_id m) = Some m" using Cons.prems n(1) node_by_id_Some [OF n(1)] by auto
    ultimately show ?thesis using Cons.IH [of "xs @ [n]"] n(1) by simp
  qed
qed

lemma waypoint_nodes_eq: "waypoint_nodes g nodes [] = remdups_adj (mission_stops g nodes)"
  using waypoint_nodes_from [of "[]" g nodes] by simp

lemma compile_draft_eligible:
  assumes "compile_draft r g z a = Inr d" "dr_eligible d"
  obtains points where "annotation_points a = Inr points" "same_pins r g"
    "dr_waypoints d = map make_waypoint (remdups_adj (mission_stops g (ro_nodes (rc_route r))))"
    "dr_waypoints d \<noteq> []" "length (dr_waypoints d) \<le> MAX_MISSION_WAYPOINTS"
    "list_all (resolved points) (remdups_adj (mission_stops g (ro_nodes (rc_route r))))"
  using assms by (auto simp: compile_draft_def Let_def sbind_Inr_iff waypoint_nodes_eq rejected_def draft_base_def split: if_splits)

lemma current_annotations_Inr:
  "current_annotations w g = Inr a \<longleftrightarrow> wo_annotations w (gr_map g) = Inr a \<and> annotations_match a (gr_map g) (gr_map_revision g) (gr_annotation g)"
  by (auto simp: current_annotations_def sbind_Inr_iff split: sum.splits)

lemma export_mission_Created:
  assumes "export_mission w i v p = (Inr (Created sub l), p')"
  obtains r g z a d mission where "\<not> pl_rehearsing p" "\<not> wo_blocked w" "stale_reason w (pl_session p) = None"
    "chosen_route w (pl_session p) i v = Inr r" "known_mission w (pl_session p) v = None"
    "se_graph (pl_session p) = Some g" "se_order (pl_session p) = Some z" "current_annotations w g = Inr a"
    "compile_draft r g z a = Inr d" "dr_eligible d" "sub = make_submission r z d" "wo_create w = Inr mission" "l = link_of r mission"
    "in_step p'" "se_links (pl_session p') = last_links (se_links (pl_session p) @ [l])"
proof -
  from assms obtain r where r: "\<not> pl_rehearsing p" "\<not> wo_blocked w" "stale_reason w (pl_session p) = None"
    "chosen_route w (pl_session p) i v = Inr r" "known_mission w (pl_session p) v = None"
    "create_mission w i v r p = (Inr (Created sub l), p')"
    by (auto simp: export_mission_def obind_Inr not_rehearsing_def fresh_def split: option.splits)
  from r(6) obtain z d mission where c: "se_order (pl_session p) = Some z" "mission_draft w (pl_session p) i v = Inr d" "dr_eligible d"
    "wo_create w = Inr mission" "sub = make_submission r z d" "l = link_of r mission"
    "in_step p'" "se_links (pl_session p') = last_links (se_links (pl_session p) @ [l])"
    by (auto simp: create_mission_def Let_def obind_Inr dest!: save_in_step split: option.splits)
  from c(2) r(4) c(1) obtain g a where g: "se_graph (pl_session p) = Some g" "current_annotations w g = Inr a" "compile_draft r g z a = Inr d"
    by (auto simp: mission_draft_def sbind_Inr_iff split: option.splits)
  from r c g show ?thesis by (intro that)
qed

lemma selected_context: "chosen_route w s i v = Inr r \<Longrightarrow> wo_context w = ''SAVED_OCCUPANCY''"
  by (auto simp: chosen_route_def selected_route_def saved_context_def sbind_Inr_iff)

end
