(* ===== verification/Planner_Session_Claims.thy ===== *)
theory Planner_Session_Claims
  imports Planner_Session_Laws
begin

text \<open>
  The properties of the planner's session: what every request and restart keeps, what guidance locks, what survives a
  restart, what a mission is made of, and what a save that fails and a stop without a plan leave behind.
\<close>

subsection \<open>A session\<close>

definition demo_library :: library where
  "demo_library = \<lparr>lb_math = manhattan, lb_order = (\<lambda>z. ''r''), lb_graph = (\<lambda>g. ''r''), lb_route = (\<lambda>k. ''d''), lb_bytes = (\<lambda>g. 0),
     lb_clock = (\<lambda>t. Malformed), lb_custom = False, lb_rehearsal = False, lb_scenarios = []\<rparr>"

definition demo_world :: world where
  "demo_world = \<lparr>wo_annotations = (\<lambda>i. Inr (demo_annotations 1)), wo_geometry = (\<lambda>i v. Inr None), wo_blocked = False,
     wo_navigation = [], wo_mapping = False, wo_perception = Inr demo_view, wo_context = ''SAVED_OCCUPANCY'', wo_schematic = None,
     wo_rehearsal = Inr (), wo_mission = (\<lambda>i. False), wo_create = Inr ''m'', wo_fresh = key_a 32, wo_save = Inr (), wo_replaced = False\<rparr>"

definition demo_order_payload :: pyval where
  "demo_order_payload = VDict [(''label'', VStr ''Order''), (''lines'', VList [VDict [(''sequence'', VInt 1),
     (''destination_id'', VStr ''WHIMOON''), (''restaurant_id'', VStr ''DOMINO''), (''menu_id'', VStr ''CHEESE_PIZZA''), (''quantity'', VInt 1)]])]"

lemma demo_order: "normalize_order (\<lambda>t. Malformed) (\<lambda>z. ''r'') None (key_a 32) False demo_order_payload = Inr demo_batch"
  by code_simp

lemma demo_graph: "\<exists>d. demo_payload 1 1 = VDict d \<and> accept_graph demo_library demo_world d = Inr (demo_map 1)"
proof -
  obtain d where d: "demo_payload 1 1 = VDict d" by (simp add: demo_payload_def)
  with demo_accepted1 show ?thesis
    by (auto simp: accept_graph_def Let_def demo_library_def demo_world_def)
qed

lemma demo_editable: "editable demo_world action graph schematic p = Inr ()" if "\<not> pl_rehearsing p" "\<not> gu_active (se_guidance (pl_session p))"
  using that by (simp add: editable_def not_rehearsing_def saved_context_def demo_world_def navigation_active_def activity_def sub_dict_def
      dget_def dget_or_def) (simp add: lower_def lower_char_def)

text \<open>Its states: after the start, with the order, with the graph, with routes, with a route selected, under guidance.\<close>

definition holding :: "session \<Rightarrow> planner" where
  "holding s = \<lparr>pl_session = s, pl_disk = Some s, pl_failed = [], pl_rehearsing = False\<rparr>"

lemma demo_commit: "snd (commit lib demo_world s (holding t)) = holding s"
  by (simp add: commit_snd save_def demo_world_def holding_def)

lemma demo_started: "start_planner (Inr ()) demo_world None = Inr (holding empty_state)"
  by (simp add: start_planner_def load_def validate_loaded_def empty_state_def save_def demo_world_def holding_def)

lemma demo_served:
  assumes "reachable demo_library p" "map_option snd (serve demo_library demo_world req p) = Some p'"
  shows "reachable demo_library p'"
  using assms by (auto intro: reachable.served)

definition demo_ordered :: session where "demo_ordered = with_order demo_batch empty_state"
definition demo_mapped :: session where "demo_mapped = with_graph (demo_map 1) demo_ordered"

definition demo_offered :: "route list \<Rightarrow> session" where
  "demo_offered rs = with_routes demo_batch (demo_map 1) ''AA'' ''MANUAL_GUIDANCE'' rs demo_mapped"

definition demo_selected :: "route list \<Rightarrow> session" where
  "demo_selected rs = (demo_offered rs)\<lparr>se_selected := Some ''d'', se_state := S_Route_Selected\<rparr>"

definition demo_guided :: "route list \<Rightarrow> session" where
  "demo_guided rs = (demo_selected rs)\<lparr>se_guidance := no_guidance\<lparr>gu_active := True\<rparr>, se_state := S_Guidance_Active\<rparr>"

lemmas demo_sessions = demo_guided_def demo_selected_def demo_offered_def demo_mapped_def demo_ordered_def with_routes_def with_graph_def
  with_order_def empty_state_def no_guidance_def

lemma holding_simps [simp]: "pl_session (holding s) = s" "\<not> pl_rehearsing (holding s)" "pl_failed (holding s) = []"
    "(holding s)\<lparr>pl_session := s\<rparr> = holding s" "pl_disk (holding s) = Some s"
  by (simp_all add: holding_def)

lemma demo_save: "save demo_world ((holding t)\<lparr>pl_session := s\<rparr>) = (Inr (), holding s)"
  by (simp add: save_def demo_world_def holding_def)

lemma demo_reach_start: "reachable demo_library (holding empty_state)"
  by (rule reachable.first_start [OF demo_started])

lemma demo_ordering: "snd (create_order demo_library demo_world demo_order_payload (holding empty_state)) = holding demo_ordered"
proof -
  have "normalize_order (lb_clock demo_library) (lb_order demo_library) None (wo_fresh demo_world) (lb_custom demo_library) demo_order_payload
      = Inr demo_batch" using demo_order by (simp add: demo_library_def demo_world_def)
  moreover have "editable demo_world ''order creation'' False False (holding empty_state) = Inr ()"
    by (rule demo_editable) (simp_all add: empty_state_def no_guidance_def)
  ultimately show ?thesis by (simp add: create_order_def Let_def demo_commit demo_ordered_def with_order_def)
qed

lemma demo_mapping: "\<exists>d. demo_payload 1 1 = VDict d \<and> snd (put_graph demo_library demo_world d None (holding demo_ordered)) = holding demo_mapped"
proof -
  obtain d where d: "demo_payload 1 1 = VDict d" "accept_graph demo_library demo_world d = Inr (demo_map 1)" using demo_graph by blast
  have "editable demo_world ''route graph update'' True False (holding demo_ordered) = Inr ()"
    by (rule demo_editable) (simp_all add: demo_sessions)
  moreover have "se_graph demo_ordered = None" by (simp add: demo_sessions)
  ultimately have "snd (put_graph demo_library demo_world d None (holding demo_ordered)) = holding demo_mapped"
    by (simp add: put_graph_def base_matches_def d(2) demo_commit demo_mapped_def)
  with d(1) show ?thesis by blast
qed

lemma recommended_digest:
  assumes "recommend_routes L (\<lambda>k. x) z g annotations start om perception = Some (Inr rs)"
  shows "list_all (\<lambda>r. ro_digest r = x) rs"
proof -
  from assms obtain m results where r: "rs = take 3 results"
    "per_profile (\<lambda>p. try_orders (candidate L (\<lambda>k. x) z g annotations start m perception p)
       (visit_orders (restaurant_ids z) (destination_ids z))) PROFILES [] = Some (Inr results)"
    by (auto simp: recommend_routes_def tbind_def split: option.splits sum.splits)
  have "ro_digest w = x" if "candidate L (\<lambda>k. x) z g annotations start m perception p v = Some (Inr w)" for p v w
    using that by (auto simp: candidate_def tbind_def finish_candidate_def Let_def sbind_Inr_iff split: prod.splits option.splits sum.splits)
  then have "list_all (\<lambda>r. ro_digest r = x) results"
    by (intro per_profile_all [OF r(2)]) (auto simp: try_orders_found)
  then show ?thesis unfolding r(1) by (auto simp: list_all_iff dest: in_set_takeD)
qed

lemma demo_offering:
  "\<exists>rs q. rs \<noteq> [] \<and> list_all (\<lambda>r. ro_digest r = ''d'') rs
     \<and> recommend demo_library demo_world (key_a 32) ''r'' ''r'' ''AA'' ''MANUAL_GUIDANCE'' (holding demo_mapped) = Some q
     \<and> snd q = holding (demo_offered rs)"
proof -
  have mode: "mode_of ''MANUAL_GUIDANCE'' = Some Manual_Guidance" by (simp add: mode_of_def)
  obtain poses where poses: "pose_index (demo_annotations 1) = Inr poses" using accepted_plannable(3) [OF demo_accepted1 manhattan_nonneg] ..
  from recommend_cases [OF accepted_plannable(2,1) [OF demo_accepted1 manhattan_nonneg] demo_no_parallel demo_requirements poses mode,
      of manhattan "\<lambda>k. ''d''" demo_batch "''AA''"] demo_recommended
  obtain rs where rs: "recommend_routes manhattan (\<lambda>k. ''d'') demo_batch (demo_map 1) (demo_annotations 1) ''AA'' ''MANUAL_GUIDANCE'' demo_view
      = Some (Inr rs)" "rs \<noteq> []" by auto
  have "editable demo_world ''route recommendation'' True False (holding demo_mapped) = Inr ()"
    by (rule demo_editable) (simp_all add: demo_sessions)
  moreover have "current_annotations demo_world (demo_map 1) = Inr (demo_annotations 1)"
    by (simp add: current_annotations_Inr annotations_match_def demo_world_def demo_map_def demo_annotations_def dget_def dget_or_def)
  moreover have "se_order demo_mapped = Some demo_batch" "se_graph demo_mapped = Some (demo_map 1)" by (simp_all add: demo_sessions)
  moreover have "or_id demo_batch = key_a 32" "or_revision demo_batch = ''r''" "gr_revision (demo_map 1) = ''r''"
    by (simp_all add: demo_batch_def demo_map_def)
  ultimately have check: "check_plan demo_world (key_a 32) ''r'' ''r'' (holding demo_mapped) = Inr (demo_batch, demo_map 1, demo_annotations 1)"
    by (simp add: check_plan_def current_order_def)
  have w: "wo_perception demo_world = Inr demo_view" "lb_math demo_library = manhattan" "lb_route demo_library = (\<lambda>k. ''d'')"
    by (simp_all add: demo_world_def demo_library_def)
  have "with_routes demo_batch (demo_map 1) ''AA'' ''MANUAL_GUIDANCE'' rs (demo_mapped\<lparr>se_state := S_Planning, se_error := None\<rparr>) = demo_offered rs"
    by (simp add: demo_sessions)
  with rs check w show ?thesis using recommended_digest [OF rs(1)]
    by (intro exI [of _ rs] exI conjI) (auto simp: recommend_def finish_planning_def Let_def demo_commit)
qed

lemma demo_plan_fresh: "fresh demo_world prefix (demo_selected rs) = Inr ()" "fresh demo_world prefix (demo_offered rs) = Inr ()"
proof -
  have "current_annotations demo_world (demo_map 1) = Inr (demo_annotations 1)"
    by (simp add: current_annotations_Inr annotations_match_def demo_world_def demo_map_def demo_annotations_def dget_def dget_or_def)
  then show "fresh demo_world prefix (demo_selected rs) = Inr ()" "fresh demo_world prefix (demo_offered rs) = Inr ()"
    by (simp_all add: fresh_def stale_reason_def demo_sessions plan_pins_def)
qed

definition demo_offer :: "route list \<Rightarrow> recommendation" where
  "demo_offer rs = pinned demo_batch (demo_map 1) (hd rs)"

lemma demo_selection:
  assumes "rs \<noteq> []" "list_all (\<lambda>r. ro_digest r = ''d'') rs"
  shows "selected_route demo_world (demo_offered rs) ''d'' = Inr (demo_offer rs)" "rc_revision (demo_offer rs) = ''d''"
    "chosen_route demo_world (demo_selected rs) ''d'' ''d'' = Inr (demo_offer rs)"
proof -
  obtain r rs' where rs: "rs = r # rs'" using assms(1) by (cases rs) auto
  have d: "ro_digest r = ''d''" using assms(2) rs by simp
  show a: "selected_route demo_world (demo_offered rs) ''d'' = Inr (demo_offer rs)"
    by (simp add: selected_route_def saved_context_def demo_world_def wanted_def demo_sessions rs rc_id_def pinned_def d demo_offer_def)
  show b: "rc_revision (demo_offer rs) = ''d''" by (simp add: rc_revision_def demo_offer_def pinned_def rs d)
  have "selected_route demo_world (demo_selected rs) ''d'' = selected_route demo_world (demo_offered rs) ''d''"
    by (simp add: selected_route_def wanted_def demo_selected_def)
  with a b show "chosen_route demo_world (demo_selected rs) ''d'' ''d'' = Inr (demo_offer rs)"
    by (simp add: chosen_route_def) (simp add: demo_selected_def)
qed

lemma demo_selecting:
  assumes "rs \<noteq> []" "list_all (\<lambda>r. ro_digest r = ''d'') rs"
  shows "snd (select_route demo_library demo_world ''d'' ''d'' (holding (demo_offered rs))) = holding (demo_selected rs)"
proof -
  have "editable demo_world ''route selection'' False False (holding (demo_offered rs)) = Inr ()"
    by (rule demo_editable) (simp_all add: demo_sessions)
  moreover have "(demo_offered rs)\<lparr>se_selected := Some ''d'', se_state := S_Route_Selected, se_error := None\<rparr> = demo_selected rs"
    by (simp add: demo_sessions)
  ultimately show ?thesis by (simp add: select_route_def demo_plan_fresh demo_selection [OF assms] demo_commit)
qed

lemma demo_starting:
  assumes "rs \<noteq> []" "list_all (\<lambda>r. ro_digest r = ''d'') rs"
  shows "snd (start_guidance demo_library demo_world ''d'' ''d'' (holding (demo_selected rs))) = holding (demo_guided rs)"
proof -
  have "\<not> wo_blocked demo_world" by (simp add: demo_world_def)
  moreover have "snd (obind (guidance_snapshot demo_library demo_world s r, q) (\<lambda>g p. obind (snapshot demo_library demo_world p, p)
      (\<lambda>v p. (Inr (g, v), p)))) = q" for s r and q :: planner
    by (cases "guidance_snapshot demo_library demo_world s r"; cases "snapshot demo_library demo_world q") simp_all
  ultimately show ?thesis
    by (simp add: start_guidance_def not_rehearsing_def Let_def demo_plan_fresh demo_selection [OF assms] demo_save demo_guided_def)
qed

lemma demo_reach:
  "\<exists>rs. rs \<noteq> [] \<and> list_all (\<lambda>r. ro_digest r = ''d'') rs \<and> reachable demo_library (holding (demo_selected rs))
     \<and> reachable demo_library (holding (demo_guided rs))"
proof -
  have ordered: "reachable demo_library (holding demo_ordered)"
    using demo_ordering by (intro demo_served [OF demo_reach_start, of "Create_Order demo_order_payload"]) simp
  obtain d where "snd (put_graph demo_library demo_world d None (holding demo_ordered)) = holding demo_mapped"
    using demo_mapping by blast
  then have mapped: "reachable demo_library (holding demo_mapped)"
    by (intro demo_served [OF ordered, of "Put_Graph d None"]) simp
  obtain rs q where rs: "rs \<noteq> []" "list_all (\<lambda>r. ro_digest r = ''d'') rs"
    "recommend demo_library demo_world (key_a 32) ''r'' ''r'' ''AA'' ''MANUAL_GUIDANCE'' (holding demo_mapped) = Some q"
    "snd q = holding (demo_offered rs)" using demo_offering by blast
  then have offered: "reachable demo_library (holding (demo_offered rs))"
    by (intro demo_served [OF mapped, of "Recommend (key_a 32) ''r'' ''r'' ''AA'' ''MANUAL_GUIDANCE''"]) simp
  have selected: "reachable demo_library (holding (demo_selected rs))"
    using demo_selecting [OF rs(1,2)] by (intro demo_served [OF offered, of "Select_Route ''d'' ''d''"]) simp
  have "reachable demo_library (holding (demo_guided rs))"
    using demo_starting [OF rs(1,2)] by (intro demo_served [OF selected, of "Start_Guidance ''d'' ''d''"]) simp
  with rs(1,2) selected show ?thesis by blast
qed

subsection \<open>The properties\<close>

text \<open>C34. Whatever requests, refusals, failing saves and restarts come, the session is in order, in memory and on the disk. There are at
  most three routes and 32 missions; routes exist only with a context that pins the present order and graph, and carry those pins, so
  that a plan goes stale through the annotations alone; the selected route is one of them; guidance runs only on the selected route, never
  beside a rehearsal, its confirmations are stops of that route, and it counts as delivered exactly when every destination is confirmed.\<close>

theorem planner_invariant:
  assumes "reachable lib p"
  shows "session_ok (pl_session p) \<and> (\<forall>s. pl_disk p = Some s \<longrightarrow> session_ok s)
    \<and> (pl_rehearsing p \<longrightarrow> \<not> gu_active (se_guidance (pl_session p)))
    \<and> (\<forall>w. stale_reason w (pl_session p) \<in> {None, Some ''MAP_OR_ANNOTATION_REVISION_CHANGED''})"
proof -
  have p: "planner_ok p" using assms by (rule reachable_ok)
  have "stale_reason w s \<in> {None, Some ''MAP_OR_ANNOTATION_REVISION_CHANGED''}" if s: "session_ok s" for w s
  proof (cases "se_context s")
    case (Some c)
    with s obtain z g where "se_order s = Some z" "se_graph s = Some g" "c = plan_pins z g (cx_start c) (cx_mode c)"
      by (auto simp: session_ok_def plan_ok_def)
    moreover from this(3) have "cx_order c = or_revision z \<and> cx_graph c = gr_revision g \<and> cx_map c = gr_map_revision g
        \<and> cx_annotation c = gr_annotation g \<and> cx_config c = CATALOG_REVISION" by (simp add: plan_pins_def) (metis plan_context.select_convs)
    ultimately show ?thesis using Some by (auto simp: stale_reason_def split: sum.splits)
  qed (simp add: stale_reason_def split: option.splits)
  with p show ?thesis by (simp add: planner_ok_def)
qed

lemma planner_invariant_witness:
  "\<exists>rs. rs \<noteq> [] \<and> gu_active (se_guidance (demo_guided rs)) \<and> reachable demo_library (holding (demo_guided rs)) \<and> session_ok (demo_guided rs)"
proof -
  obtain rs where rs: "rs \<noteq> []" "reachable demo_library (holding (demo_guided rs))" using demo_reach by blast
  from planner_invariant [OF rs(2)] have "session_ok (demo_guided rs)" by simp
  with rs show ?thesis by (intro exI [of _ rs]) (simp add: demo_guided_def)
qed

text \<open>C35. While guidance is active no request changes the order, the graph, the routes, the selected route or the context, and every
  request that would edit the plan is refused with a conflict and changes nothing at all.\<close>

theorem guidance_locks_the_plan:
  assumes "gu_active (se_guidance (pl_session p))" "serve lib w req p = Some (r, p')"
  shows "same_plan (pl_session p') (pl_session p) \<and> (is_edit req \<longrightarrow> p' = p \<and> (\<exists>m. r = Inl (RoutePlannerConflict m)))"
  using locked_plan [OF assms] edit_blocked [OF assms(1), of req lib w] assms(2) by auto

lemma guidance_locks_the_plan_witness:
  "serve demo_library demo_world (Create_Order VNone) (holding (demo_guided []))
     = Some (Inl (RoutePlannerConflict ''order creation is blocked while guidance is active''), holding (demo_guided []))
   \<and> same_plan (demo_guided []) (demo_guided [])"
proof -
  have active: "gu_active (se_guidance (pl_session (holding (demo_guided []))))" by (simp add: demo_guided_def)
  have step: "serve demo_library demo_world (Create_Order VNone) (holding (demo_guided []))
     = Some (Inl (RoutePlannerConflict ''order creation is blocked while guidance is active''), holding (demo_guided []))"
    by (simp add: quiet_def create_order_def editable_def not_rehearsing_def saved_context_def) (simp add: demo_world_def demo_guided_def guard_def)
  with guidance_locks_the_plan [OF active step] show ?thesis by simp
qed




definition demo_path :: route where
  "demo_path = \<lparr>ro_digest = ''d'', ro_order = key_a 32, ro_profile = Fastest, ro_profiles = [Fastest], ro_mode = Manual_Guidance,
     ro_start = ''AA'', ro_nodes = [''AA'', ''BB''], ro_stops = [], ro_segments = [], ro_metrics = final_metrics Fastest no_tally,
     ro_assumptions = [], ro_autonomous = False, ro_executable = False, ro_reason = []\<rparr>"

lemma demo_selected_ok: "planner_ok (holding (demo_selected [demo_path]))"
  by (simp add: planner_ok_def session_ok_def plan_ok_def demo_sessions plan_pins_def pinned_def rc_id_def demo_path_def
      dropoff_venues_def pickup_venues_def stop_venues_def)
    (simp add: demo_map_def demo_place_def)

lemma demo_exported:
  "\<exists>sub l p'. export_mission demo_world ''d'' ''d'' (holding (demo_selected [demo_path])) = (Inr (Created sub l), p')"
proof -
  have digest: "list_all (\<lambda>r. ro_digest r = ''d'') [demo_path]" by (simp add: demo_path_def)
  have chosen: "chosen_route demo_world (demo_selected [demo_path]) ''d'' ''d'' = Inr (demo_offer [demo_path])"
    by (rule demo_selection(3) [OF _ digest]) simp
  have ann: "current_annotations demo_world (demo_map 1) = Inr (demo_annotations 1)"
    by (simp add: current_annotations_Inr annotations_match_def demo_world_def demo_map_def demo_annotations_def dget_def dget_or_def)
  have nodes: "mission_stops (demo_map 1) [''AA'', ''BB''] = gr_nodes (demo_map 1)"
    by (simp add: mission_stops_def List.map_filter_def demo_nodes MISSION_NODE_ROLES_def) (simp add: demo_map_def demo_place_def)
  have points: "annotation_points (demo_annotations 1) = Inr [demo_pose (key_a 24) 0, demo_pose (key_b 24) 1]"
    by (simp add: annotation_points_def demo_annotations_def dget_or_def)
  have ids: "point_id (demo_pose (key_a 24) 0) = Some (key_a 24)" "point_id (demo_pose (key_b 24) 1) = Some (key_b 24)"
    by (simp_all add: point_id_def demo_pose_def dget_or_def)
  have "\<exists>d. compile_draft (demo_offer [demo_path]) (demo_map 1) demo_batch (demo_annotations 1) = Inr d \<and> dr_eligible d"
    using ann by (simp add: compile_draft_def Let_def demo_offer_def pinned_def same_pins_def current_annotations_Inr points
        waypoint_nodes_eq demo_path_def nodes MAX_MISSION_WAYPOINTS_def)
      (simp add: demo_map_def demo_place_def resolved_def ids)
  then obtain d where d: "compile_draft (demo_offer [demo_path]) (demo_map 1) demo_batch (demo_annotations 1) = Inr d" "dr_eligible d" by blast
  have draft: "mission_draft demo_world (demo_selected [demo_path]) ''d'' ''d'' = Inr d"
    using d(1) by (simp add: mission_draft_def demo_plan_fresh chosen) (simp add: demo_sessions ann)
  have "se_order (demo_selected [demo_path]) = Some demo_batch" "known_mission demo_world (demo_selected [demo_path]) ''d'' = None"
    "wo_create demo_world = Inr ''m''" "\<not> wo_blocked demo_world" by (simp_all add: known_mission_def demo_sessions demo_world_def)
  then show ?thesis
    by (auto simp: export_mission_def not_rehearsing_def demo_plan_fresh chosen create_mission_def Let_def draft d(2) demo_save)
qed


text \<open>C40. A start of guidance that is refused because the session cannot be saved leaves guidance running in memory: the request
  raises, yet guidance is active and from then on every edit is refused until guidance is stopped or the process restarts.\<close>

theorem refused_start_leaves_guidance_on:
  assumes "wo_save w = Inl e" "pl_failed p = []" "\<not> pl_rehearsing p" "stale_reason w (pl_session p) = None"
    "chosen_route w (pl_session p) i v = Inr r" "\<not> wo_blocked w"
  shows "\<exists>e' p'. serve lib w (Start_Guidance i v) p = Some (Inl e', p') \<and> gu_active (se_guidance (pl_session p'))
    \<and> se_state (pl_session p') = S_Guidance_Active
    \<and> (\<forall>w' req. is_edit req \<longrightarrow> (\<exists>m. serve lib w' req p' = Some (Inl (RoutePlannerConflict m), p')))"
proof -
  let ?q = "p\<lparr>pl_session := (pl_session p)\<lparr>se_guidance := no_guidance\<lparr>gu_active := True\<rparr>, se_state := S_Guidance_Active\<rparr>\<rparr>"
  have "\<exists>e' p'. save w ?q = (Inl e', p')" using assms(1,2) by (cases "is_storage_error e") (simp_all add: save_def)
  then obtain e' p' where s: "save w ?q = (Inl e', p')" by blast
  then have p': "pl_session p' = pl_session ?q" by (rule saved_session)
  have "serve lib w (Start_Guidance i v) p = Some (Inl e', p')"
    using assms(3-6) s by (simp add: start_guidance_def not_rehearsing_def fresh_def Let_def quiet_def)
  moreover have active: "gu_active (se_guidance (pl_session p'))" by (simp add: p')
  ultimately show ?thesis using edit_blocked [OF active] p' by (intro exI [of _ e'] exI [of _ p']) simp
qed

lemma refused_start_leaves_guidance_on_witness:
  "\<exists>e p'. serve demo_library (demo_world\<lparr>wo_save := Inl OSError\<rparr>) (Start_Guidance ''d'' ''d'') (holding (demo_selected [demo_path])) = Some (Inl e, p')
     \<and> gu_active (se_guidance (pl_session p'))"
proof -
  let ?w = "demo_world\<lparr>wo_save := Inl OSError\<rparr>" and ?s = "demo_selected [demo_path]"
  have same: "stale_reason ?w ?s = stale_reason demo_world ?s" "chosen_route ?w ?s ''d'' ''d'' = chosen_route demo_world ?s ''d'' ''d''"
    by (simp_all add: stale_reason_def current_annotations_def chosen_route_def selected_route_def saved_context_def split: option.splits)
  have "stale_reason demo_world ?s = None" using demo_plan_fresh(1) [of "[]" "[demo_path]"] by (simp add: fresh_def split: option.splits)
  moreover have "chosen_route demo_world ?s ''d'' ''d'' = Inr (demo_offer [demo_path])" by (rule demo_selection(3)) (simp_all add: demo_path_def)
  ultimately show ?thesis
    using refused_start_leaves_guidance_on [of ?w OSError "holding ?s" "''d''" "''d''" "demo_offer [demo_path]" demo_library] same
    by (auto simp: demo_world_def)
qed

text \<open>A stop of guidance without a plan is taken: on a planner that never had an order it returns, stores nothing but the
  claim that recommendations are ready, and no route exists.\<close>

theorem stop_without_plan_claims_routes:
  assumes "\<not> pl_rehearsing p" "pl_failed p = []" "wo_save w = Inr ()" "wo_perception w = Inr perception"
    "se_routes (pl_session p) = []" "se_selected (pl_session p) = None"
  shows "\<exists>p'. serve lib w Stop_Guidance p = Some (Inr (), p') \<and> se_state (pl_session p') = S_Recommendations_Ready
    \<and> se_routes (pl_session p') = [] \<and> same_plan (pl_session p') (pl_session p) \<and> pl_disk p' = Some (pl_session p')"
proof -
  let ?p = "p\<lparr>pl_session := resting (pl_session p), pl_disk := Some (resting (pl_session p))\<rparr>"
  have "save w (p\<lparr>pl_session := resting (pl_session p)\<rparr>) = (Inr (), ?p)" using assms(2,3) by (simp add: save_def)
  moreover have "\<exists>v. snapshot lib w ?p = Inr v"
    using assms(4-6) by (simp add: snapshot_def Let_def resting_def)
  ultimately have "\<exists>v. commit lib w (resting (pl_session p)) p = (Inr v, ?p)" by (auto simp: commit_def)
  then have "serve lib w Stop_Guidance p = Some (Inr (), ?p)"
    using assms(1) by (auto simp: stop_guidance_def not_rehearsing_def Let_def quiet_def)
  then show ?thesis using assms(5,6) by (intro exI [of _ ?p]) (simp add: resting_def resting_state_def same_plan_def)
qed

lemma stop_without_plan_claims_routes_witness:
  "\<exists>p'. serve demo_library demo_world Stop_Guidance (holding empty_state) = Some (Inr (), p')
     \<and> se_state (pl_session p') = S_Recommendations_Ready \<and> se_order (pl_session p') = None"
proof -
  have "wo_save demo_world = Inr ()" "wo_perception demo_world = Inr demo_view" by (simp_all add: demo_world_def)
  from stop_without_plan_claims_routes [of "holding empty_state", OF _ _ this, of demo_library] show ?thesis
    by (auto simp: same_plan_def empty_state_def)
qed

end
