(* ===== verification/Native_Authority.thy ===== *)
theory Native_Authority
  imports Prelude Py_Text
begin

text \<open>
  The command contract of the native competition executor,
  \<^verbatim>\<open>mission_routes/competition_native/authority.py\<close>, with the messages of \<^verbatim>\<open>contracts.py\<close> it reads:
  \<^verbatim>\<open>CommandBoundary\<close> is the record \<open>boundary\<close>, \<^verbatim>\<open>FinalConsumerConstraintPort\<close> the record \<open>consumer\<close>.
  Sequence numbers, times and velocities arrive unchecked and are values; the identifiers, the modes
  and the scopes are texts and records. Fields of messages compare as Python compares them, but a NaN is
  never equal, not even to the same object.
\<close>

subsection \<open>Numbers\<close>

text \<open>\<^verbatim>\<open>math.isfinite\<close> converts an integer to a float first, which fails for a large one.\<close>

definition finite_number :: "pyval \<Rightarrow> exn + bool" where
  "finite_number v =
     (case v of
        VInt n \<Rightarrow> if is_finite (mk_float (of_int n)) then Inr True else Inl OverflowError
      | VFloat f \<Rightarrow> Inr (is_finite f)
      | _ \<Rightarrow> Inr False)"

fun number :: "pyval \<Rightarrow> rat" where
  "number (VInt n) = of_int n"
| "number (VFloat f) = fin_val f"
| "number _ = 0"

text \<open>A difference: exact between integers, else between floats.\<close>

definition difference :: "pyval \<Rightarrow> pyval \<Rightarrow> rat" where
  "difference a b =
     (if is_plain_int a \<and> is_plain_int b then number a - number b
      else fl (fl (number a) - fl (number b)))"

definition value_min :: "pyval \<Rightarrow> pyval \<Rightarrow> pyval" where
  "value_min a b = (if number b < number a then b else a)"

definition value_max :: "pyval \<Rightarrow> pyval \<Rightarrow> pyval" where
  "value_max a b = (if number a < number b then b else a)"

fun negated :: "pyval \<Rightarrow> pyval" where
  "negated (VInt n) = VInt (- n)"
| "negated (VFloat (Fin q)) = VFloat (Fin (- q))"
| "negated v = v"

subsection \<open>Messages\<close>

record scope =
  sc_owner :: string
  sc_run :: string
  sc_step :: string
  sc_config :: string
  sc_goal :: string
  sc_generation :: int

definition make_scope :: "pyval \<Rightarrow> pyval \<Rightarrow> pyval \<Rightarrow> pyval \<Rightarrow> pyval \<Rightarrow> pyval \<Rightarrow> exn + scope" where
  "make_scope owner run step config goal generation =
     (if is_str owner \<and> 1 \<le> length (str_val owner) \<and> length (str_val owner) \<le> 64
         \<and> list_all (\<lambda>v. is_str v \<and> is_hex_n 32 (str_val v)) [run, step, goal]
         \<and> is_str config \<and> is_hex_n 64 (str_val config) \<and> is_plain_int generation \<and> 1 \<le> int_val generation
      then Inr \<lparr>sc_owner = str_val owner, sc_run = str_val run, sc_step = str_val step, sc_config = str_val config,
                sc_goal = str_val goal, sc_generation = int_val generation\<rparr>
      else Inl ValueError)"

record request =
  rq_scope :: scope
  rq_id :: string
  rq_mode :: string
  rq_reason :: string
  rq_ttl :: pyval
  rq_sequence :: pyval

definition request_eq :: "request \<Rightarrow> request \<Rightarrow> bool" where
  "request_eq a b \<longleftrightarrow> rq_scope a = rq_scope b \<and> rq_id a = rq_id b \<and> rq_mode a = rq_mode b
     \<and> rq_reason a = rq_reason b \<and> py_eq (rq_ttl a) (rq_ttl b) \<and> py_eq (rq_sequence a) (rq_sequence b)"

record ack =
  ak_scope :: scope
  ak_id :: string
  ak_mode :: string
  ak_accepted :: pyval

definition ack_matches :: "ack \<Rightarrow> request \<Rightarrow> bool" where
  "ack_matches a r \<longleftrightarrow> ak_accepted a = VBool True \<and> ak_scope a = rq_scope r \<and> ak_id a = rq_id r \<and> ak_mode a = rq_mode r"

record velocity_command =
  vc_scope :: scope
  vc_sequence :: pyval
  vc_receipt :: pyval
  vc_velocity :: "pyval list"

subsection \<open>The boundary\<close>

record boundary =
  cb_scope :: scope
  cb_owners :: "string list"
  cb_ttl :: rat
  cb_modes :: "(string \<times> string) list"
  cb_requests :: "(string \<times> string \<times> request) list"
  cb_sequences :: "(string \<times> int) list"
  cb_last :: int
  cb_barrier :: int
  cb_released :: "pyval option"  \<comment> \<open>\<^verbatim>\<open>release_time\<close>; \<open>None\<close> is infinity\<close>
  cb_now :: "pyval option"
  cb_retired :: bool

definition named :: "pyval \<Rightarrow> bool" where
  "named v \<longleftrightarrow> is_str v \<and> str_val v \<noteq> []"

definition boundary_init :: "scope \<Rightarrow> pyval list \<Rightarrow> pyval \<Rightarrow> exn + boundary" where
  "boundary_init s owners ttl =
     (if owners \<noteq> [] \<and> \<not> list_all hashable owners then Inl TypeError
      else sbind (guard (owners \<noteq> [] \<and> list_all named owners \<and> distinct owners) ValueError) (\<lambda>_.
           sbind (finite_number ttl) (\<lambda>f.
           sbind (guard (f \<and> 0 < number ttl \<and> number ttl \<le> 1 / 4) ValueError) (\<lambda>_.
             Inr \<lparr>cb_scope = s, cb_owners = map str_val owners, cb_ttl = number ttl, cb_modes = [],
                  cb_requests = [], cb_sequences = [], cb_last = - 1, cb_barrier = - 1,
                  cb_released = None, cb_now = None, cb_retired = False\<rparr>))))"

text \<open>A time that is no finite number or lies before the last one.\<close>

definition clock_ok :: "pyval \<Rightarrow> boundary \<Rightarrow> exn + bool" where
  "clock_ok now b =
     and_exn (finite_number now)
       (Inr (case cb_now b of None \<Rightarrow> True | Some t \<Rightarrow> number t \<le> number now))"

definition apply_constraint :: "string \<Rightarrow> request \<Rightarrow> pyval \<Rightarrow> boundary \<Rightarrow> (boundary, bool) outcome" where
  "apply_constraint owner r now b =
     obind (lift_exn (and_exn (Inr (\<not> cb_retired b \<and> owner \<in> set (cb_owners b) \<and> rq_scope r = cb_scope b
                                    \<and> rq_mode r \<in> {''HOLD'', ''RELEASE''}))
                              (clock_ok now b)) b) (\<lambda>valid b.
     if \<not> valid then (Inr False, b\<lparr>cb_modes := []\<rparr>)
     else let b = b\<lparr>cb_now := Some now\<rparr>
     in case map_of (cb_requests b) (rq_id r) of
          Some (owner', r') \<Rightarrow>
            if owner' = owner \<and> request_eq r' r then (Inr True, b) else (Inr False, b\<lparr>cb_modes := []\<rparr>)
        | None \<Rightarrow>
            if \<not> (is_plain_int (rq_sequence r)
                  \<and> (case map_of (cb_sequences b) owner of None \<Rightarrow> - 1 | Some n \<Rightarrow> n) < int_val (rq_sequence r))
            then (Inr False, b\<lparr>cb_modes := dput owner ''HOLD'' (cb_modes b)\<rparr>)
            else (Inr True,
              b\<lparr>cb_sequences := dput owner (int_val (rq_sequence r)) (cb_sequences b),
                cb_requests := dput (rq_id r) (owner, r) (cb_requests b),
                cb_modes := dput owner (rq_mode r) (cb_modes b), cb_barrier := cb_last b,
                cb_released := (if rq_mode r = ''RELEASE'' then Some now else cb_released b)\<rparr>))"

definition boundary_retire :: "boundary \<Rightarrow> boundary" where
  "boundary_retire b = b\<lparr>cb_retired := True, cb_modes := []\<rparr>"

subsection \<open>Commands\<close>

definition zero_velocity :: "pyval list" where
  "zero_velocity = [VFloat (Fin 0), VFloat (Fin 0), VFloat (Fin 0)]"

definition capped :: "pyval list \<Rightarrow> pyval list \<Rightarrow> pyval list" where
  "capped v caps = map (\<lambda>(x, cap). value_max (negated cap) (value_min x cap)) (zip v caps)"

definition age_ok :: "pyval \<Rightarrow> pyval \<Rightarrow> boundary \<Rightarrow> bool" where
  "age_ok now t b \<longleftrightarrow> 0 \<le> difference now t \<and> difference now t \<le> cb_ttl b"

text \<open>The condition before \<^verbatim>\<open>FRESH_GOAL_AND_COMMAND_REQUIRED\<close>, negated, in the order of its parts;
  \<open>fresh\<close> tells whether the sequence number was above all earlier ones.\<close>

definition command_current :: "velocity_command \<Rightarrow> pyval \<Rightarrow> bool \<Rightarrow> scope option \<Rightarrow> pyval \<Rightarrow> bool \<Rightarrow> boundary \<Rightarrow> exn + bool" where
  "command_current c now fresh goal goal_receipt inputs_fresh b =
     and_exn (Inr (fresh \<and> cb_barrier b < int_val (vc_sequence c) \<and> vc_scope c = cb_scope b))
    (and_exn (finite_number (vc_receipt c))
    (and_exn (Inr (age_ok now (vc_receipt c) b
                   \<and> (case cb_released b of None \<Rightarrow> False | Some t \<Rightarrow> number t \<le> number (vc_receipt c))
                   \<and> inputs_fresh \<and> goal = Some (cb_scope b)))
    (and_exn (finite_number goal_receipt) (Inr (age_ok now goal_receipt b)))))"

definition nonnegative :: "pyval \<Rightarrow> exn + bool" where
  "nonnegative v = and_exn (finite_number v) (Inr (0 \<le> number v))"

definition velocity_verdict :: "velocity_command \<Rightarrow> pyval list option \<Rightarrow> exn + pyval list \<times> string" where
  "velocity_verdict c caps =
     sbind (and_exn (Inr (length (vc_velocity c) = 3)) (all_exn finite_number (vc_velocity c))) (\<lambda>valid.
     if \<not> valid then Inr (zero_velocity, ''INVALID_COMMAND'')
     else case caps of
            None \<Rightarrow> Inr (vc_velocity c, ''TRACKING'')
          | Some cs \<Rightarrow>
              sbind (and_exn (Inr (length cs = 3)) (all_exn nonnegative cs)) (\<lambda>valid.
              if \<not> valid then Inr (zero_velocity, ''INVALID_TERRAIN_CAP'')
              else Inr (capped (vc_velocity c) cs, ''TERRAIN_CAP'')))"

text \<open>Every numbered command is consumed, an inhibited one too.\<close>

definition numbered :: "velocity_command \<Rightarrow> bool" where
  "numbered c \<longleftrightarrow> is_plain_int (vc_sequence c) \<and> 0 \<le> int_val (vc_sequence c)"

definition consume :: "velocity_command \<Rightarrow> boundary \<Rightarrow> boundary" where
  "consume c b = (if numbered c then b\<lparr>cb_last := max (cb_last b) (int_val (vc_sequence c))\<rparr> else b)"

text \<open>The gates after the clock.\<close>

definition gated :: "velocity_command \<Rightarrow> pyval \<Rightarrow> bool \<Rightarrow> scope option \<Rightarrow> pyval \<Rightarrow> bool \<Rightarrow> pyval list option
    \<Rightarrow> boundary \<Rightarrow> exn + pyval list \<times> string" where
  "gated c now fresh goal goal_receipt inputs_fresh caps b =
     (if cb_retired b \<or> list_ex (\<lambda>owner. map_of (cb_modes b) owner \<noteq> Some ''RELEASE'') (cb_owners b)
      then Inr (zero_velocity, ''HOLD'')
      else sbind (command_current c now fresh goal goal_receipt inputs_fresh b) (\<lambda>current.
      if \<not> current then Inr (zero_velocity, ''FRESH_GOAL_AND_COMMAND_REQUIRED'')
      else velocity_verdict c caps))"

definition boundary_evaluate :: "velocity_command \<Rightarrow> pyval \<Rightarrow> scope option \<Rightarrow> pyval \<Rightarrow> pyval \<Rightarrow> pyval \<Rightarrow> pyval
    \<Rightarrow> pyval list option \<Rightarrow> boundary \<Rightarrow> (boundary, pyval list \<times> string) outcome" where
  "boundary_evaluate c now goal goal_receipt inputs_fresh estop collision caps b =
     (if \<not> list_all is_bool [inputs_fresh, estop, collision] then (Inr (zero_velocity, ''INVALID_SAFETY''), b)
      else let fresh = (numbered c \<and> cb_last b < int_val (vc_sequence c)); b = consume c b
      in if estop = VBool True \<or> collision = VBool True
      then (Inr (zero_velocity, if estop = VBool True then ''ESTOP'' else ''COLLISION''), b)
      else obind (lift_exn (clock_ok now b) b) (\<lambda>valid b.
      if \<not> valid then (Inr (zero_velocity, ''RECEIVER_CLOCK_ROLLBACK''), boundary_retire b)
      else let b = b\<lparr>cb_now := Some now\<rparr>
      in lift_exn (gated c now fresh goal goal_receipt (inputs_fresh = VBool True) caps b) b))"

subsection \<open>The final consumer\<close>

record receipt =
  rc_consumer :: string
  rc_request :: request
  rc_installed :: pyval

record consumer =
  fc_id :: string
  fc_current :: "request option"
  fc_receipt :: "receipt option"
  fc_requests :: "(string \<times> request) list"

definition consumer_init :: "pyval \<Rightarrow> bool \<Rightarrow> exn + consumer" where
  "consumer_init name is_callable =
     (if named name \<and> is_callable
      then Inr \<lparr>fc_id = str_val name, fc_current = None, fc_receipt = None, fc_requests = []\<rparr> else Inl ValueError)"

definition consumer_ack :: "request \<Rightarrow> consumer \<Rightarrow> ack option" where
  "consumer_ack r s =
     (if fc_receipt s \<noteq> None \<and> (case fc_current s of None \<Rightarrow> False | Some c \<Rightarrow> request_eq c r)
      then Some \<lparr>ak_scope = rq_scope r, ak_id = rq_id r, ak_mode = rq_mode r, ak_accepted = VBool True\<rparr> else None)"

definition acknowledge :: "receipt \<Rightarrow> consumer \<Rightarrow> (consumer, unit) outcome" where
  "acknowledge rc s =
     (if rc_installed rc = VBool True \<and> rc_consumer rc = fc_id s
         \<and> (case fc_current s of None \<Rightarrow> False | Some c \<Rightarrow> request_eq (rc_request rc) c)
      then (Inr (), s\<lparr>fc_receipt := Some rc\<rparr>) else (Inl ValueError, s))"

definition well_formed :: "request \<Rightarrow> exn + bool" where
  "well_formed r =
     and_exn (Inr (rq_mode r \<in> {''HOLD'', ''RELEASE''} \<and> is_plain_int (rq_sequence r) \<and> 1 \<le> int_val (rq_sequence r)
                   \<and> rq_id r \<noteq> []))
    (and_exn (finite_number (rq_ttl r)) (Inr (0 < number (rq_ttl r) \<and> number (rq_ttl r) \<le> 1 / 4)))"

definition supersedes :: "request \<Rightarrow> request \<Rightarrow> bool" where
  "supersedes old r \<longleftrightarrow> int_val (rq_sequence old) < int_val (rq_sequence r)
     \<and> (let o1 = rq_scope old; n = rq_scope r
        in sc_owner o1 = sc_owner n \<and> sc_run o1 = sc_run n \<and> sc_step o1 = sc_step n \<and> sc_config o1 = sc_config n
           \<and> sc_generation o1 \<le> sc_generation n \<and> (sc_generation n = sc_generation o1 \<longrightarrow> n = o1)
           \<and> (sc_generation o1 < sc_generation n \<longrightarrow> rq_mode r = ''HOLD''))"

text \<open>\<^verbatim>\<open>apply\<close> up to the call of \<open>install\<close>; \<open>None\<close> when a known request is answered at once.\<close>

definition consumer_admit :: "request \<Rightarrow> consumer \<Rightarrow> (consumer, bool) outcome" where
  "consumer_admit r s =
     obind (lift_exn (well_formed r) s) (\<lambda>valid s.
     if \<not> valid then (Inl ValueError, s)
     else case map_of (fc_requests s) (rq_id r) of
            Some r' \<Rightarrow> if request_eq r' r then (Inr False, s) else (Inl ValueError, s)
          | None \<Rightarrow>
              if (case fc_current s of None \<Rightarrow> False | Some c \<Rightarrow> \<not> supersedes c r) then (Inl ValueError, s)
              else if 128 \<le> length (fc_requests s) then (Inl ValueError, s)
              else (Inr True, s\<lparr>fc_requests := dput (rq_id r) r (fc_requests s), fc_current := Some r, fc_receipt := None\<rparr>))"

text \<open>\<^verbatim>\<open>apply\<close>; \<open>meanwhile\<close> is what happens to the object while \<open>install\<close> is awaited, and \<open>answer\<close> its result.\<close>

definition consumer_apply :: "request \<Rightarrow> (consumer \<Rightarrow> consumer) \<Rightarrow> receipt option \<Rightarrow> consumer \<Rightarrow> (consumer, ack option) outcome" where
  "consumer_apply r meanwhile answer s =
     obind (consumer_admit r s) (\<lambda>install s.
     if \<not> install then (Inr (consumer_ack r s), s)
     else let s = meanwhile s
     in case answer of
          None \<Rightarrow> (Inr (consumer_ack r s), s)
        | Some rc \<Rightarrow> obind (acknowledge rc s) (\<lambda>_ s. (Inr (consumer_ack r s), s)))"

end
