(* ===== verification/Native_Authority_Claims.thy ===== *)
theory Native_Authority_Claims
  imports Native_Authority Latch
begin

text \<open>
  What the command boundary promises: a velocity leaves it only under every condition of the contract, each
  sequence number moves the robot at most once, and an owner's hold lasts until that owner's release.
\<close>

subsection \<open>One evaluation\<close>

abbreviation moving :: "string \<Rightarrow> bool" where
  "moving why \<equiv> why \<in> {''TRACKING'', ''TERRAIN_CAP''}"

lemma and_exn_Inr: "and_exn a b = Inr x \<longleftrightarrow> (a = Inr True \<and> b = Inr x) \<or> (a = Inr False \<and> \<not> x)"
  by (auto simp: and_exn_def sbind_Inr_iff split: if_splits)

definition within_caps :: "pyval list \<Rightarrow> pyval list option \<Rightarrow> bool" where
  "within_caps v caps \<longleftrightarrow> (case caps of None \<Rightarrow> True
     | Some cs \<Rightarrow> length cs = 3 \<and> (\<forall>i < 3. \<bar>number (v ! i)\<bar> \<le> number (cs ! i)))"

lemma number_negated: "finite_number v = Inr True \<Longrightarrow> number (negated v) = - number v"
  by (cases v rule: negated.cases) (auto simp: finite_number_def)

lemma capped_number:
  assumes "nonnegative cap = Inr True"
  shows "\<bar>number (value_max (negated cap) (value_min x cap))\<bar> \<le> number cap"
  using assms number_negated [of cap]
  by (auto simp: nonnegative_def and_exn_Inr value_max_def value_min_def)

lemma length_3_nth: "length xs = 3 \<Longrightarrow> length ys = 3 \<Longrightarrow> i < 3 \<Longrightarrow> map f (zip xs ys) ! i = f (xs ! i, ys ! i)"
  by simp

lemma velocity_verdict_cases:
  assumes "velocity_verdict c caps = Inr (v, why)"
  shows "if moving why then length v = 3 \<and> length (vc_velocity c) = 3 \<and> list_all (\<lambda>x. finite_number x = Inr True) (vc_velocity c)
           \<and> within_caps v caps \<and> (caps = None \<longrightarrow> v = vc_velocity c)
         else v = zero_velocity"
proof -
  have bad: "\<not> moving ''INVALID_COMMAND''" "\<not> moving ''INVALID_TERRAIN_CAP''" by simp_all
  obtain ok where ok: "and_exn (Inr (length (vc_velocity c) = 3)) (all_exn finite_number (vc_velocity c)) = Inr ok"
    using assms by (auto simp: velocity_verdict_def sbind_Inr_iff)
  show ?thesis
  proof (cases ok)
    case False
    with ok assms bad show ?thesis by (simp add: velocity_verdict_def)
  next
    case True
    with ok have v: "length (vc_velocity c) = 3" "list_all (\<lambda>x. finite_number x = Inr True) (vc_velocity c)"
      by (auto simp: and_exn_Inr all_exn_True)
    show ?thesis
    proof (cases caps)
      case None
      with assms ok True v show ?thesis by (auto simp: velocity_verdict_def within_caps_def)
    next
      case (Some cs)
      with assms ok True obtain ok' where ok': "and_exn (Inr (length cs = 3)) (all_exn nonnegative cs) = Inr ok'"
        "(if ok' then (capped (vc_velocity c) cs, ''TERRAIN_CAP'') else (zero_velocity, ''INVALID_TERRAIN_CAP'')) = (v, why)"
        by (auto simp: velocity_verdict_def sbind_Inr_iff split: if_splits)
      show ?thesis
      proof (cases ok')
        case False
        with ok' bad show ?thesis by auto
      next
        case True
        with ok'(1) have cs: "length cs = 3" "list_all (\<lambda>x. nonnegative x = Inr True) cs"
          by (auto simp: and_exn_Inr all_exn_True)
        have "\<forall>i < 3. \<bar>number (capped (vc_velocity c) cs ! i)\<bar> \<le> number (cs ! i)"
          using cs v(1) capped_number by (auto simp: capped_def list_all_length)
        with True ok'(2) cs v show ?thesis by (auto simp: within_caps_def Some capped_def)
      qed
    qed
  qed
qed

definition may_move :: "velocity_command \<Rightarrow> pyval \<Rightarrow> scope option \<Rightarrow> pyval \<Rightarrow> boundary \<Rightarrow> bool" where
  "may_move c now goal goal_receipt b \<longleftrightarrow>
     \<not> cb_retired b \<and> (\<forall>owner \<in> set (cb_owners b). map_of (cb_modes b) owner = Some ''RELEASE'')
     \<and> numbered c \<and> cb_last b < int_val (vc_sequence c) \<and> cb_barrier b < int_val (vc_sequence c)
     \<and> vc_scope c = cb_scope b \<and> goal = Some (cb_scope b)
     \<and> age_ok now (vc_receipt c) b \<and> age_ok now goal_receipt b
     \<and> (\<exists>t. cb_released b = Some t \<and> number t \<le> number (vc_receipt c))"

lemma clock_ok_keeps [simp]: "clock_ok now (b\<lparr>cb_last := n\<rparr>) = clock_ok now b" "clock_ok now (b\<lparr>cb_now := t\<rparr>) = clock_ok now (b\<lparr>cb_now := t\<rparr>)"
  by (simp_all add: clock_ok_def)

lemma command_current_True:
  "command_current c now fresh goal goal_receipt inputs_fresh b = Inr True \<Longrightarrow>
   fresh \<and> cb_barrier b < int_val (vc_sequence c) \<and> vc_scope c = cb_scope b \<and> age_ok now (vc_receipt c) b
   \<and> (\<exists>t. cb_released b = Some t \<and> number t \<le> number (vc_receipt c)) \<and> inputs_fresh \<and> goal = Some (cb_scope b)
   \<and> age_ok now goal_receipt b"
  by (auto simp: command_current_def and_exn_Inr split: option.splits)

lemma age_ok_fields [simp]:
  "age_ok now t (b\<lparr>cb_last := n\<rparr>) = age_ok now t b" "age_ok now t (b\<lparr>cb_now := m\<rparr>) = age_ok now t b"
  by (simp_all add: age_ok_def)

lemma not_moving [simp]:
  "\<not> moving ''INVALID_SAFETY''" "\<not> moving ''ESTOP''" "\<not> moving ''COLLISION''" "\<not> moving ''RECEIVER_CLOCK_ROLLBACK''"
  "\<not> moving ''HOLD''" "\<not> moving ''FRESH_GOAL_AND_COMMAND_REQUIRED''"
  by simp_all

lemma consume_fields [simp]:
  "cb_scope (consume c b) = cb_scope b" "cb_owners (consume c b) = cb_owners b" "cb_ttl (consume c b) = cb_ttl b"
  "cb_modes (consume c b) = cb_modes b" "cb_barrier (consume c b) = cb_barrier b" "cb_released (consume c b) = cb_released b"
  "cb_now (consume c b) = cb_now b" "cb_retired (consume c b) = cb_retired b" "clock_ok now (consume c b) = clock_ok now b"
  "age_ok now t (consume c b) = age_ok now t b"
  by (simp_all add: consume_def)

lemma gated_cases:
  assumes "gated c now fresh goal gr inputs_fresh caps b = Inr (v, why)"
  shows "(\<not> moving why \<and> v = zero_velocity)
    \<or> (velocity_verdict c caps = Inr (v, why) \<and> \<not> cb_retired b
       \<and> (\<forall>owner \<in> set (cb_owners b). map_of (cb_modes b) owner = Some ''RELEASE'')
       \<and> command_current c now fresh goal gr inputs_fresh b = Inr True)"
  using assms by (auto simp: gated_def sbind_Inr_iff list_ex_iff split: if_splits)

text \<open>An evaluation answers with no velocity, or passed every gate.\<close>

lemma evaluate_cases:
  assumes "boundary_evaluate c now goal gr inputs_fresh estop collision caps b = (Inr (v, why), b')"
  shows "(\<not> moving why \<and> v = zero_velocity)
    \<or> (velocity_verdict c caps = Inr (v, why) \<and> may_move c now goal gr b \<and> inputs_fresh = VBool True
       \<and> estop = VBool False \<and> collision = VBool False \<and> b' = (consume c b)\<lparr>cb_now := Some now\<rparr>)"
proof (cases "list_all is_bool [inputs_fresh, estop, collision] \<and> estop \<noteq> VBool True \<and> collision \<noteq> VBool True")
  case False
  with assms show ?thesis by (auto simp: boundary_evaluate_def Let_def split: if_splits)
next
  case True
  then have bools: "is_bool inputs_fresh" "estop = VBool False" "collision = VBool False" by (auto simp: is_bool_iff)
  let ?b = "(consume c b)\<lparr>cb_now := Some now\<rparr>" and ?fresh = "numbered c \<and> cb_last b < int_val (vc_sequence c)"
  show ?thesis
  proof (cases "clock_ok now b = Inr True")
    case False
    with assms bools show ?thesis
      by (cases "clock_ok now b") (auto simp: boundary_evaluate_def Let_def)
  next
    case ok: True
    then have "gated c now ?fresh goal gr (inputs_fresh = VBool True) caps ?b = Inr (v, why)" "b' = ?b"
      using assms bools by (auto simp: boundary_evaluate_def Let_def)
    from gated_cases [OF this(1)] this(2) bools show ?thesis
      by (auto simp: may_move_def numbered_def dest: command_current_True)
  qed
qed

lemma evaluate_keeps:
  assumes "boundary_evaluate c now goal gr inputs_fresh estop collision caps b = (r, b')"
  shows "cb_last b \<le> cb_last b'" "cb_modes b' = cb_modes b \<or> cb_modes b' = []" "cb_owners b' = cb_owners b"
    "cb_ttl b' = cb_ttl b" "cb_retired b \<longrightarrow> cb_retired b'" "cb_barrier b' = cb_barrier b"
proof -
  have "b' \<in> {b, consume c b, (consume c b)\<lparr>cb_now := Some now\<rparr>, boundary_retire (consume c b)}"
    using assms by (auto simp: boundary_evaluate_def Let_def obind_def split: if_splits sum.splits)
  then show "cb_last b \<le> cb_last b'" "cb_modes b' = cb_modes b \<or> cb_modes b' = []" "cb_owners b' = cb_owners b"
    "cb_ttl b' = cb_ttl b" "cb_retired b \<longrightarrow> cb_retired b'" "cb_barrier b' = cb_barrier b"
    by (auto simp: boundary_retire_def consume_def)
qed

subsection \<open>Runs\<close>

datatype boundary_call =
    Constrain string request pyval
  | Evaluate velocity_command pyval "scope option" pyval pyval pyval pyval "pyval list option"
  | Retire

text \<open>The state after a call, with the sequence number of the command when it moves the robot.\<close>

fun boundary_step :: "boundary \<Rightarrow> boundary_call \<Rightarrow> boundary \<times> int list" where
  "boundary_step b (Constrain owner r now) = (snd (apply_constraint owner r now b), [])"
| "boundary_step b (Evaluate c now goal gr fresh estop collision caps) =
     (case boundary_evaluate c now goal gr fresh estop collision caps b of
        (Inr (v, why), b') \<Rightarrow> (b', if moving why then [int_val (vc_sequence c)] else [])
      | (Inl e, b') \<Rightarrow> (b', []))"
| "boundary_step b Retire = (boundary_retire b, [])"

abbreviation moved :: "boundary_call list \<Rightarrow> boundary \<Rightarrow> int list" where
  "moved calls b \<equiv> snd (run boundary_step b calls)"

lemma apply_constraint_last: "cb_last (snd (apply_constraint owner r now b)) = cb_last b"
  by (auto simp: apply_constraint_def Let_def obind_def split: if_splits sum.splits option.splits)

lemma evaluate_step:
  assumes "boundary_evaluate c now goal gr fresh estop collision caps b = (res, b1)"
  shows "fst (boundary_step b (Evaluate c now goal gr fresh estop collision caps)) = b1"
    "n \<in> set (snd (boundary_step b (Evaluate c now goal gr fresh estop collision caps))) \<Longrightarrow>
       may_move c now goal gr b \<and> b1 = (consume c b)\<lparr>cb_now := Some now\<rparr> \<and> n = int_val (vc_sequence c)"
    "length (snd (boundary_step b (Evaluate c now goal gr fresh estop collision caps))) \<le> 1"
  using evaluate_cases [of c now goal gr fresh estop collision caps b] assms
  by (auto split: sum.splits if_splits)

lemma step_moved:
  "cb_last b \<le> cb_last (fst (boundary_step b call)) \<and> length (snd (boundary_step b call)) \<le> 1
   \<and> (\<forall>n \<in> set (snd (boundary_step b call)). cb_last b < n \<and> n \<le> cb_last (fst (boundary_step b call)))"
proof (cases call)
  case (Constrain owner r now)
  then show ?thesis using apply_constraint_last [of owner r now b] by simp
next
  case (Evaluate c now goal gr fresh estop collision caps)
  obtain res b1 where e: "boundary_evaluate c now goal gr fresh estop collision caps b = (res, b1)" by fastforce
  from evaluate_step [OF e] evaluate_keeps(1) [OF e] show ?thesis
    unfolding Evaluate by (auto simp: may_move_def consume_def)
next
  case Retire
  then show ?thesis by (simp add: boundary_retire_def)
qed

lemma moved_increase: "(\<forall>n \<in> set (moved calls b). cb_last b < n) \<and> sorted_wrt (<) (moved calls b)"
proof (induction calls arbitrary: b)
  case (Cons call calls)
  let ?m = "snd (boundary_step b call)" and ?b = "fst (boundary_step b call)"
  note s = step_moved [of b call]
  then have "sorted_wrt (<) ?m" by (cases ?m) auto
  with s Cons.IH [of ?b] show ?case
    by (fastforce simp: sorted_wrt_append)
qed simp

subsection \<open>Latches\<close>

definition held_by :: "string \<Rightarrow> boundary \<Rightarrow> bool" where
  "held_by owner b \<longleftrightarrow> owner \<in> set (cb_owners b) \<and> map_of (cb_modes b) owner \<noteq> Some ''RELEASE''"

lemma apply_constraint_held:
  assumes "held_by owner b" "owner' = owner \<longrightarrow> rq_mode r \<noteq> ''RELEASE''"
  shows "held_by owner (snd (apply_constraint owner' r now b))"
  using assms by (auto simp: apply_constraint_def held_by_def Let_def obind_def split: if_splits sum.splits option.splits)

lemma apply_constraint_retired: "cb_retired b \<Longrightarrow> cb_retired (snd (apply_constraint owner r now b))"
  by (auto simp: apply_constraint_def Let_def obind_def and_exn_def split: if_splits sum.splits option.splits)

fun asks_release :: "string \<Rightarrow> boundary_call \<Rightarrow> bool" where
  "asks_release owner (Constrain owner' r now) \<longleftrightarrow> owner' = owner \<and> rq_mode r = ''RELEASE''"
| "asks_release owner _ = False"

text \<open>A boundary where no command may move keeps still.\<close>

lemma evaluate_quiet:
  assumes "\<And>c now goal gr. \<not> may_move c now goal gr b"
  shows "snd (boundary_step b call) = []"
proof (cases call)
  case (Evaluate c now goal gr fresh estop collision caps)
  obtain res b1 where e: "boundary_evaluate c now goal gr fresh estop collision caps b = (res, b1)" by fastforce
  from evaluate_step(2) [OF e] assms show ?thesis unfolding Evaluate by (metis list.set_sel(1))
qed simp_all

lemma held_keeps: "held_by owner b \<Longrightarrow> \<not> asks_release owner call \<Longrightarrow> held_by owner (fst (boundary_step b call))"
proof (cases call)
  case (Evaluate c now goal gr fresh estop collision caps)
  obtain res b1 where e: "boundary_evaluate c now goal gr fresh estop collision caps b = (res, b1)" by fastforce
  assume "held_by owner b"
  with evaluate_step(1) [OF e] evaluate_keeps(2,3) [OF e] show ?thesis unfolding Evaluate by (auto simp: held_by_def)
next
  case (Constrain owner' r now)
  then show "held_by owner b \<Longrightarrow> \<not> asks_release owner call \<Longrightarrow> ?thesis" by (simp add: apply_constraint_held)
qed (simp add: boundary_retire_def held_by_def)

lemma retired_keeps: "cb_retired b \<Longrightarrow> cb_retired (fst (boundary_step b call))"
proof (cases call)
  case (Evaluate c now goal gr fresh estop collision caps)
  obtain res b1 where e: "boundary_evaluate c now goal gr fresh estop collision caps b = (res, b1)" by fastforce
  assume "cb_retired b"
  with evaluate_step(1) [OF e] evaluate_keeps(5) [OF e] show ?thesis unfolding Evaluate by simp
qed (simp_all add: apply_constraint_retired boundary_retire_def)

interpretation owner_hold: latch boundary_step "\<lambda>_. True" "held_by owner" "\<lambda>_. asks_release owner" "\<lambda>_. True"
  for owner
proof unfold_locales
  fix b :: boundary and call
  assume "held_by owner b" "\<not> asks_release owner call"
  then show "held_by owner (fst (boundary_step b call))" by (rule held_keeps)
  have "\<not> may_move c now goal gr b" for c now goal gr using \<open>held_by owner b\<close> by (auto simp: may_move_def held_by_def)
  then show "list_all (\<lambda>_. \<not> True) (snd (boundary_step b call))" using evaluate_quiet by simp
qed simp

interpretation retirement: latch boundary_step "\<lambda>_. True" cb_retired "\<lambda>_ _. False" "\<lambda>_. True"
proof unfold_locales
  fix b :: boundary and call
  assume "cb_retired b"
  then show "cb_retired (fst (boundary_step b call))" by (rule retired_keeps)
  have "\<not> may_move c now goal gr b" for c now goal gr using \<open>cb_retired b\<close> by (simp add: may_move_def)
  then show "list_all (\<lambda>_. \<not> True) (snd (boundary_step b call))" using evaluate_quiet by simp
qed

lemma shut_all: "list_all (\<lambda>call. \<not> opens call) calls \<Longrightarrow> shut boundary_step (\<lambda>_. opens) b calls"
  by (induction calls arbitrary: b) simp_all

text \<open>A retired boundary never moves the robot again.\<close>

lemma retired_still: "cb_retired b \<Longrightarrow> moved calls b = []"
  using retirement.held_run [of b calls] shut_all [of "\<lambda>_. False" calls b] by (simp add: list_all_iff)

lemma hold_holds:
  assumes "apply_constraint owner r now b = (Inr True, b')" "rq_mode r = ''HOLD''" "map_of (cb_requests b) (rq_id r) = None"
  shows "held_by owner b'"
  using assms by (auto simp: apply_constraint_def held_by_def Let_def obind_def and_exn_Inr split: if_splits sum.splits)

subsection \<open>A released boundary\<close>

definition demo_scope :: scope where
  "demo_scope = \<lparr>sc_owner = ''mission'', sc_run = ''0'', sc_step = ''1'', sc_config = ''2'', sc_goal = ''3'', sc_generation = 1\<rparr>"

definition demo_constraint :: "string \<Rightarrow> int \<Rightarrow> request" where
  "demo_constraint mode n = \<lparr>rq_scope = demo_scope, rq_id = mode, rq_mode = mode, rq_reason = ''TRACKING'',
     rq_ttl = VFloat (Fin (1 / 4)), rq_sequence = VInt n\<rparr>"

definition demo_boundary :: boundary where
  "demo_boundary = \<lparr>cb_scope = demo_scope, cb_owners = [''mission''], cb_ttl = 1 / 4, cb_modes = [], cb_requests = [],
     cb_sequences = [], cb_last = - 1, cb_barrier = - 1, cb_released = None, cb_now = None, cb_retired = False\<rparr>"

definition demo_command :: velocity_command where
  "demo_command = \<lparr>vc_scope = demo_scope, vc_sequence = VInt 4, vc_receipt = VInt 10,
     vc_velocity = [VFloat (Fin 1), VFloat (Fin 0), VFloat (Fin (- 1 / 2))]\<rparr>"

definition demo_caps :: "pyval list" where
  "demo_caps = [VFloat (Fin (1 / 2)), VInt 2, VInt 3]"

lemma small_integer [simp]: "(numeral k :: int) \<le> 2 ^ 53 \<Longrightarrow> finite_number (VInt (numeral k)) = Inr True"
proof -
  assume k: "(numeral k :: int) \<le> 2 ^ 53"
  have "0 < float_big" by (rule ccontr) (simp add: not_less)
  moreover have "(0::rat) < numeral k" by simp
  ultimately have "\<not> numeral k \<le> - float_big" by linarith
  with k show ?thesis by (simp add: finite_number_def mk_float_def fl_numeral)
qed

definition demo_released :: boundary where
  "demo_released = demo_boundary\<lparr>cb_now := Some (VInt 9), cb_sequences := [(''mission'', 0)],
     cb_requests := [(''RELEASE'', ''mission'', demo_constraint ''RELEASE'' 0)], cb_modes := [(''mission'', ''RELEASE'')],
     cb_released := Some (VInt 9)\<rparr>"

lemma finite_float [simp]: "finite_number (VFloat f) = Inr (is_finite f)"
  by (simp add: finite_number_def)

lemma demo_verdict:
  "velocity_verdict demo_command (Some demo_caps)
   = Inr ([VFloat (Fin (1 / 2)), VFloat (Fin 0), VFloat (Fin (- 1 / 2))], ''TERRAIN_CAP'')"
proof -
  have "all_exn nonnegative demo_caps = Inr True" by (simp add: demo_caps_def nonnegative_def and_exn_def)
  moreover have "all_exn finite_number (vc_velocity demo_command) = Inr True" by (simp add: demo_command_def)
  moreover have "capped (vc_velocity demo_command) demo_caps = [VFloat (Fin (1 / 2)), VFloat (Fin 0), VFloat (Fin (- 1 / 2))]"
    by (simp add: capped_def demo_command_def demo_caps_def value_max_def value_min_def)
  ultimately show ?thesis by (simp add: velocity_verdict_def and_exn_def demo_command_def demo_caps_def)
qed

lemma demo_moves:
  "boundary_evaluate demo_command (VInt 10) (Some demo_scope) (VInt 10) (VBool True) (VBool False) (VBool False) (Some demo_caps) demo_released
   = (Inr ([VFloat (Fin (1 / 2)), VFloat (Fin 0), VFloat (Fin (- 1 / 2))], ''TERRAIN_CAP''),
      demo_released\<lparr>cb_last := 4, cb_now := Some (VInt 10)\<rparr>)"
proof -
  have c: "vc_sequence demo_command = VInt 4" "vc_scope demo_command = demo_scope" "vc_receipt demo_command = VInt 10"
    by (simp_all add: demo_command_def)
  have r: "cb_last demo_released = - 1" "cb_barrier demo_released = - 1" "cb_scope demo_released = demo_scope"
    "cb_released demo_released = Some (VInt 9)" "cb_now demo_released = Some (VInt 9)" "\<not> cb_retired demo_released"
    "cb_owners demo_released = [''mission'']" "cb_modes demo_released = [(''mission'', ''RELEASE'')]" "cb_ttl demo_released = 1 / 4"
    by (simp_all add: demo_released_def demo_boundary_def)
  show ?thesis
    by (simp add: boundary_evaluate_def clock_ok_def gated_def command_current_def demo_verdict and_exn_def
        c r numbered_def consume_def age_ok_def difference_def Let_def)
qed

subsection \<open>The properties\<close>



text \<open>C26. In every run of constraints, evaluations and retirements the sequence numbers of the commands that
  move the robot increase strictly: none moves it twice, and none after a later one was seen.\<close>

theorem boundary_moves_once: "sorted_wrt (<) (moved calls b)"
  using moved_increase by (rule conjunct2)

text \<open>C27. Once an owner's new hold is accepted, no later run of calls moves the robot, whatever the other owners
  ask, until that owner asks for a release.\<close>

theorem hold_lasts_until_release:
  assumes "apply_constraint owner r now b = (Inr True, b')" and "rq_mode r = ''HOLD''"
    and "map_of (cb_requests b) (rq_id r) = None" and "list_all (\<lambda>call. \<not> asks_release owner call) calls"
  shows "moved calls b' = []"
  using owner_hold.held_run [OF _ hold_holds [OF assms(1-3)] shut_all [OF assms(4)]] by (simp add: list_all_iff)

lemma hold_lasts_until_release_witness:
  "moved [Evaluate demo_command (VInt 10) (Some demo_scope) (VInt 10) (VBool True) (VBool False) (VBool False) None, Retire]
     (snd (apply_constraint ''mission'' (demo_constraint ''HOLD'' 1) (VInt 9) demo_released)) = []"
proof (rule hold_lasts_until_release)
  have "fst (apply_constraint ''mission'' (demo_constraint ''HOLD'' 1) (VInt 9) demo_released) = Inr True"
    by (simp add: apply_constraint_def clock_ok_def and_exn_def demo_boundary_def demo_constraint_def demo_released_def Let_def)
  then show "apply_constraint ''mission'' (demo_constraint ''HOLD'' 1) (VInt 9) demo_released
    = (Inr True, snd (apply_constraint ''mission'' (demo_constraint ''HOLD'' 1) (VInt 9) demo_released))"
    by (metis prod.collapse)
qed (simp_all add: demo_constraint_def demo_released_def demo_boundary_def)

end
