(* ===== verification/Native_State.thy ===== *)
theory Native_State
  imports Prelude
begin

text \<open>
  The decisions of the native competition executor: \<^verbatim>\<open>decide\<close> of
  \<^verbatim>\<open>mission_routes/competition_native/state.py\<close> over the frames of \<^verbatim>\<open>observations.py\<close>. A frame is what
  the normalizer has validated: literals are datatypes, times and ages are finite doubles in seconds, source
  stamps are their integers of nanoseconds. The state is the record \<open>action_state\<close>, an action the record
  \<open>action\<close>, and each phase of \<^verbatim>\<open>decide\<close> is one definition.
\<close>

subsection \<open>Evidence\<close>

datatype goal_state = Goal_Active | Goal_Succeeded | Goal_Canceled | Goal_Failed
datatype obstacle_state = Following | Replanning | Wait_Obstacle | Sensor_Unavailable | Goal_Reached | Obstacle_Failed
datatype light = Red | Green | Dark | Ambiguous
datatype foot_status = Foot_Inside | Foot_Outside | Foot_Unknown
datatype feet_kind = Sim_GT | Kinematic | Visual | Proxy
datatype body_motion = Stopped | Moving | Motion_Unknown
datatype posture = Sit | Stand | Posture_Unknown
datatype action_type = Navigate_Adaptive | Traffic_Stop_And_Go | Traverse_Terrain | Park_Sit_Hold | Finish_Crossing

fun goal_name :: "goal_state \<Rightarrow> string" where
  "goal_name Goal_Active = ''ACTIVE''"
| "goal_name Goal_Succeeded = ''SUCCEEDED''"
| "goal_name Goal_Canceled = ''CANCELED''"
| "goal_name Goal_Failed = ''FAILED''"

record observation =
  ob_goal :: goal_state
  ob_cancel_ack :: bool
  ob_pose :: bool  \<comment> \<open>a pose is there\<close>
  ob_path_clear :: bool
  ob_obstacle :: obstacle_state
  ob_age :: "rat option"
  ob_signal :: "string option"
  ob_crossing :: "string option"
  ob_raw :: light
  ob_stable :: light
  ob_flags :: "string list"
  ob_zone :: "string option"
  ob_left :: foot_status
  ob_right :: foot_status
  ob_feet_kind :: feet_kind
  ob_motion :: body_motion
  ob_body_inside :: bool
  ob_body_crossed :: bool
  ob_posture :: posture
  ob_terrain :: bool

record extras =
  ex_departure :: bool
  ex_posture :: bool
  ex_terrain :: bool
  ex_reference :: string
  ex_estop :: bool
  ex_collision :: bool
  ex_steps :: "string list"
  ex_segments :: "string list"

record received =
  rv_receipt :: rat
  rv_age :: rat
  rv_validity :: "rat option"
  rv_source :: int

record policy =
  po_receiver :: rat
  po_source :: rat
  po_gap :: rat

record frame =
  fr_evidence :: observation
  fr_extras :: extras
  fr_components :: "(string \<times> received) list"
  fr_now :: rat
  fr_policy :: policy

definition bounded_by :: "rat \<Rightarrow> rat option \<Rightarrow> rat" where
  "bounded_by ttl bound = (case bound of None \<Rightarrow> ttl | Some v \<Rightarrow> min ttl v)"

definition age_of :: "frame \<Rightarrow> string \<Rightarrow> received \<Rightarrow> rat" where
  "age_of f name r =
     (case ob_age (fr_evidence f) of
        Some a \<Rightarrow> if name = ''path'' then max (rv_age r) a else rv_age r
      | None \<Rightarrow> rv_age r)"

definition component_fresh :: "frame \<Rightarrow> string \<Rightarrow> bool" where
  "component_fresh f name =
     (case map_of (fr_components f) name of
        None \<Rightarrow> False
      | Some r \<Rightarrow>
          0 \<le> fl (fr_now f - rv_receipt r)
          \<and> fl (fr_now f - rv_receipt r) \<le> bounded_by (po_receiver (fr_policy f)) (rv_validity r)
          \<and> fr_now f \<le> fl (fl (rv_receipt r + bounded_by (po_source (fr_policy f)) (rv_validity r)) - age_of f name r))"

definition fresh :: "frame \<Rightarrow> string list \<Rightarrow> bool" where
  "fresh f names = list_all (component_fresh f) names"

definition component :: "frame \<Rightarrow> string \<Rightarrow> exn + received" where
  "component f name = (case map_of (fr_components f) name of None \<Rightarrow> Inl KeyError | Some r \<Rightarrow> Inr r)"

text \<open>The minimum and the maximum of a generator; \<^verbatim>\<open>min\<close> of nothing raises.\<close>

definition least :: "rat list \<Rightarrow> exn + rat" where
  "least xs = (case xs of [] \<Rightarrow> Inl ValueError | x # ys \<Rightarrow> Inr (fold min ys x))"

definition greatest :: "rat list \<Rightarrow> exn + rat" where
  "greatest xs = (case xs of [] \<Rightarrow> Inl ValueError | x # ys \<Rightarrow> Inr (fold max ys x))"

definition supported_end :: "frame \<Rightarrow> string list \<Rightarrow> exn + rat" where
  "supported_end f names =
     sbind (map_exn (component f) names) (\<lambda>rs. least (map (\<lambda>r. fl (rv_receipt r - rv_age r)) rs))"

definition acquired_after :: "frame \<Rightarrow> rat \<Rightarrow> string list \<Rightarrow> exn + bool" where
  "acquired_after f boundary names =
     and_exn (Inr (fresh f names)) (sbind (supported_end f names) (\<lambda>t. Inr (boundary < t)))"

subsection \<open>State\<close>

datatype phase =
    New | Approach | Wait_Cancel | Hold_Ack | Hold_Signal | Park_Hold | Exit_Prepare | Exit_Pending | Departing
  | Terrain | Finish | Rise_Wait | Succeeded | Failed | Interrupted | Ready_To_Move | Other_Phase string

definition TERMINAL :: "phase list" where
  "TERMINAL = [Succeeded, Failed, Interrupted, Ready_To_Move]"

record action_state =
  st_phase :: phase
  st_reason :: string
  st_started :: rat
  st_dwell :: "rat option"
  st_last_valid :: "rat option"
  st_source_start :: "(string \<times> int) list"
  st_departed :: bool
  st_steps :: "string list"
  st_segments :: "string list"
  st_crossed :: bool

definition new_action :: action_state where
  "new_action = \<lparr>st_phase = New, st_reason = ''EXPLICIT_START_REQUIRED'', st_started = 0, st_dwell = None,
     st_last_valid = None, st_source_start = [], st_departed = False, st_steps = [], st_segments = [], st_crossed = False\<rparr>"

record action =
  ac_type :: action_type
  ac_zone :: "string option"
  ac_signal :: "string option"
  ac_crossing :: "string option"
  ac_dwell :: rat
  ac_sit :: rat
  ac_timeout :: rat

type_synonym decision = "action_state \<times> string list"

definition result :: "phase option \<Rightarrow> string option \<Rightarrow> string list \<Rightarrow> action_state \<Rightarrow> decision" where
  "result p reason effects s =
     (s\<lparr>st_phase := (case p of None \<Rightarrow> st_phase s | Some q \<Rightarrow> q),
        st_reason := (case reason of None \<Rightarrow> st_reason s | Some r \<Rightarrow> r)\<rparr>, effects)"

abbreviation go :: "phase \<Rightarrow> string \<Rightarrow> string list \<Rightarrow> action_state \<Rightarrow> decision" where
  "go p reason effects \<equiv> result (Some p) (Some reason) effects"

abbreviation stay :: "string \<Rightarrow> string list \<Rightarrow> action_state \<Rightarrow> decision" where
  "stay reason effects \<equiv> result None (Some reason) effects"

definition stop :: "string \<Rightarrow> action_state \<Rightarrow> decision" where
  "stop reason s = go Failed reason [''HOLD'', ''CANCEL''] (s\<lparr>st_dwell := None, st_last_valid := None\<rparr>)"

subsection \<open>The phases\<close>

text \<open>The keyword arguments of \<^verbatim>\<open>decide\<close>.\<close>

record circumstances =
  cx_now :: rat
  cx_hold_ack :: bool
  cx_synthetic :: bool
  cx_hold_ack_s :: "rat option"
  cx_exit_ack_s :: "rat option"
  cx_release_ack_s :: "rat option"

definition feet_accepted :: "circumstances \<Rightarrow> observation \<Rightarrow> bool" where
  "feet_accepted x e \<longleftrightarrow> ob_left e = Foot_Inside \<and> ob_right e = Foot_Inside
     \<and> ob_feet_kind e \<in> (if cx_synthetic x then {Sim_GT, Kinematic, Visual} else {Kinematic, Visual})"

definition approach :: "action \<Rightarrow> frame \<Rightarrow> circumstances \<Rightarrow> action_state \<Rightarrow> decision" where
  "approach a f x s =
     (let e = fr_evidence f in
      if \<not> fresh f [''navigation'', ''pose'', ''path''] \<or> \<not> ob_pose e then stop ''NAVIGATION_OBSERVATION_STALE'' s
      else if ob_goal e = Goal_Failed \<or> ob_obstacle e = Obstacle_Failed then stop ''NAVIGATION_PROGRESS_FAILED'' s
      else if ob_goal e = Goal_Canceled
      then (if \<not> ob_cancel_ack e then stop ''CANCEL_ACK_REQUIRED'' s else stop ''NAVIGATION_CANCELED'' s)
      else if ob_obstacle e = Sensor_Unavailable then stop ''NAVIGATION_SENSOR_STALE'' s
      else if ob_goal e = Goal_Succeeded
      then (case ac_type a of
              Navigate_Adaptive \<Rightarrow> go Succeeded ''NAVIGATION_SUCCEEDED'' [''HOLD''] s
            | Traffic_Stop_And_Go \<Rightarrow> go Hold_Ack ''APPROACH_TERMINAL'' [''HOLD''] s
            | Park_Sit_Hold \<Rightarrow> go Hold_Ack ''APPROACH_TERMINAL'' [''HOLD''] s
            | Traverse_Terrain \<Rightarrow> go Terrain ''TERRAIN_VALIDATION_REQUIRED'' [''TERRAIN''] s
            | Finish_Crossing \<Rightarrow> go Finish ''FULL_BODY_CROSSING_REQUIRED'' [''HOLD''] s)
      else if ac_type a = Traffic_Stop_And_Go \<and> fresh f [''feet''] \<and> ob_zone e = ac_zone a \<and> feet_accepted x e
      then go Wait_Cancel ''APPROACH_CANCEL_PENDING'' [''CANCEL''] s
      else if ob_obstacle e = Wait_Obstacle \<or> \<not> ob_path_clear e then stay ''WAIT_OBSTACLE'' [''HOLD''] s
      else if ob_obstacle e = Replanning then stay ''REPLANNING'' [] s
      else stay ''NAVIGATION_ACTIVE'' [''RELEASE_TRACKING''] s)"

definition wait_cancel :: "frame \<Rightarrow> action_state \<Rightarrow> decision" where
  "wait_cancel f s =
     (let e = fr_evidence f in
      if \<not> fresh f [''navigation''] then stop ''CANCEL_RESULT_STALE'' s
      else if ob_goal e = Goal_Failed then stop ''NAVIGATION_PROGRESS_FAILED'' s
      else if ob_goal e = Goal_Succeeded \<or> (ob_goal e = Goal_Canceled \<and> ob_cancel_ack e)
      then go Hold_Ack ''APPROACH_TERMINAL_ACK'' [''HOLD''] s
      else stay ''APPROACH_CANCEL_PENDING'' [] s)"

definition hold_acknowledged :: "action \<Rightarrow> circumstances \<Rightarrow> action_state \<Rightarrow> decision" where
  "hold_acknowledged a x s =
     (if \<not> cx_hold_ack x then stay ''HOLD_ACK_REQUIRED'' [] s
      else if ac_type a = Park_Sit_Hold then go Park_Hold ''POSTURE_EVIDENCE_REQUIRED'' [''SIT''] s
      else go Hold_Signal ''HOLD_SIGNAL'' [] s)"

text \<open>The physical stop a dwell rests on, and the components that show it.\<close>

definition needed :: "phase \<Rightarrow> string list" where
  "needed p = (if p = Hold_Signal then [''feet'', ''motion''] else [''body'', ''posture'', ''motion''])"

definition physical :: "action \<Rightarrow> frame \<Rightarrow> circumstances \<Rightarrow> phase \<Rightarrow> bool" where
  "physical a f x p \<longleftrightarrow>
     (let e = fr_evidence f in
      fresh f (needed p) \<and> cx_hold_ack x \<and> ob_zone e = ac_zone a \<and> ob_motion e = Stopped
      \<and> (if p = Hold_Signal then feet_accepted x e
         else ob_body_inside e \<and> ob_posture e = Sit \<and> ex_posture (fr_extras f) \<and> ex_reference (fr_extras f) \<noteq> []))"

definition duration :: "action \<Rightarrow> phase \<Rightarrow> rat" where
  "duration a p = (if p = Hold_Signal then ac_dwell a else ac_sit a)"

definition not_physical :: "phase \<Rightarrow> string" where
  "not_physical p = (if p = Hold_Signal then ''TWO_FEET_AND_PHYSICAL_STOP_REQUIRED''
     else ''FULL_CONTAINMENT_VERIFIED_SIT_AND_STOP_REQUIRED'')"

text \<open>The dwell starts over when the evidence goes back in time or leaves a gap.\<close>

definition interrupted :: "frame \<Rightarrow> rat \<Rightarrow> action_state \<Rightarrow> bool" where
  "interrupted f sample s =
     (st_dwell s = None
      \<or> (case st_last_valid s of None \<Rightarrow> True
         | Some l \<Rightarrow> sample < l \<or> po_gap (fr_policy f) < fl (sample - l)))"

definition source_elapsed :: "(string \<times> int) list \<Rightarrow> string \<times> int \<Rightarrow> rat" where
  "source_elapsed started nt =
     (case nt of (name, t) \<Rightarrow>
        fl (fl (of_int (t - (case map_of started name of None \<Rightarrow> t | Some u \<Rightarrow> u))) / 1000000000))"

definition exit_eligible :: "action \<Rightarrow> frame \<Rightarrow> bool" where
  "exit_eligible a f \<longleftrightarrow>
     (let e = fr_evidence f in
      fresh f [''signal'', ''pose'', ''path''] \<and> ob_pose e \<and> ob_signal e = ac_signal a \<and> ob_crossing e = ac_crossing a
      \<and> ob_stable e = Green \<and> ob_raw e = Green \<and> ob_flags e = [] \<and> ob_path_clear e
      \<and> ob_obstacle e \<in> {Following, Goal_Reached})"

definition dwell :: "action \<Rightarrow> frame \<Rightarrow> circumstances \<Rightarrow> action_state \<Rightarrow> exn + decision" where
  "dwell a f x s =
     (let p = st_phase s; nothing = s\<lparr>st_dwell := None, st_last_valid := None\<rparr> in
      if \<not> physical a f x p then Inr (stay (not_physical p) [] nothing)
      else sbind (supported_end f (needed p)) (\<lambda>sample.
      if (case cx_hold_ack_s x of None \<Rightarrow> True | Some t \<Rightarrow> sample \<le> t)
      then Inr (stay ''STOP_OBSERVATION_PRECEDES_HOLD_ACK'' [] nothing)
      else sbind (map_exn (component f) (needed p)) (\<lambda>rs.
      let times = zip (needed p) (map rv_source rs); restart = interrupted f sample s in
      sbind (if restart then greatest (map rv_receipt rs) else Inr (the (st_dwell s))) (\<lambda>start.
      let source_start = (if restart then times else st_source_start s) in
      sbind (least (map (source_elapsed source_start) times)) (\<lambda>source_duration.
      let updated = s\<lparr>st_dwell := Some start, st_last_valid := Some sample, st_source_start := source_start\<rparr> in
      Inr (if sample < fl (start + duration a p) \<or> source_duration < duration a p
           then stay ''DWELL_IN_PROGRESS'' [] updated
           else if p = Park_Hold then go Succeeded ''PARK_EVIDENCE_COMPLETE'' [] updated
           else if \<not> exit_eligible a f then stay ''FRESH_ASSOCIATED_GREEN_POSE_PATH_REQUIRED'' [] updated
           else go Exit_Pending ''NEW_EXIT_GENERATION_REQUIRED'' [''EXIT''] updated))))))"

definition signal_lost :: "action \<Rightarrow> frame \<Rightarrow> bool" where
  "signal_lost a f \<longleftrightarrow>
     (let e = fr_evidence f in
      \<not> fresh f [''signal''] \<or> ob_signal e \<noteq> ac_signal a \<or> ob_crossing e \<noteq> ac_crossing a
      \<or> ob_stable e \<noteq> Green \<or> ob_raw e \<noteq> Green \<or> ob_flags e \<noteq> [])"

text \<open>Before the departure is seen: \<^verbatim>\<open>if not state.departed\<close>.\<close>

definition departure :: "action \<Rightarrow> frame \<Rightarrow> circumstances \<Rightarrow> action_state \<Rightarrow> exn + decision" where
  "departure a f x s =
     (let e = fr_evidence f in
      if signal_lost a f then Inr (stop ''SIGNAL_LOST_BEFORE_DEPARTURE'' s)
      else case cx_exit_ack_s x of
        None \<Rightarrow> Inr (stay ''EXIT_ACK_REQUIRED'' [] s)
      | Some exit_ack \<Rightarrow>
          if fresh f [''departure''] \<and> ex_departure (fr_extras f)
          then (if ob_motion e \<noteq> Moving then Inr (stop ''CONTRADICTORY_DEPARTURE_EVIDENCE'' s)
                else case cx_release_ack_s x of
                  None \<Rightarrow> Inr (stop ''DEPARTURE_WITHOUT_RELEASE_ACK'' s)
                | Some release_ack \<Rightarrow>
                    sbind (acquired_after f (max exit_ack release_ack) [''departure'', ''motion'']) (\<lambda>later.
                    Inr (if \<not> later then stop ''DEPARTURE_OBSERVATION_PRECEDES_EXIT_ACK'' s
                         else go Departing ''PHYSICAL_DEPARTURE_OBSERVED'' [] (s\<lparr>st_departed := True\<rparr>))))
          else if ob_goal e = Goal_Succeeded then Inr (stop ''DEPARTURE_EVIDENCE_REQUIRED'' s)
          else Inr (go Departing ''WAIT_PHYSICAL_DEPARTURE'' [''RELEASE''] s))"

definition crossing :: "action \<Rightarrow> frame \<Rightarrow> circumstances \<Rightarrow> action_state \<Rightarrow> exn + decision" where
  "crossing a f x s =
     (let e = fr_evidence f in
      if \<not> fresh f [''navigation'', ''pose'', ''path'', ''motion''] \<or> \<not> ob_pose e then Inr (stop ''EXIT_OBSERVATION_STALE'' s)
      else if ob_goal e \<in> {Goal_Failed, Goal_Canceled} then Inr (stop (''EXIT_GOAL_'' @ goal_name (ob_goal e)) s)
      else if \<not> ob_path_clear e \<or> ob_obstacle e \<in> {Wait_Obstacle, Sensor_Unavailable, Obstacle_Failed}
      then Inr (stop ''EXIT_PATH_BLOCKED'' s)
      else if \<not> st_departed s then departure a f x s
      else Inr (if ob_goal e = Goal_Succeeded then go Succeeded ''EXIT_LEG_COMPLETE'' [''HOLD''] s
                else stay ''CROSSING_IN_PROGRESS'' [] s))"

definition validated :: "frame \<Rightarrow> bool" where
  "validated f \<longleftrightarrow> ex_reference (fr_extras f) \<noteq> []"

definition terrain :: "frame \<Rightarrow> action_state \<Rightarrow> decision" where
  "terrain f s =
     (if fresh f [''terrain''] \<and> ob_terrain (fr_evidence f) \<and> ex_terrain (fr_extras f) \<and> validated f
      then go Succeeded ''TERRAIN_VALIDATED'' [''HOLD''] s
      else stay ''TERRAIN_VALIDATION_REQUIRED'' [] s)"

definition finish :: "action \<Rightarrow> frame \<Rightarrow> action_state \<Rightarrow> decision" where
  "finish a f s =
     (if fresh f [''body''] \<and> ob_zone (fr_evidence f) = ac_zone a \<and> ob_body_crossed (fr_evidence f)
      then go Succeeded ''FULL_BODY_OUT_OBSERVED'' [] (s\<lparr>st_crossed := True\<rparr>)
      else stay ''FULL_BODY_CROSSING_REQUIRED'' [] s)"

definition rise :: "frame \<Rightarrow> circumstances \<Rightarrow> action_state \<Rightarrow> decision" where
  "rise f x s =
     (if fresh f [''posture'', ''motion''] \<and> ob_posture (fr_evidence f) = Stand \<and> ex_posture (fr_extras f)
         \<and> validated f \<and> ob_motion (fr_evidence f) = Stopped \<and> cx_hold_ack x
      then go Ready_To_Move ''STAND_VERIFIED_HOLD_RETAINED'' [] s
      else stay ''STAND_COMPLETION_EVIDENCE_REQUIRED'' [] s)"

subsection \<open>The decision\<close>

definition coverage :: "frame \<Rightarrow> action_state \<Rightarrow> action_state" where
  "coverage f s =
     (if fresh f [''coverage'']
      then s\<lparr>st_steps := ex_steps (fr_extras f), st_segments := ex_segments (fr_extras f)\<rparr> else s)"

definition by_phase :: "action \<Rightarrow> frame \<Rightarrow> circumstances \<Rightarrow> action_state \<Rightarrow> exn + decision" where
  "by_phase a f x s =
     (case st_phase s of
        Approach \<Rightarrow> Inr (approach a f x s)
      | Wait_Cancel \<Rightarrow> Inr (wait_cancel f s)
      | Hold_Ack \<Rightarrow> Inr (hold_acknowledged a x s)
      | Hold_Signal \<Rightarrow> dwell a f x s
      | Park_Hold \<Rightarrow> dwell a f x s
      | Exit_Pending \<Rightarrow> crossing a f x s
      | Departing \<Rightarrow> crossing a f x s
      | Terrain \<Rightarrow> Inr (terrain f s)
      | Finish \<Rightarrow> Inr (finish a f s)
      | Rise_Wait \<Rightarrow> Inr (rise f x s)
      | _ \<Rightarrow> Inr (stop ''UNKNOWN_ACTION_PHASE'' s))"

definition timeout_reason :: "action \<Rightarrow> action_state \<Rightarrow> string" where
  "timeout_reason a s = (if st_phase s \<in> {Hold_Ack, Hold_Signal} \<and> ac_type a = Traffic_Stop_And_Go
     then ''SIGNAL_WAIT_TIMEOUT'' else ''ACTION_TIMEOUT'')"

definition decide :: "action \<Rightarrow> frame option \<Rightarrow> circumstances \<Rightarrow> action_state \<Rightarrow> exn + decision" where
  "decide a fo x s =
     (if st_phase s \<in> set TERMINAL \<or> st_phase s = New then Inr (s, [])
      else case fo of
        None \<Rightarrow> Inr (stop ''SAFETY_OBSERVATION_STALE'' s)
      | Some f \<Rightarrow>
          if \<not> fresh f [''safety''] then Inr (stop ''SAFETY_OBSERVATION_STALE'' s)
          else if ex_estop (fr_extras f) \<or> ex_collision (fr_extras f)
          then Inr (stop (if ex_estop (fr_extras f) then ''ESTOP'' else ''COLLISION'') s)
          else if ac_timeout a \<le> fl (cx_now x - st_started s) then Inr (stop (timeout_reason a s) s)
          else by_phase a f x (coverage f s))"

subsection \<open>The adapter around the decisions\<close>

text \<open>
  What \<^verbatim>\<open>adapter.py\<close> does to the state of the action: \<^verbatim>\<open>start\<close>, \<^verbatim>\<open>observe\<close> with the effect that opens the
  exit generation, the dispatch of the exit goal, the terminal event of the approach, a rejected packet, the
  failure of a port or a stop, and the order to stand up. The calls of the ports are not modelled: each is
  free to fail, which is a step of its own.
\<close>

datatype event =
    Frame_Seen "frame option" circumstances
  | Exit_Dispatched
  | Approach_Terminal
  | Packet_Rejected string
  | Port_Failed string bool
  | Stand_Ordered rat

definition started :: "rat \<Rightarrow> action_state" where
  "started now = new_action\<lparr>st_phase := Approach, st_reason := ''APPROACH_DISPATCH'', st_started := now\<rparr>"

definition live :: "action_state \<Rightarrow> bool" where
  "live s \<longleftrightarrow> st_phase s \<noteq> New \<and> st_phase s \<notin> set TERMINAL"

inductive adapter_step :: "action \<Rightarrow> action_state \<Rightarrow> event \<Rightarrow> action_state \<Rightarrow> bool" for a where
  observe: "live s \<Longrightarrow> st_phase s \<noteq> Exit_Prepare \<Longrightarrow> decide a fo x s = Inr (s', effects) \<Longrightarrow> ''EXIT'' \<notin> set effects
    \<Longrightarrow> adapter_step a s (Frame_Seen fo x) s'"
| order_exit: "live s \<Longrightarrow> st_phase s \<noteq> Exit_Prepare \<Longrightarrow> decide a fo x s = Inr (s', effects) \<Longrightarrow> ''EXIT'' \<in> set effects
    \<Longrightarrow> adapter_step a s (Frame_Seen fo x) (s'\<lparr>st_phase := Exit_Prepare, st_reason := ''EXIT_HOLD_ACK_REQUIRED''\<rparr>)"
| dispatch_exit: "st_phase s = Exit_Prepare
    \<Longrightarrow> adapter_step a s Exit_Dispatched (s\<lparr>st_phase := Exit_Pending, st_reason := ''EXIT_GOAL_DISPATCHED''\<rparr>)"
| approach_terminal: "st_phase s \<in> {Approach, Wait_Cancel} \<Longrightarrow> ac_type a \<in> {Traffic_Stop_And_Go, Park_Sit_Hold}
    \<Longrightarrow> adapter_step a s Approach_Terminal (s\<lparr>st_phase := Hold_Ack, st_reason := ''APPROACH_TERMINAL_EVENT''\<rparr>)"
| reject: "st_phase s \<in> {Hold_Ack, Hold_Signal, Park_Hold}
    \<Longrightarrow> adapter_step a s (Packet_Rejected why) (s\<lparr>st_reason := why, st_dwell := None, st_last_valid := None\<rparr>)"
| fail: "st_phase s \<noteq> New
    \<Longrightarrow> adapter_step a s (Port_Failed why by_stop)
         (s\<lparr>st_phase := (if by_stop then Interrupted else Failed), st_reason := why, st_dwell := None,
            st_last_valid := None, st_departed := False\<rparr>)"
| stand: "ac_type a = Park_Sit_Hold \<Longrightarrow> st_phase s = Succeeded
    \<Longrightarrow> adapter_step a s (Stand_Ordered now)
         (s\<lparr>st_phase := Rise_Wait, st_started := now, st_dwell := None, st_last_valid := None\<rparr>)"

inductive adapter_run :: "action \<Rightarrow> rat \<Rightarrow> event list \<Rightarrow> action_state \<Rightarrow> bool" for a now where
  start: "adapter_run a now [] (started now)"
| snoc: "adapter_run a now evs s \<Longrightarrow> adapter_step a s ev s' \<Longrightarrow> adapter_run a now (evs @ [ev]) s'"

code_pred (modes: i \<Rightarrow> i \<Rightarrow> i \<Rightarrow> o \<Rightarrow> bool) adapter_step .

end
