(* ===== verification/Native_State_Claims.thy ===== *)
theory Native_State_Claims
  imports Native_State "HOL-Library.Sublist"
begin

text \<open>
  Runs of the decisions of one action: every decision returns, and an action that waits at a signal or parks
  succeeds only after an unbroken dwell of the required length, an associated green light and, at a signal, an
  observed departure.
\<close>

subsection \<open>Every decision returns\<close>

lemma fresh_components:
  assumes "fresh f names"
  shows "\<exists>rs. map_exn (component f) names = Inr rs \<and> length rs = length names"
  using assms
proof (induction names)
  case (Cons n names)
  then obtain rs where "map_exn (component f) names = Inr rs" "length rs = length names" by (auto simp: fresh_def)
  moreover from Cons.prems obtain r where "component f n = Inr r"
    by (auto simp: fresh_def component_fresh_def component_def split: option.splits)
  ultimately show ?case by simp
qed simp

lemma least_returns: "xs \<noteq> [] \<Longrightarrow> \<exists>m. least xs = Inr m"
  by (cases xs) (simp_all add: least_def)

lemma greatest_returns: "xs \<noteq> [] \<Longrightarrow> \<exists>m. greatest xs = Inr m"
  by (cases xs) (simp_all add: greatest_def)

lemma supported_end_returns: "fresh f names \<Longrightarrow> names \<noteq> [] \<Longrightarrow> \<exists>t. supported_end f names = Inr t"
proof -
  assume "fresh f names" "names \<noteq> []"
  with fresh_components [of f names] obtain rs where rs: "map_exn (component f) names = Inr rs" "rs \<noteq> []" by fastforce
  then obtain m where "least (map (\<lambda>r. fl (rv_receipt r - rv_age r)) rs) = Inr m" using least_returns by (metis map_is_Nil_conv)
  with rs(1) show ?thesis by (simp add: supported_end_def)
qed

lemma acquired_after_returns: "fresh f names \<Longrightarrow> names \<noteq> [] \<Longrightarrow> \<exists>b. acquired_after f t names = Inr b"
  using supported_end_returns [of f names] by (auto simp: acquired_after_def and_exn_def)

lemma needed_ne [simp]: "needed p \<noteq> []"
  by (simp add: needed_def)

lemma physical_fresh: "physical a f x p \<Longrightarrow> fresh f (needed p)"
  by (simp add: physical_def Let_def)

text \<open>What a dwell with a physical stop decides.\<close>

definition dwell_started :: "frame \<Rightarrow> rat \<Rightarrow> received list \<Rightarrow> action_state \<Rightarrow> rat" where
  "dwell_started f sample rs s =
     (if interrupted f sample s then projr (greatest (map rv_receipt rs)) else the (st_dwell s))"

lemma dwell_cases:
  assumes "physical a f x (st_phase s)"
  obtains sample rs where "supported_end f (needed (st_phase s)) = Inr sample"
    "map_exn (component f) (needed (st_phase s)) = Inr rs" "rs \<noteq> []"
proof -
  from fresh_components [OF physical_fresh [OF assms]] obtain rs where
    "map_exn (component f) (needed (st_phase s)) = Inr rs" "length rs = length (needed (st_phase s))" by blast
  moreover from supported_end_returns [OF physical_fresh [OF assms]] obtain t where
    "supported_end f (needed (st_phase s)) = Inr t" by auto
  ultimately show thesis by (intro that) auto
qed

definition after_hold :: "circumstances \<Rightarrow> rat \<Rightarrow> bool" where
  "after_hold x sample \<longleftrightarrow> (\<exists>h. cx_hold_ack_s x = Some h \<and> h < sample)"

lemma dwell_decides:
  assumes "physical a f x (st_phase s)" "supported_end f (needed (st_phase s)) = Inr sample"
    "map_exn (component f) (needed (st_phase s)) = Inr rs" "rs \<noteq> []" "after_hold x sample" "dwell a f x s = Inr (s', effects)"
  shows "st_dwell s' = Some (dwell_started f sample rs s)" "st_last_valid s' = Some sample" "st_departed s' = st_departed s"
    "(st_phase s' = st_phase s \<and> effects = [])
     \<or> (fl (dwell_started f sample rs s + duration a (st_phase s)) \<le> sample
        \<and> (if st_phase s = Park_Hold then st_phase s' = Succeeded \<and> effects = []
            else st_phase s' = Exit_Pending \<and> effects = [''EXIT''] \<and> exit_eligible a f))"
proof -
  have ne: "zip (needed (st_phase s)) (map rv_source rs) \<noteq> []" using assms(4) by (cases rs) (auto simp: needed_def)
  obtain start where g: "greatest (map rv_receipt rs) = Inr start" using greatest_returns assms(4) by blast
  define source where "source = (if interrupted f sample s then zip (needed (st_phase s)) (map rv_source rs) else st_source_start s)"
  obtain d where d: "least (map (source_elapsed source) (zip (needed (st_phase s)) (map rv_source rs))) = Inr d"
    using least_returns ne by (metis map_is_Nil_conv)
  have ack: "\<not> (case cx_hold_ack_s x of None \<Rightarrow> True | Some t \<Rightarrow> sample \<le> t)" using assms(5) by (auto simp: after_hold_def)
  have s: "sbind (if interrupted f sample s then greatest (map rv_receipt rs) else Inr (the (st_dwell s))) k = k (dwell_started f sample rs s)" for k
    by (simp add: dwell_started_def g)
  have "dwell a f x s =
    (let p = st_phase s; start = dwell_started f sample rs s;
         updated = s\<lparr>st_dwell := Some start, st_last_valid := Some sample, st_source_start := source\<rparr> in
      Inr (if sample < fl (start + duration a p) \<or> d < duration a p
           then stay ''DWELL_IN_PROGRESS'' [] updated
           else if p = Park_Hold then go Succeeded ''PARK_EVIDENCE_COMPLETE'' [] updated
           else if \<not> exit_eligible a f then stay ''FRESH_ASSOCIATED_GREEN_POSE_PATH_REQUIRED'' [] updated
           else go Exit_Pending ''NEW_EXIT_GENERATION_REQUIRED'' [''EXIT''] updated))"
    unfolding dwell_def using assms(1) by (simp add: Let_def assms(2,3) ack s d source_def [symmetric])
  with assms(6) show "st_dwell s' = Some (dwell_started f sample rs s)" "st_last_valid s' = Some sample" "st_departed s' = st_departed s"
    "(st_phase s' = st_phase s \<and> effects = [])
     \<or> (fl (dwell_started f sample rs s + duration a (st_phase s)) \<le> sample
        \<and> (if st_phase s = Park_Hold then st_phase s' = Succeeded \<and> effects = []
            else st_phase s' = Exit_Pending \<and> effects = [''EXIT''] \<and> exit_eligible a f))"
    by (auto simp: result_def Let_def split: if_splits)
qed

lemma dwell_idle:
  assumes "\<not> physical a f x (st_phase s) \<or> (supported_end f (needed (st_phase s)) = Inr sample \<and> \<not> after_hold x sample)"
  shows "\<exists>reason. dwell a f x s = Inr (s\<lparr>st_dwell := None, st_last_valid := None, st_reason := reason\<rparr>, [])"
  using assms by (auto simp: dwell_def after_hold_def result_def Let_def not_less split: option.split)

lemma dwell_returns: "\<exists>d. dwell a f x s = Inr d"
proof (cases "physical a f x (st_phase s)")
  case True
  then obtain sample rs where d: "supported_end f (needed (st_phase s)) = Inr sample"
    "map_exn (component f) (needed (st_phase s)) = Inr rs" "rs \<noteq> []" by (rule dwell_cases)
  show ?thesis
  proof (cases "after_hold x sample")
    case False
    with d(1) dwell_idle [of a f x s sample] show ?thesis by auto
  next
    case True
    have ne: "zip (needed (st_phase s)) (map rv_source rs) \<noteq> []" using d(3) by (cases rs) (auto simp: needed_def)
    obtain start where "greatest (map rv_receipt rs) = Inr start" using greatest_returns d(3) by blast
    moreover have "\<exists>m. least (map (source_elapsed source) (zip (needed (st_phase s)) (map rv_source rs))) = Inr m" for source
      using least_returns ne by (metis map_is_Nil_conv)
    then obtain m where "\<And>source. least (map (source_elapsed source) (zip (needed (st_phase s)) (map rv_source rs))) = Inr (m source)" by metis
    ultimately show ?thesis
      using d True by (auto simp: dwell_def Let_def after_hold_def)
  qed
qed (use dwell_idle in blast)

lemma crossing_returns: "\<exists>d. crossing a f x s = Inr d"
proof (cases "fresh f [''departure''] \<and> fresh f [''navigation'', ''pose'', ''path'', ''motion'']")
  case True
  then have "fresh f [''departure'', ''motion'']" by (simp add: fresh_def)
  then obtain b where "\<And>t. acquired_after f t [''departure'', ''motion''] = Inr (b t)"
    using acquired_after_returns by (metis list.distinct(1))
  then show ?thesis by (auto simp: crossing_def departure_def Let_def split: option.splits)
next
  case False
  then show ?thesis by (auto simp: crossing_def departure_def Let_def split: option.splits)
qed

lemma decide_returns: "\<exists>d. decide a fo x s = Inr d"
proof -
  have "\<exists>d. by_phase a f x s = Inr d" for f s
    using dwell_returns [of a f x s] crossing_returns [of a f x s] by (cases "st_phase s") (simp_all add: by_phase_def)
  then show ?thesis by (auto simp: decide_def split: option.split)
qed

subsection \<open>What each phase leads to\<close>

lemmas decision_rules = result_def stop_def Let_def

lemma approach_next:
  "approach a f x s = (s', effects) \<Longrightarrow> ''EXIT'' \<notin> set effects \<and> (st_phase s' = Failed
     \<or> (st_dwell s' = st_dwell s \<and> st_departed s' = st_departed s
        \<and> (st_phase s' = st_phase s \<or> (st_phase s' = Wait_Cancel \<and> ac_type a = Traffic_Stop_And_Go)
           \<or> (st_phase s' = Hold_Ack \<and> ac_type a \<in> {Traffic_Stop_And_Go, Park_Sit_Hold})
           \<or> (st_phase s' = Succeeded \<and> ac_type a = Navigate_Adaptive)
           \<or> (st_phase s' = Terrain \<and> ac_type a = Traverse_Terrain)
           \<or> (st_phase s' = Finish \<and> ac_type a = Finish_Crossing))))"
  by (cases "ac_type a") (auto simp: approach_def decision_rules split: if_splits)

lemma wait_cancel_next:
  "wait_cancel f s = (s', effects) \<Longrightarrow> ''EXIT'' \<notin> set effects \<and> (st_phase s' = Failed
     \<or> (st_dwell s' = st_dwell s \<and> st_departed s' = st_departed s \<and> (st_phase s' = st_phase s \<or> st_phase s' = Hold_Ack)))"
  by (auto simp: wait_cancel_def decision_rules split: if_splits)

lemma hold_acknowledged_next:
  "hold_acknowledged a x s = (s', effects) \<Longrightarrow> ''EXIT'' \<notin> set effects \<and> st_dwell s' = st_dwell s \<and> st_departed s' = st_departed s
     \<and> (st_phase s' = st_phase s \<or> (st_phase s' = (if ac_type a = Park_Sit_Hold then Park_Hold else Hold_Signal)))"
  by (auto simp: hold_acknowledged_def decision_rules split: if_splits)

lemma terrain_next:
  "terrain f s = (s', effects) \<Longrightarrow> ''EXIT'' \<notin> set effects \<and> st_phase s' \<in> {st_phase s, Succeeded}"
  by (auto simp: terrain_def decision_rules split: if_splits)

lemma finish_next:
  "finish a f s = (s', effects) \<Longrightarrow> ''EXIT'' \<notin> set effects \<and> st_phase s' \<in> {st_phase s, Succeeded}"
  by (auto simp: finish_def decision_rules split: if_splits)

lemma rise_next:
  "rise f x s = (s', effects) \<Longrightarrow> ''EXIT'' \<notin> set effects \<and> st_phase s' \<in> {st_phase s, Ready_To_Move}"
  by (auto simp: rise_def decision_rules split: if_splits)

text \<open>A frame that shows the departure after both acknowledgements.\<close>

definition departs :: "event \<Rightarrow> bool" where
  "departs ev \<longleftrightarrow> (\<exists>f x exit_ack release_ack. ev = Frame_Seen (Some f) x \<and> fresh f [''departure'']
     \<and> ex_departure (fr_extras f) \<and> ob_motion (fr_evidence f) = Moving \<and> cx_exit_ack_s x = Some exit_ack
     \<and> cx_release_ack_s x = Some release_ack
     \<and> acquired_after f (max exit_ack release_ack) [''departure'', ''motion''] = Inr True)"

lemma departure_next:
  "departure a f x s = Inr (s', effects) \<Longrightarrow> ''EXIT'' \<notin> set effects \<and> (st_phase s' = Failed
     \<or> (st_phase s' \<in> {st_phase s, Departing} \<and> (st_departed s' \<longrightarrow> st_departed s \<or> departs (Frame_Seen (Some f) x))))"
  by (auto simp: departure_def decision_rules departs_def sbind_Inr_iff split: if_splits option.splits)

lemma crossing_next:
  "crossing a f x s = Inr (s', effects) \<Longrightarrow> ''EXIT'' \<notin> set effects \<and> (st_phase s' = Failed
     \<or> (st_phase s' \<in> {st_phase s, Departing} \<and> (st_departed s' \<longrightarrow> st_departed s \<or> departs (Frame_Seen (Some f) x)))
     \<or> (st_phase s' = Succeeded \<and> st_departed s))"
proof -
  assume c: "crossing a f x s = Inr (s', effects)"
  show ?thesis
  proof (cases "st_departed s")
    case False
    with c departure_next [of a f x s s' effects] show ?thesis
      by (auto simp: crossing_def decision_rules split: if_splits)
  next
    case True
    with c show ?thesis by (auto simp: crossing_def decision_rules split: if_splits)
  qed
qed

subsection \<open>Dwells\<close>

definition stop_seen :: "action \<Rightarrow> phase \<Rightarrow> frame \<Rightarrow> circumstances \<Rightarrow> rat \<Rightarrow> bool" where
  "stop_seen a p f x t \<longleftrightarrow> physical a f x p \<and> supported_end f (needed p) = Inr t \<and> after_hold x t"

text \<open>Consecutive frames that each show the stop, acquired after the hold was acknowledged, never going back
  and never leaving a gap; with the start and the last acquisition time of the dwell.\<close>

inductive dwelling :: "action \<Rightarrow> phase \<Rightarrow> event list \<Rightarrow> rat \<Rightarrow> rat \<Rightarrow> bool" for a p where
  begin_dwell: "stop_seen a p f x t \<Longrightarrow> map_exn (component f) (needed p) = Inr rs \<Longrightarrow> greatest (map rv_receipt rs) = Inr start
    \<Longrightarrow> dwelling a p [Frame_Seen (Some f) x] start t"
| keep_dwell: "dwelling a p evs start l \<Longrightarrow> stop_seen a p f x t \<Longrightarrow> l \<le> t \<Longrightarrow> fl (t - l) \<le> po_gap (fr_policy f)
    \<Longrightarrow> dwelling a p (evs @ [Frame_Seen (Some f) x]) start t"

definition standing :: "action \<Rightarrow> phase \<Rightarrow> event list \<Rightarrow> action_state \<Rightarrow> bool" where
  "standing a p evs s \<longleftrightarrow> st_dwell s = None
     \<or> (\<exists>before ds start l. evs = before @ ds \<and> dwelling a p ds start l \<and> st_dwell s = Some start \<and> st_last_valid s = Some l)"

text \<open>The dwell that let the action pass, and what came after it.\<close>

definition passed :: "action \<Rightarrow> phase \<Rightarrow> event list \<Rightarrow> event list \<Rightarrow> bool" where
  "passed a p evs rest \<longleftrightarrow> (\<exists>before ds f x start t.
     evs = before @ ds @ [Frame_Seen (Some f) x] @ rest \<and> dwelling a p (ds @ [Frame_Seen (Some f) x]) start t
     \<and> fl (start + duration a p) \<le> t \<and> (p = Hold_Signal \<longrightarrow> exit_eligible a f))"

lemma passed_snoc: "passed a p evs rest \<Longrightarrow> passed a p (evs @ [ev]) (rest @ [ev])"
  unfolding passed_def by (elim exE conjE) (intro exI conjI, auto)

lemma dwelling_step:
  assumes "standing a (st_phase s) evs s" "physical a f x (st_phase s)" "supported_end f (needed (st_phase s)) = Inr sample"
    "map_exn (component f) (needed (st_phase s)) = Inr rs" "rs \<noteq> []" "after_hold x sample"
  shows "\<exists>before ds. evs = before @ ds
    \<and> dwelling a (st_phase s) (ds @ [Frame_Seen (Some f) x]) (dwell_started f sample rs s) sample"
proof (cases "interrupted f sample s")
  case True
  obtain start where "greatest (map rv_receipt rs) = Inr start" using greatest_returns assms(5) by blast
  with True assms have "dwelling a (st_phase s) ([] @ [Frame_Seen (Some f) x]) (dwell_started f sample rs s) sample"
    by (auto simp: dwell_started_def stop_seen_def intro: begin_dwell)
  then show ?thesis by blast
next
  case False
  with assms(1) obtain before ds start l where d: "evs = before @ ds" "dwelling a (st_phase s) ds start l"
    "st_dwell s = Some start" "st_last_valid s = Some l" by (auto simp: standing_def interrupted_def)
  with False have "l \<le> sample" "fl (sample - l) \<le> po_gap (fr_policy f)" by (auto simp: interrupted_def)
  with keep_dwell [OF d(2)] assms(2,3,6) have "dwelling a (st_phase s) (ds @ [Frame_Seen (Some f) x]) start sample"
    by (simp add: stop_seen_def)
  moreover have "dwell_started f sample rs s = start" using False d(3) by (simp add: dwell_started_def)
  ultimately show ?thesis using d(1) by blast
qed

lemma dwell_next:
  assumes "dwell a f x s = Inr (s', effects)" "standing a (st_phase s) evs s" "st_phase s \<in> {Hold_Signal, Park_Hold}"
  shows "st_departed s' = st_departed s \<and>
    ((st_phase s' = st_phase s \<and> effects = [] \<and> standing a (st_phase s) (evs @ [Frame_Seen (Some f) x]) s')
     \<or> (passed a (st_phase s) (evs @ [Frame_Seen (Some f) x]) []
        \<and> (if st_phase s = Park_Hold then st_phase s' = Succeeded \<and> effects = []
            else st_phase s' = Exit_Pending \<and> effects = [''EXIT''])))"
proof (cases "physical a f x (st_phase s)")
  case True
  then obtain sample rs where d: "supported_end f (needed (st_phase s)) = Inr sample"
    "map_exn (component f) (needed (st_phase s)) = Inr rs" "rs \<noteq> []" by (rule dwell_cases)
  show ?thesis
  proof (cases "after_hold x sample")
    case False
    with d(1) dwell_idle [of a f x s sample] assms(1) show ?thesis by (auto simp: standing_def)
  next
    case ah: True
    from dwelling_step [OF assms(2) True d ah] obtain before ds where e: "evs = before @ ds"
      "dwelling a (st_phase s) (ds @ [Frame_Seen (Some f) x]) (dwell_started f sample rs s) sample" by blast
    note n = dwell_decides [OF True d ah assms(1)]
    from n(4) show ?thesis
    proof
      assume "st_phase s' = st_phase s \<and> effects = []"
      moreover have "evs @ [Frame_Seen (Some f) x] = before @ (ds @ [Frame_Seen (Some f) x])" using e(1) by simp
      ultimately have "standing a (st_phase s) (evs @ [Frame_Seen (Some f) x]) s'"
        unfolding standing_def using e(2) n(1,2) by blast
      with n(3) \<open>st_phase s' = st_phase s \<and> effects = []\<close> show ?thesis by simp
    next
      assume p: "fl (dwell_started f sample rs s + duration a (st_phase s)) \<le> sample
        \<and> (if st_phase s = Park_Hold then st_phase s' = Succeeded \<and> effects = []
            else st_phase s' = Exit_Pending \<and> effects = [''EXIT''] \<and> exit_eligible a f)"
      then have "passed a (st_phase s) (evs @ [Frame_Seen (Some f) x]) []"
        unfolding passed_def using e assms(3)
        by (intro exI [of _ before] exI [of _ ds] exI [of _ f] exI [of _ x] exI [of _ "dwell_started f sample rs s"] exI [of _ sample])
           auto
      with p n(3) show ?thesis by (auto split: if_splits)
    qed
  qed
next
  case False
  with dwell_idle [of a f x s] assms(1) show ?thesis by (auto simp: standing_def)
qed

subsection \<open>The invariant of a run\<close>

fun phase_inv :: "action \<Rightarrow> event list \<Rightarrow> action_state \<Rightarrow> phase \<Rightarrow> bool" where
  "phase_inv a evs s Approach \<longleftrightarrow> st_dwell s = None \<and> \<not> st_departed s"
| "phase_inv a evs s Wait_Cancel \<longleftrightarrow> st_dwell s = None \<and> \<not> st_departed s \<and> ac_type a = Traffic_Stop_And_Go"
| "phase_inv a evs s Hold_Ack \<longleftrightarrow> st_dwell s = None \<and> \<not> st_departed s \<and> ac_type a \<in> {Traffic_Stop_And_Go, Park_Sit_Hold}"
| "phase_inv a evs s Hold_Signal \<longleftrightarrow> standing a Hold_Signal evs s \<and> \<not> st_departed s \<and> ac_type a = Traffic_Stop_And_Go"
| "phase_inv a evs s Park_Hold \<longleftrightarrow> standing a Park_Hold evs s \<and> ac_type a = Park_Sit_Hold"
| "phase_inv a evs s Exit_Prepare \<longleftrightarrow> ac_type a = Traffic_Stop_And_Go \<and> \<not> st_departed s \<and> (\<exists>rest. passed a Hold_Signal evs rest)"
| "phase_inv a evs s Exit_Pending \<longleftrightarrow> ac_type a = Traffic_Stop_And_Go
     \<and> (\<exists>rest. passed a Hold_Signal evs rest \<and> (st_departed s \<longrightarrow> (\<exists>ev \<in> set rest. departs ev)))"
| "phase_inv a evs s Departing \<longleftrightarrow> ac_type a = Traffic_Stop_And_Go
     \<and> (\<exists>rest. passed a Hold_Signal evs rest \<and> (st_departed s \<longrightarrow> (\<exists>ev \<in> set rest. departs ev)))"
| "phase_inv a evs s Terrain \<longleftrightarrow> ac_type a = Traverse_Terrain"
| "phase_inv a evs s Finish \<longleftrightarrow> ac_type a = Finish_Crossing"
| "phase_inv a evs s Rise_Wait \<longleftrightarrow> ac_type a = Park_Sit_Hold"
| "phase_inv a evs s Succeeded \<longleftrightarrow>
     (ac_type a = Traffic_Stop_And_Go \<longrightarrow> (\<exists>rest. passed a Hold_Signal evs rest \<and> (\<exists>ev \<in> set rest. departs ev)))
     \<and> (ac_type a = Park_Sit_Hold \<longrightarrow> (\<exists>rest. passed a Park_Hold evs rest))"
| "phase_inv a evs s Failed \<longleftrightarrow> True"
| "phase_inv a evs s Interrupted \<longleftrightarrow> True"
| "phase_inv a evs s Ready_To_Move \<longleftrightarrow> True"
| "phase_inv a evs s New \<longleftrightarrow> False"
| "phase_inv a evs s (Other_Phase n) \<longleftrightarrow> False"

abbreviation run_inv :: "action \<Rightarrow> event list \<Rightarrow> action_state \<Rightarrow> bool" where
  "run_inv a evs s \<equiv> phase_inv a evs s (st_phase s)"

lemma coverage_fields [simp]:
  "st_phase (coverage f s) = st_phase s" "st_dwell (coverage f s) = st_dwell s" "st_last_valid (coverage f s) = st_last_valid s"
  "st_departed (coverage f s) = st_departed s" "standing a p evs (coverage f s) = standing a p evs s"
  by (simp_all add: coverage_def standing_def)

lemma stop_fields [simp]: "st_phase (fst (stop why s)) = Failed" "snd (stop why s) = [''HOLD'', ''CANCEL'']"
  by (simp_all add: decision_rules)

lemma decide_cases:
  assumes "decide a fo x s = Inr (s', effects)" "live s"
  shows "(st_phase s' = Failed \<and> ''EXIT'' \<notin> set effects)
    \<or> (\<exists>f. fo = Some f \<and> by_phase a f x (coverage f s) = Inr (s', effects))"
proof -
  have stopped: "st_phase s' = Failed \<and> ''EXIT'' \<notin> set effects" if "stop why s = (s', effects)" for why
    using stop_fields [of why s] by (simp add: that)
  from assms show ?thesis by (auto simp: decide_def live_def stopped split: option.splits if_splits)
qed

lemma passed_more: "\<exists>rest. passed a p evs rest \<Longrightarrow> \<exists>rest. passed a p (evs @ [ev]) rest"
  using passed_snoc by blast

lemma departed_more:
  "\<exists>rest. passed a p evs rest \<and> (d \<longrightarrow> (\<exists>e \<in> set rest. departs e)) \<Longrightarrow> d' \<longrightarrow> d \<or> departs ev
   \<Longrightarrow> \<exists>rest. passed a p (evs @ [ev]) rest \<and> (d' \<longrightarrow> (\<exists>e \<in> set rest. departs e))"
  using passed_snoc by (metis UnCI list.set_intros(1) set_append)

definition step_ok :: "action \<Rightarrow> event list \<Rightarrow> action_state \<Rightarrow> string list \<Rightarrow> bool" where
  "step_ok a evs s effects \<longleftrightarrow>
     (if ''EXIT'' \<in> set effects
      then passed a Hold_Signal evs [] \<and> ac_type a = Traffic_Stop_And_Go \<and> \<not> st_departed s
      else run_inv a evs s)"

lemma crossing_inv:
  assumes "crossing a f x s = Inr (s', effects)" "st_phase s \<in> {Exit_Pending, Departing}" "run_inv a evs s"
  shows "step_ok a (evs @ [Frame_Seen (Some f) x]) s' effects"
proof -
  let ?ev = "Frame_Seen (Some f) x"
  from assms(2,3) have t: "ac_type a = Traffic_Stop_And_Go"
    and p: "\<exists>rest. passed a Hold_Signal evs rest \<and> (st_departed s \<longrightarrow> (\<exists>ev \<in> set rest. departs ev))" by auto
  note n = crossing_next [OF assms(1)]
  from n assms(2) have "st_phase s' = Failed
      \<or> (st_phase s' \<in> {Exit_Pending, Departing} \<and> (st_departed s' \<longrightarrow> st_departed s \<or> departs ?ev))
      \<or> (st_phase s' = Succeeded \<and> st_departed s)" by auto
  then consider "st_phase s' = Failed"
    | "st_phase s' \<in> {Exit_Pending, Departing}" "st_departed s' \<longrightarrow> st_departed s \<or> departs ?ev"
    | "st_phase s' = Succeeded" "st_departed s" by blast
  then have "run_inv a (evs @ [?ev]) s'"
  proof cases
    case 2
    from departed_more [OF p this(2)] 2(1) t show ?thesis by (metis insertE singletonD phase_inv.simps(7,8))
  next
    case 3
    from departed_more [OF p, of True ?ev] 3 t show ?thesis by auto
  qed simp
  with n show ?thesis by (auto simp: step_ok_def)
qed

lemma dwell_inv:
  assumes "dwell a f x s = Inr (s', effects)" "st_phase s \<in> {Hold_Signal, Park_Hold}" "run_inv a evs s"
  shows "step_ok a (evs @ [Frame_Seen (Some f) x]) s' effects"
proof -
  from assms(2,3) have st: "standing a (st_phase s) evs s" by auto
  from dwell_next [OF assms(1) st assms(2)] assms(2,3) show ?thesis by (auto simp: step_ok_def)
qed

lemma by_phase_inv:
  assumes "by_phase a f x s = Inr (s', effects)" "run_inv a evs s" "live s" "st_phase s \<noteq> Exit_Prepare"
  shows "step_ok a (evs @ [Frame_Seen (Some f) x]) s' effects"
proof (cases "st_phase s")
  case Approach
  with assms(1,2) approach_next [of a f x s s' effects] show ?thesis by (auto simp: by_phase_def step_ok_def)
next
  case Wait_Cancel
  with assms(1,2) wait_cancel_next [of f s s' effects] show ?thesis by (auto simp: by_phase_def step_ok_def)
next
  case Hold_Ack
  with assms(1,2) hold_acknowledged_next [of a x s s' effects] show ?thesis
    by (auto simp: by_phase_def step_ok_def standing_def split: if_splits)
next
  case Terrain
  with assms(1,2) terrain_next [of f s s' effects] show ?thesis by (auto simp: by_phase_def step_ok_def)
next
  case Finish
  with assms(1,2) finish_next [of a f s s' effects] show ?thesis by (auto simp: by_phase_def step_ok_def)
next
  case Rise_Wait
  with assms(1,2) rise_next [of f x s s' effects] show ?thesis by (auto simp: by_phase_def step_ok_def)
next
  case Hold_Signal
  with assms(1,2) show ?thesis by (intro dwell_inv [of a f x s s' effects evs]) (simp_all add: by_phase_def)
next
  case Park_Hold
  with assms(1,2) show ?thesis by (intro dwell_inv [of a f x s s' effects evs]) (simp_all add: by_phase_def)
next
  case Exit_Pending
  with assms(1,2) show ?thesis by (intro crossing_inv [of a f x s s' effects evs]) (simp_all add: by_phase_def)
next
  case Departing
  with assms(1,2) show ?thesis by (intro crossing_inv [of a f x s s' effects evs]) (simp_all add: by_phase_def)
qed (use assms in \<open>simp_all add: live_def TERMINAL_def\<close>)

lemma coverage_inv: "phase_inv a evs (coverage f s) p = phase_inv a evs s p"
  by (cases p) simp_all

lemma decide_inv:
  assumes "decide a fo x s = Inr (s', effects)" "run_inv a evs s" "live s" "st_phase s \<noteq> Exit_Prepare"
  shows "step_ok a (evs @ [Frame_Seen fo x]) s' effects"
  using decide_cases [OF assms(1,3)]
proof
  assume "\<exists>f. fo = Some f \<and> by_phase a f x (coverage f s) = Inr (s', effects)"
  then obtain f where f: "fo = Some f" "by_phase a f x (coverage f s) = Inr (s', effects)" by blast
  from by_phase_inv [OF f(2), of evs] assms(2-4) show ?thesis by (simp add: f(1) coverage_inv live_def)
qed (simp add: step_ok_def)

lemma adapter_step_inv:
  assumes "adapter_step a s ev s'" "run_inv a evs s"
  shows "run_inv a (evs @ [ev]) s'"
  using assms
proof (cases rule: adapter_step.cases)
  case (observe fo x effects)
  with decide_inv [of a fo x s s' effects evs] assms(2) show ?thesis by (simp add: step_ok_def)
next
  case (order_exit fo x s1 effects)
  with decide_inv [of a fo x s s1 effects evs] assms(2) show ?thesis by (auto simp: step_ok_def)
next
  case dispatch_exit
  with assms(2) passed_more [of a Hold_Signal evs ev] show ?thesis by auto
next
  case approach_terminal
  with assms(2) show ?thesis by auto
next
  case (reject why)
  with assms(2) show ?thesis by (auto simp: standing_def)
next
  case (fail why by_stop)
  then show ?thesis by simp
next
  case (stand now)
  then show ?thesis by simp
qed

lemma adapter_run_inv: "adapter_run a now evs s \<Longrightarrow> run_inv a evs s"
proof (induction rule: adapter_run.induct)
  case start
  then show ?case by (simp add: started_def new_action_def)
next
  case (snoc evs s ev s')
  from adapter_step_inv [OF snoc.hyps(2) snoc.IH] show ?case .
qed

subsection \<open>A park that succeeds\<close>

definition demo_park :: action where
  "demo_park = \<lparr>ac_type = Park_Sit_Hold, ac_zone = Some ''parking'', ac_signal = None, ac_crossing = None,
     ac_dwell = 2, ac_sit = 5, ac_timeout = 120\<rparr>"

definition demo_component :: "rat \<Rightarrow> int \<Rightarrow> received" where
  "demo_component t ns = \<lparr>rv_receipt = t, rv_age = 0, rv_validity = None, rv_source = ns\<rparr>"

definition demo_frame :: "rat \<Rightarrow> int \<Rightarrow> frame" where
  "demo_frame t ns =
     \<lparr>fr_evidence = \<lparr>ob_goal = Goal_Succeeded, ob_cancel_ack = False, ob_pose = True, ob_path_clear = True,
        ob_obstacle = Goal_Reached, ob_age = None, ob_signal = None, ob_crossing = None, ob_raw = Dark, ob_stable = Dark,
        ob_flags = [], ob_zone = Some ''parking'', ob_left = Foot_Unknown, ob_right = Foot_Unknown, ob_feet_kind = Proxy,
        ob_motion = Stopped, ob_body_inside = True, ob_body_crossed = False, ob_posture = Sit, ob_terrain = False\<rparr>,
      fr_extras = \<lparr>ex_departure = False, ex_posture = True, ex_terrain = False, ex_reference = ''v1'', ex_estop = False,
        ex_collision = False, ex_steps = [], ex_segments = []\<rparr>,
      fr_components = map (\<lambda>n. (n, demo_component t ns)) [''safety'', ''body'', ''posture'', ''motion''],
      fr_now = t, fr_policy = \<lparr>po_receiver = 1, po_source = 1, po_gap = 10\<rparr>\<rparr>"

definition demo_seen :: "rat \<Rightarrow> int \<Rightarrow> event" where
  "demo_seen t ns = Frame_Seen (Some (demo_frame t ns))
     \<lparr>cx_now = t, cx_hold_ack = True, cx_synthetic = False, cx_hold_ack_s = Some 95, cx_exit_ack_s = None, cx_release_ack_s = None\<rparr>"

lemma demo_component_fresh:
  assumes "fl t = t"
  shows "component_fresh (demo_frame t ns) n \<longleftrightarrow> n \<in> {''safety'', ''body'', ''posture'', ''motion''}"
proof -
  have "t \<le> fl (t + 1)" using fl_mono [of t "t + 1"] assms by simp
  then show ?thesis
    by (auto simp: component_fresh_def demo_frame_def demo_component_def bounded_by_def age_of_def fl_fl)
qed

lemma demo_fresh: "fl t = t \<Longrightarrow> fresh (demo_frame t ns) names \<longleftrightarrow> set names \<subseteq> {''safety'', ''body'', ''posture'', ''motion''}"
  by (auto simp: fresh_def demo_component_fresh list_all_iff)

lemma demo_components:
  "n \<in> {''safety'', ''body'', ''posture'', ''motion''} \<Longrightarrow> component (demo_frame t ns) n = Inr (demo_component t ns)"
  by (auto simp: component_def demo_frame_def)

lemma demo_supported: "supported_end (demo_frame t ns) [''body'', ''posture'', ''motion''] = Inr (fl t)"
  by (simp add: supported_end_def demo_components least_def demo_component_def)

definition park_state :: "phase \<Rightarrow> string \<Rightarrow> (rat \<times> rat) option \<Rightarrow> (string \<times> int) list \<Rightarrow> action_state" where
  "park_state p why d source = (started 90)\<lparr>st_phase := p, st_reason := why, st_dwell := map_option fst d,
     st_last_valid := map_option snd d, st_source_start := source\<rparr>"

lemma demo_seen_step:
  assumes "st_phase s \<in> {Hold_Ack, Park_Hold}" "fl t = t" "st_started s = 90" "fl (t - 90) < 120"
    "by_phase demo_park (demo_frame t ns) (\<lparr>cx_now = t, cx_hold_ack = True, cx_synthetic = False, cx_hold_ack_s = Some 95,
       cx_exit_ack_s = None, cx_release_ack_s = None\<rparr>) s = Inr (s', effects)"
    "''EXIT'' \<notin> set effects"
  shows "adapter_step demo_park s (demo_seen t ns) s'"
  unfolding demo_seen_def
proof (rule adapter_step.observe [where effects = effects])
  show "live s" "st_phase s \<noteq> Exit_Prepare" using assms(1) by (auto simp: live_def TERMINAL_def)
  have "coverage (demo_frame t ns) s = s" using assms(2) by (simp add: coverage_def demo_fresh)
  moreover have "ex_estop (fr_extras (demo_frame t ns)) = False" "ex_collision (fr_extras (demo_frame t ns)) = False"
    by (simp_all add: demo_frame_def)
  ultimately show "decide demo_park (Some (demo_frame t ns)) \<lparr>cx_now = t, cx_hold_ack = True, cx_synthetic = False,
      cx_hold_ack_s = Some 95, cx_exit_ack_s = None, cx_release_ack_s = None\<rparr> s = Inr (s', effects)"
    using assms by (auto simp: decide_def demo_fresh TERMINAL_def demo_park_def)
qed (rule assms(6))

lemma demo_physical:
  "fl t = t \<Longrightarrow> cx_hold_ack x \<Longrightarrow> physical demo_park (demo_frame t ns) x Park_Hold"
  by (simp add: physical_def needed_def demo_fresh) (simp add: demo_frame_def demo_park_def)

lemma demo_park_succeeds:
  "\<exists>s. adapter_run demo_park 90 (((([] @ [Approach_Terminal]) @ [demo_seen 96 1]) @ [demo_seen 100 2]) @ [demo_seen 106 6000000002]) s
     \<and> st_phase s = Succeeded"
proof -
  let ?src = "[(''body'', 2), (''posture'', 2), (''motion'', 2)] :: (string \<times> int) list"
  have f: "fl 90 = 90" "fl 95 = 95" "fl 96 = 96" "fl 100 = 100" "fl 106 = 106" "fl 105 = 105" "fl 6 = 6" "fl 10 = 10" "fl 16 = 16"
    "fl 6000000000 = 6000000000"
    by (simp_all add: fl_numeral)
  note rules = by_phase_def dwell_def needed_def demo_supported demo_components duration_def demo_physical Let_def
    interrupted_def greatest_def least_def source_elapsed_def demo_component_def result_def park_state_def started_def new_action_def
  have r1: "adapter_run demo_park 90 ([] @ [Approach_Terminal]) (park_state Hold_Ack ''APPROACH_TERMINAL_EVENT'' None [])"
  proof (rule adapter_run.snoc [OF adapter_run.start])
    show "adapter_step demo_park (started 90) Approach_Terminal (park_state Hold_Ack ''APPROACH_TERMINAL_EVENT'' None [])"
      using adapter_step.approach_terminal [of "started 90" demo_park]
      by (simp add: demo_park_def park_state_def started_def new_action_def)
  qed
  have r2: "adapter_step demo_park (park_state Hold_Ack ''APPROACH_TERMINAL_EVENT'' None []) (demo_seen 96 1)
      (park_state Park_Hold ''POSTURE_EVIDENCE_REQUIRED'' None [])"
    by (rule demo_seen_step [where effects = "[''SIT'']"]) (simp_all add: f by_phase_def hold_acknowledged_def result_def demo_park_def park_state_def started_def new_action_def)
  have r3: "adapter_step demo_park (park_state Park_Hold ''POSTURE_EVIDENCE_REQUIRED'' None []) (demo_seen 100 2)
      (park_state Park_Hold ''DWELL_IN_PROGRESS'' (Some (100, 100)) ?src)"
    by (rule demo_seen_step [where effects = "[]"]) (simp_all add: f rules, simp_all add: demo_park_def)
  have r4: "adapter_step demo_park (park_state Park_Hold ''DWELL_IN_PROGRESS'' (Some (100, 100)) ?src) (demo_seen 106 6000000002)
      (park_state Succeeded ''PARK_EVIDENCE_COMPLETE'' (Some (100, 106)) ?src)"
    by (rule demo_seen_step [where effects = "[]"]) (simp_all add: f rules, simp_all add: demo_park_def demo_frame_def f)
  have "st_phase (park_state Succeeded ''PARK_EVIDENCE_COMPLETE'' (Some (100, 106)) ?src) = Succeeded"
    by (simp add: park_state_def)
  with adapter_run.snoc [OF adapter_run.snoc [OF adapter_run.snoc [OF r1 r2] r3] r4] show ?thesis by blast
qed

subsection \<open>The property\<close>



end
